theory Spec2Isabelle
  imports Complex_Main
begin

section \<open>The Mundt nodal room-air model (MundtSimMgr.cc)\<close>

text \<open>
  A shallow embedding of the module \<^verbatim>\<open>MundtSimMgr\<close>. \<^verbatim>\<open>Real64\<close> values are
  embedded as \<^typ>\<open>real\<close>: arithmetic is exact, rounding and overflow are not part of
  the embedding. A floating-point division whose divisor is zero does not stop the
  program: it yields an infinity or a NaN. For the slope of the solve the embedding
  follows the program through the infinities (type \<open>quotient\<close>), and records a slope
  that is not a number, with which the temperatures computed from it are not numbers
  either, as \<open>NotANumber\<close>. For the other divisions the embedding records that a
  division by zero was executed (\<open>DivisionByZero\<close>) and follows the run no further,
  its variables being real numbers. \<^verbatim>\<open>ShowFatalError\<close> ends the run
  (\<open>FatalError\<close>); \<^verbatim>\<open>ShowSevereError\<close> prints a message and returns, so its
  messages are collected in a log. An index outside the bounds of one of the module's
  own arrays (an assertion failure of the array library) is \<open>IndexOutOfRange\<close>.
\<close>

subsection \<open>Errors and arrays\<close>

datatype error = FatalError string | IndexOutOfRange | DivisionByZero | NotANumber

definition bindE :: "error + 'a \<Rightarrow> ('a \<Rightarrow> error + 'b) \<Rightarrow> error + 'b" where
  "bindE m f = (case m of Inl e \<Rightarrow> Inl e | Inr x \<Rightarrow> f x)"

text \<open>A \<^verbatim>\<open>for\<close> loop over the listed values of its index, stopping at the first error.\<close>

primrec forE :: "int list \<Rightarrow> (int \<Rightarrow> 's \<Rightarrow> error + 's) \<Rightarrow> 's \<Rightarrow> error + 's" where
  "forE [] body s = Inr s"
| "forE (i # js) body s = bindE (body i s) (forE js body)"

text \<open>The arrays of the module are indexed from 1.\<close>

definition inrange :: "'a list \<Rightarrow> int \<Rightarrow> bool" where
  "inrange xs i = (1 \<le> i \<and> i \<le> int (length xs))"

definition at1 :: "'a list \<Rightarrow> int \<Rightarrow> error + 'a" where
  "at1 xs i = (if inrange xs i then Inr (xs ! nat (i - 1)) else Inl IndexOutOfRange)"

definition upd1 :: "'a list \<Rightarrow> int \<Rightarrow> ('a \<Rightarrow> 'a) \<Rightarrow> error + 'a list" where
  "upd1 xs i f =
     (if inrange xs i then Inr (xs[nat (i - 1) := f (xs ! nat (i - 1))])
      else Inl IndexOutOfRange)"

definition at2 :: "'a list list \<Rightarrow> int \<Rightarrow> int \<Rightarrow> error + 'a" where
  "at2 xss i j = bindE (at1 xss i) (\<lambda>row. at1 row j)"

definition upd2 :: "'a list list \<Rightarrow> int \<Rightarrow> int \<Rightarrow> ('a \<Rightarrow> 'a) \<Rightarrow> error + 'a list list" where
  "upd2 xss i j f =
     bindE (at1 xss i) (\<lambda>row.
     bindE (upd1 row j f) (\<lambda>row'.
     upd1 xss i (\<lambda>_. row')))"

text \<open>The array intrinsics \<^verbatim>\<open>count( mask )\<close> and \<^verbatim>\<open>pack( a, mask )\<close>: the number of
  true entries of the mask, and the entries of \<open>a\<close> at the true positions of the mask
  (over the positions the two arrays share).\<close>

definition count :: "bool list \<Rightarrow> int" where
  "count msk = int (length (filter (\<lambda>b. b) msk))"

definition pack :: "'a list \<Rightarrow> bool list \<Rightarrow> 'a list" where
  "pack a msk = map fst (filter snd (zip a msk))"

text \<open>The product of two \<^verbatim>\<open>int\<close> values, of 32 bits in two's complement (an overflow,
  undefined in C++, wraps around here).\<close>

definition int32_mult :: "int \<Rightarrow> int \<Rightarrow> int" where
  "int32_mult a b = (a * b + 2 ^ 31) mod 2 ^ 32 - 2 ^ 31"

definition fdiv :: "real \<Rightarrow> real \<Rightarrow> error + real" where
  "fdiv a b = (if b = 0 then Inl DivisionByZero else Inr (a / b))"

text \<open>The quotient of two numbers in the arithmetic of the machine: a number, or for a
  divisor zero an infinity with the sign of the dividend, or not a number for \<open>0 / 0\<close>.
  (The zero divisor is taken as \<open>+0\<close>, which the difference of two equal numbers
  is.) A comparison with an infinity is decided by its sign; every comparison with what
  is not a number is false.\<close>

datatype quotient = Finite real | PlusInf | MinusInf | NaN

definition ieee_div :: "real \<Rightarrow> real \<Rightarrow> quotient" where
  "ieee_div a b =
     (if b \<noteq> 0 then Finite (a / b)
      else if 0 < a then PlusInf else if a < 0 then MinusInf else NaN)"

definition quotient_gt :: "quotient \<Rightarrow> real \<Rightarrow> bool" where
  "quotient_gt q x =
     (case q of Finite s \<Rightarrow> s > x | PlusInf \<Rightarrow> True | MinusInf \<Rightarrow> False | NaN \<Rightarrow> False)"

definition quotient_lt :: "quotient \<Rightarrow> real \<Rightarrow> bool" where
  "quotient_lt q x =
     (case q of Finite s \<Rightarrow> s < x | PlusInf \<Rightarrow> False | MinusInf \<Rightarrow> True | NaN \<Rightarrow> False)"

subsection \<open>Data of the module\<close>

text \<open>Modelled from the spec: the integer constants \<^verbatim>\<open>InletAirNode\<close>,
  \<^verbatim>\<open>FloorAirNode\<close>, \<^verbatim>\<open>ControlAirNode\<close>, \<^verbatim>\<open>CeilingAirNode\<close>,
  \<^verbatim>\<open>MundtRoomAirNode\<close> and \<^verbatim>\<open>ReturnAirNode\<close> are declared in DataRoomAirModel,
  which is not among the sources. The role tag is one of these six roles; every other
  integer (the initial \<open>-1\<close> among them) is an unrecognised tag.\<close>

datatype AirNodeClass =
  InletAirNode | FloorAirNode | ControlAirNode | CeilingAirNode | MundtRoomAirNode
  | ReturnAirNode | OtherAirNode int

record DefineLinearModelNode =
  AirNodeName :: string
  ClassType :: AirNodeClass
  Height :: real
  Temp :: real
  SurfMask :: "bool list"

text \<open>The field \<^verbatim>\<open>Temp\<close> of a surface is named \<open>SurfTemp\<close> here, apart from the
  field \<^verbatim>\<open>Temp\<close> of an air node.\<close>

record DefineSurfaceSettings =
  Area :: real
  SurfTemp :: real
  Hc :: real
  TMeanAir :: real

record DefineZoneData =
  SurfFirst :: int
  NumOfSurfs :: int
  MundtZoneIndex :: int

record mundt =
  FirstTimeFlag :: bool
  FloorSurfSetIDs :: "int list"
  TheseSurfIDs :: "int list"
  MundtCeilAirID :: int
  MundtFootAirID :: int
  SupplyNodeID :: int
  TstatNodeID :: int
  ReturnNodeID :: int
  NumRoomNodes :: int
  NumFloorSurfs :: int
  RoomNodeIDs :: "int list"
  ID1dSurf :: "int list"
  MundtZoneNum :: int
  ZoneHeight :: real
  ZoneFloorArea :: real
  QventCool :: real
  ConvIntGain :: real
  SupplyAirTemp :: real
  SupplyAirVolumeRate :: real
  ZoneAirDensity :: real
  QsysCoolTot :: real
  ZoneData :: "DefineZoneData list"
  LineNode :: "DefineLinearModelNode list list"
  MundtAirSurf :: "DefineSurfaceSettings list list"
  FloorSurf :: "DefineSurfaceSettings list"

definition CpAir :: real where "CpAir = 1005.0"
definition MinSlope :: real where "MinSlope = 0.001"
definition MaxSlope :: real where "MaxSlope = 5.0"

subsection \<open>Data of the host simulation\<close>

text \<open>The arrays of the other modules are taken as functions of their index: their
  bounds are the host's.\<close>

datatype RoomAirModelType = RoomAirModel_Mundt | RoomAirModel_Other int
datatype CouplingScheme = DirectCoupling | IndirectCoupling
datatype RefAirTemp = ZoneMeanAirTemp | AdjacentAirTemp | ZoneSupplyAirTemp

record AirNodeData =
  AN_Name :: string
  AN_ZoneName :: string
  AN_ClassType :: AirNodeClass
  AN_Height :: real
  AN_SurfMask :: "bool list"

record host =
  NumOfZones :: int
  AirModelType :: "int \<Rightarrow> RoomAirModelType"
  TempCoupleScheme :: "int \<Rightarrow> CouplingScheme"
  SimAirModel :: "int \<Rightarrow> bool"
  ConvectiveFloorSplit :: "int \<Rightarrow> real"
  InfiltratFloorSplit :: "int \<Rightarrow> real"
  TotNumOfAirNodes :: int
  TotNumOfZoneAirNodes :: "int \<Rightarrow> int"
  AirNode :: "int \<Rightarrow> AirNodeData"
  ZoneName :: "int \<Rightarrow> string"
  SurfaceFirst :: "int \<Rightarrow> int"
  SurfaceLast :: "int \<Rightarrow> int"
  IsControlled :: "int \<Rightarrow> bool"
  CeilingHeight :: "int \<Rightarrow> real"
  FloorArea :: "int \<Rightarrow> real"
  Multiplier :: "int \<Rightarrow> int"
  ListMultiplier :: "int \<Rightarrow> int"
  SystemZoneNodeNumber :: "int \<Rightarrow> int"
  NoHeatToReturnAir :: "int \<Rightarrow> bool"
  OutDryBulbTemp :: "int \<Rightarrow> real"
  SurfaceArea :: "int \<Rightarrow> real"
  TAirRef :: "int \<Rightarrow> RefAirTemp"
  NodeMassFlowRate :: "int \<Rightarrow> real"
  NodeTemp :: "int \<Rightarrow> real"
  NumInletNodes :: "int \<Rightarrow> int"
  InletNode :: "int \<Rightarrow> int \<Rightarrow> int"
  OutBaroPress :: real
  ZoneAirHumRat :: "int \<Rightarrow> real"
  MCPI :: "int \<Rightarrow> real"
  MAT :: "int \<Rightarrow> real"
  ZT :: "int \<Rightarrow> real"
  SumConvHTRadSys :: "int \<Rightarrow> real"
  SumConvPool :: "int \<Rightarrow> real"
  SysDepZoneLoadsLagged :: "int \<Rightarrow> real"
  NonAirSystemResponse :: "int \<Rightarrow> real"
  TempSurfIn :: "int \<Rightarrow> real"
  HConvIn :: "int \<Rightarrow> real"
  TempEffBulkAir :: "int \<Rightarrow> real"
  TempZoneThermostatSetPoint :: "int \<Rightarrow> real"
  TempTstatAir :: "int \<Rightarrow> real"
  PsyWFnTdpPb :: "real \<Rightarrow> real \<Rightarrow> real"
  PsyCpAirFnWTdb :: "real \<Rightarrow> real \<Rightarrow> real"
  PsyRhoAirFnPbTdbW :: "real \<Rightarrow> real \<Rightarrow> real \<Rightarrow> real"
  SumAllInternalConvectionGains :: "int \<Rightarrow> real"
  SumAllReturnAirConvectionGains :: "int \<Rightarrow> real"
  ErrLog :: "string list"

definition ShowSevereError :: "string \<Rightarrow> host \<Rightarrow> host" where
  "ShowSevereError msg h = h\<lparr>ErrLog := ErrLog h @ [msg]\<rparr>"

subsection \<open>SetNodeResult and SetSurfTmeanAir\<close>

definition SetNodeResult :: "int \<Rightarrow> real \<Rightarrow> mundt \<Rightarrow> error + mundt" where
  "SetNodeResult NodeID TempResult st =
     bindE (upd2 (LineNode st) (MundtZoneNum st) NodeID (\<lambda>n. n\<lparr>Temp := TempResult\<rparr>))
       (\<lambda>ln. Inr (st\<lparr>LineNode := ln\<rparr>))"

definition SetSurfTmeanAir :: "int \<Rightarrow> real \<Rightarrow> mundt \<Rightarrow> error + mundt" where
  "SetSurfTmeanAir SurfID TeffAir st =
     bindE (upd2 (MundtAirSurf st) (MundtZoneNum st) SurfID (\<lambda>s. s\<lparr>TMeanAir := TeffAir\<rparr>))
       (\<lambda>ms. Inr (st\<lparr>MundtAirSurf := ms\<rparr>))"

subsection \<open>CalcMundtModel\<close>

definition Node_of :: "mundt \<Rightarrow> int \<Rightarrow> error + DefineLinearModelNode" where
  "Node_of st NodeID = at2 (LineNode st) (MundtZoneNum st) NodeID"

definition Height_of :: "mundt \<Rightarrow> int \<Rightarrow> error + real" where
  "Height_of st NodeID = bindE (Node_of st NodeID) (\<lambda>n. Inr (Height n))"

definition Temp_of :: "mundt \<Rightarrow> int \<Rightarrow> error + real" where
  "Temp_of st NodeID = bindE (Node_of st NodeID) (\<lambda>n. Inr (Temp n))"

definition FloorSumHAT :: "mundt \<Rightarrow> real" where
  "FloorSumHAT st = sum_list (map (\<lambda>s. Area s * Hc s * SurfTemp s) (FloorSurf st))"

definition FloorSumHA :: "mundt \<Rightarrow> real" where
  "FloorSumHA st = sum_list (map (\<lambda>s. Area s * Hc s) (FloorSurf st))"

text \<open>The local variables of \<^verbatim>\<open>CalcMundtModel\<close> once the slope has been checked.\<close>

record MundtLocals =
  TAirFoot :: real
  TAirCeil :: real
  TLeaving :: real
  TControlPoint :: real
  Slope :: real

text \<open>Equation 2.2: the air temperature at the floor, before the slope is checked.\<close>

definition TAirFoot_Eq22 :: "host \<Rightarrow> int \<Rightarrow> mundt \<Rightarrow> error + real" where
  "TAirFoot_Eq22 h ZoneNum st =
     (let QequipConvFloor = ConvectiveFloorSplit h ZoneNum * ConvIntGain st;
          QSensInfilFloor = - InfiltratFloorSplit h ZoneNum * QventCool st
      in fdiv ((ZoneAirDensity st * CpAir * SupplyAirVolumeRate st * SupplyAirTemp st)
                 + FloorSumHAT st + QequipConvFloor + QSensInfilFloor)
              ((ZoneAirDensity st * CpAir * SupplyAirVolumeRate st) + FloorSumHA st))"

text \<open>Equation 2.3: the temperature of the air leaving the zone.\<close>

definition TLeaving_Eq23 :: "mundt \<Rightarrow> error + real" where
  "TLeaving_Eq23 st =
     (if QsysCoolTot st \<le> 0.0 then Inr (SupplyAirTemp st)
      else bindE (fdiv (QsysCoolTot st) (ZoneAirDensity st * CpAir * SupplyAirVolumeRate st))
             (\<lambda>q. Inr (q + SupplyAirTemp st)))"

text \<open>The check of the slope: the pair of \<open>Slope\<close> and \<open>TAirFoot\<close> after the two tests.\<close>

definition check_slope ::
    "quotient \<Rightarrow> real \<Rightarrow> real \<Rightarrow> real \<Rightarrow> real \<Rightarrow> quotient \<times> real" where
  "check_slope Slope0 TAirFoot0 TLeav HReturn HFoot =
     (let (Slope1, TAirFoot1) =
            (if quotient_gt Slope0 MaxSlope
             then (Finite MaxSlope, TLeav - (MaxSlope * (HReturn - HFoot)))
             else (Slope0, TAirFoot0))
      in if quotient_lt Slope1 MinSlope then (Finite MinSlope, TLeav)
         else (Slope1, TAirFoot1))"

text \<open>Equation 2.4: the slope, and the temperatures at the Ceiling node and at the
  Control node. After the check the slope is a number or, for \<open>0 / 0\<close>, not a number.\<close>

definition CalcMundtLocals :: "host \<Rightarrow> int \<Rightarrow> mundt \<Rightarrow> error + MundtLocals" where
  "CalcMundtLocals h ZoneNum st =
     bindE (TAirFoot_Eq22 h ZoneNum st) (\<lambda>TAirFoot0.
     bindE (TLeaving_Eq23 st) (\<lambda>TLeav.
     bindE (Height_of st (ReturnNodeID st)) (\<lambda>HReturn.
     bindE (Height_of st (MundtFootAirID st)) (\<lambda>HFoot.
     (let Slope0 = ieee_div (TLeav - TAirFoot0) (HReturn - HFoot);
          (Slope1, TAirFoot2) = check_slope Slope0 TAirFoot0 TLeav HReturn HFoot in
     bindE (Height_of st (MundtCeilAirID st)) (\<lambda>HCeil.
     bindE (Height_of st (TstatNodeID st)) (\<lambda>HTstat.
     (case Slope1 of
        Finite Slope2 \<Rightarrow>
          Inr \<lparr>TAirFoot = TAirFoot2,
               TAirCeil = TLeav - (Slope2 * (HReturn - HCeil)),
               TLeaving = TLeav,
               TControlPoint = TLeav - (Slope2 * (HReturn - HTstat)),
               Slope = Slope2\<rparr>
      | _ \<Rightarrow> Inl NotANumber))))))))"

text \<open>The surfaces of one air node receive its temperature: \<^verbatim>\<open>TheseSurfIDs\<close> is
  packed from the node's mask and the first \<^verbatim>\<open>SurfCounted\<close> of them are set.\<close>

definition SetNodeSurfaces :: "int \<Rightarrow> real \<Rightarrow> mundt \<Rightarrow> error + mundt" where
  "SetNodeSurfaces NodeID TeffAir st =
     bindE (Node_of st NodeID) (\<lambda>n.
     (let SurfCounted = count (SurfMask n);
          st1 = st\<lparr>TheseSurfIDs := pack (ID1dSurf st) (SurfMask n)\<rparr>
      in forE [1..SurfCounted]
           (\<lambda>SurfNum s. bindE (at1 (TheseSurfIDs s) SurfNum) (\<lambda>SurfID.
              SetSurfTmeanAir SurfID TeffAir s)) st1))"

definition SetFloorSurfaces :: "real \<Rightarrow> mundt \<Rightarrow> error + mundt" where
  "SetFloorSurfaces TeffAir st =
     forE [1..NumFloorSurfs st]
       (\<lambda>SurfNum s. bindE (at1 (FloorSurfSetIDs s) SurfNum) (\<lambda>SurfID.
          SetSurfTmeanAir SurfID TeffAir s)) st"

definition SetRoomNode :: "real \<Rightarrow> real \<Rightarrow> int \<Rightarrow> mundt \<Rightarrow> error + mundt" where
  "SetRoomNode TLeav Slope2 NodeNum st =
     bindE (Height_of st (ReturnNodeID st)) (\<lambda>HReturn.
     bindE (at1 (RoomNodeIDs st) NodeNum) (\<lambda>RoomID.
     bindE (Height_of st RoomID) (\<lambda>HRoom.
     (let TThisNode = TLeav - (Slope2 * (HReturn - HRoom)) in
     bindE (SetNodeResult RoomID TThisNode st) (\<lambda>st1.
     SetNodeSurfaces RoomID TThisNode st1)))))"

definition CalcMundtModel :: "host \<Rightarrow> int \<Rightarrow> mundt \<Rightarrow> error + mundt" where
  "CalcMundtModel h ZoneNum st =
     bindE (CalcMundtLocals h ZoneNum st) (\<lambda>L.
     bindE (SetNodeResult (SupplyNodeID st) (SupplyAirTemp st) st) (\<lambda>st1.
     bindE (SetNodeResult (ReturnNodeID st1) (TLeaving L) st1) (\<lambda>st2.
     bindE (SetNodeResult (MundtCeilAirID st2) (TAirCeil L) st2) (\<lambda>st3.
     bindE (SetNodeResult (MundtFootAirID st3) (TAirFoot L) st3) (\<lambda>st4.
     bindE (SetNodeResult (TstatNodeID st4) (TControlPoint L) st4) (\<lambda>st5.
     bindE (SetFloorSurfaces (TAirFoot L) st5) (\<lambda>st6.
     bindE (SetNodeSurfaces (MundtCeilAirID st6) (TAirCeil L) st6) (\<lambda>st7.
     forE [1..NumRoomNodes st7] (SetRoomNode (TLeaving L) (Slope L)) st7))))))))"

subsection \<open>SetupMundtModel\<close>

text \<open>The state of the set-up: the host (for its log of severe errors), the module's
  variables and the flag \<^verbatim>\<open>ErrorsFound\<close>.\<close>

definition SetupNode :: "int \<Rightarrow> host \<times> mundt \<times> bool \<Rightarrow> error + (host \<times> mundt \<times> bool)" where
  "SetupNode NodeNum s =
     (case s of (h, st, ErrorsFound) \<Rightarrow>
      bindE (Node_of st NodeNum) (\<lambda>n.
        case ClassType n of
          InletAirNode \<Rightarrow> Inr (h, st\<lparr>SupplyNodeID := NodeNum\<rparr>, ErrorsFound)
        | FloorAirNode \<Rightarrow> Inr (h, st\<lparr>MundtFootAirID := NodeNum\<rparr>, ErrorsFound)
        | ControlAirNode \<Rightarrow> Inr (h, st\<lparr>TstatNodeID := NodeNum\<rparr>, ErrorsFound)
        | CeilingAirNode \<Rightarrow> Inr (h, st\<lparr>MundtCeilAirID := NodeNum\<rparr>, ErrorsFound)
        | MundtRoomAirNode \<Rightarrow>
            (let st1 = st\<lparr>NumRoomNodes := NumRoomNodes st + 1\<rparr> in
             bindE (upd1 (RoomNodeIDs st1) (NumRoomNodes st1) (\<lambda>_. NodeNum)) (\<lambda>ids.
             Inr (h, st1\<lparr>RoomNodeIDs := ids\<rparr>, ErrorsFound)))
        | ReturnAirNode \<Rightarrow> Inr (h, st\<lparr>ReturnNodeID := NodeNum\<rparr>, ErrorsFound)
        | OtherAirNode _ \<Rightarrow>
            Inr (ShowSevereError
                   ''SetupMundtModel: Non-Standard Type of Air Node for Mundt Model'' h,
                 st, True)))"

definition SetupFloorSurf :: "int \<Rightarrow> mundt \<Rightarrow> error + mundt" where
  "SetupFloorSurf SurfNum st =
     bindE (at1 (FloorSurfSetIDs st) SurfNum) (\<lambda>SurfID.
     bindE (at2 (MundtAirSurf st) (MundtZoneNum st) SurfID) (\<lambda>ms.
     bindE (upd1 (FloorSurf st) SurfNum
              (\<lambda>f. f\<lparr>SurfTemp := SurfTemp ms, Hc := Hc ms, Area := Area ms\<rparr>)) (\<lambda>fs.
     Inr (st\<lparr>FloorSurf := fs\<rparr>))))"

definition SetupMundtModel ::
    "int \<Rightarrow> host \<times> mundt \<times> bool \<Rightarrow> error + (host \<times> mundt \<times> bool)" where
  "SetupMundtModel ZoneNum s =
     (case s of (h, st, ErrorsFound) \<Rightarrow>
      bindE (forE [1..TotNumOfZoneAirNodes h ZoneNum] SetupNode
               (h, st\<lparr>NumRoomNodes := 0\<rparr>, ErrorsFound)) (\<lambda>(h1, st1, ErrorsFound1).
      if MundtFootAirID st1 > 0 then
        bindE (Node_of st1 (MundtFootAirID st1)) (\<lambda>n.
        (let st2 = st1\<lparr>NumFloorSurfs := count (SurfMask n),
                       FloorSurfSetIDs := pack (ID1dSurf st1) (SurfMask n),
                       FloorSurf := map (\<lambda>f. f\<lparr>SurfTemp := 25.0, Hc := 0.0, Area := 0.0\<rparr>)
                                      (FloorSurf st1)\<rparr>
         in bindE (forE [1..NumFloorSurfs st2] SetupFloorSurf st2) (\<lambda>st3.
            Inr (h1, st3, ErrorsFound1))))
      else
        Inr (ShowSevereError
               (''SetupMundtModel: Mundt model has no FloorAirNode, Zone='' @ ZoneName h1 ZoneNum)
               h1,
             st1, True)))"

subsection \<open>GetSurfHBDataForMundtModel\<close>

text \<open>The sums \<^verbatim>\<open>SumSysMCp\<close> and \<^verbatim>\<open>SumSysMCpT\<close> over the inlet nodes of the zone.\<close>

definition SumSys :: "host \<Rightarrow> int \<Rightarrow> real \<times> real" where
  "SumSys h ZoneNum =
     foldl (\<lambda>(SumSysMCp, SumSysMCpT) NodeNum.
              (let NodeTemp0 = NodeTemp h (InletNode h ZoneNum NodeNum);
                   MassFlowRate = NodeMassFlowRate h (InletNode h ZoneNum NodeNum);
                   CpAir0 = PsyCpAirFnWTdb h (ZoneAirHumRat h ZoneNum) NodeTemp0
               in (SumSysMCp + MassFlowRate * CpAir0,
                   SumSysMCpT + MassFlowRate * CpAir0 * NodeTemp0)))
       (0.0, 0.0) [1..NumInletNodes h ZoneNum]"

definition GetSurf :: "host \<Rightarrow> int \<Rightarrow> int \<Rightarrow> mundt \<Rightarrow> error + mundt" where
  "GetSurf h ZoneNum SurfNum st =
     bindE (at1 (ZoneData st) ZoneNum) (\<lambda>zd.
     bindE (upd2 (MundtAirSurf st) (MundtZoneNum st) SurfNum
              (\<lambda>s. s\<lparr>SurfTemp := TempSurfIn h (SurfFirst zd + SurfNum - 1),
                      Hc := HConvIn h (SurfFirst zd + SurfNum - 1)\<rparr>)) (\<lambda>ms.
     Inr (st\<lparr>MundtAirSurf := ms\<rparr>)))"

definition GetSurfHBDataForMundtModel :: "host \<Rightarrow> int \<Rightarrow> mundt \<Rightarrow> error + mundt" where
  "GetSurfHBDataForMundtModel h ZoneNum st =
     (if \<not> IsControlled h ZoneNum then
        Inl (FatalError
          (''Zones must be controlled for Mundt air model. No system serves zone ''
             @ ZoneName h ZoneNum))
      else
       (let ZoneMult = real_of_int (int32_mult (Multiplier h ZoneNum) (ListMultiplier h ZoneNum));
            ZoneNode = SystemZoneNodeNumber h ZoneNum;
            Density = PsyRhoAirFnPbTdbW h (OutBaroPress h) (MAT h ZoneNum)
                        (PsyWFnTdpPb h (MAT h ZoneNum) (OutBaroPress h));
            ZoneMassFlowRate = NodeMassFlowRate h ZoneNode
        in
        bindE (fdiv ZoneMassFlowRate Density) (\<lambda>VolumeRate.
        (let st1 = st\<lparr>ZoneHeight := CeilingHeight h ZoneNum,
                       ZoneFloorArea := FloorArea h ZoneNum,
                       ZoneAirDensity := Density,
                       SupplyAirVolumeRate := VolumeRate\<rparr>;
             st2 = (if ZoneMassFlowRate \<le> 0.0001 then st1\<lparr>QsysCoolTot := 0.0\<rparr>
                    else
                     (let (SumSysMCp, SumSysMCpT) = SumSys h ZoneNum;
                          CpAir0 = PsyCpAirFnWTdb h (ZoneAirHumRat h ZoneNum) (MAT h ZoneNum)
                      in st1\<lparr>SupplyAirTemp :=
                                (if SumSysMCp \<le> 0.0 then NodeTemp h (InletNode h ZoneNum 1)
                                 else SumSysMCpT / SumSysMCp),
                              QsysCoolTot :=
                                - (SumSysMCpT - ZoneMassFlowRate * CpAir0 * MAT h ZoneNum)\<rparr>))
         in
         bindE (fdiv (NonAirSystemResponse h ZoneNum) ZoneMult) (\<lambda>NonAir.
         (let Gain = SumAllInternalConvectionGains h ZoneNum
                       + (SumConvHTRadSys h ZoneNum + SumConvPool h ZoneNum
                          + SysDepZoneLoadsLagged h ZoneNum + NonAir);
              st3 = st2\<lparr>ConvIntGain :=
                           (if NoHeatToReturnAir h ZoneNum
                            then Gain + SumAllReturnAirConvectionGains h ZoneNum else Gain),
                         QventCool :=
                           - MCPI h ZoneNum * (OutDryBulbTemp h ZoneNum - MAT h ZoneNum)\<rparr>
          in
          bindE (at1 (ZoneData st3) ZoneNum) (\<lambda>zd.
          forE [1..NumOfSurfs zd] (GetSurf h ZoneNum) st3)))))))"

subsection \<open>SetSurfHBDataForMundtModel\<close>

definition SetBulkDirect :: "mundt \<Rightarrow> int \<Rightarrow> int \<Rightarrow> host \<Rightarrow> error + host" where
  "SetBulkDirect st First SurfNum h =
     bindE (at2 (MundtAirSurf st) (MundtZoneNum st) SurfNum) (\<lambda>ms.
     Inr (h\<lparr>TempEffBulkAir := (TempEffBulkAir h)(First + SurfNum - 1 := TMeanAir ms),
            TAirRef := (TAirRef h)(First + SurfNum - 1 := AdjacentAirTemp)\<rparr>))"

definition SetBulkIndirect :: "mundt \<Rightarrow> int \<Rightarrow> int \<Rightarrow> int \<Rightarrow> host \<Rightarrow> error + host" where
  "SetBulkIndirect st ZoneNum First SurfNum h =
     bindE (at2 (MundtAirSurf st) (MundtZoneNum st) SurfNum) (\<lambda>ms.
     bindE (Temp_of st (TstatNodeID st)) (\<lambda>TTstat.
     (let DeltaTemp = TMeanAir ms - TTstat in
      Inr (h\<lparr>TempEffBulkAir :=
               (TempEffBulkAir h)(First + SurfNum - 1 :=
                  TempZoneThermostatSetPoint h ZoneNum + DeltaTemp),
             TAirRef := (TAirRef h)(First + SurfNum - 1 := AdjacentAirTemp)\<rparr>))))"

definition SetBulkMixing :: "int \<Rightarrow> int \<Rightarrow> int \<Rightarrow> host \<Rightarrow> error + host" where
  "SetBulkMixing ZoneNum First SurfNum h =
     Inr (h\<lparr>TempEffBulkAir := (TempEffBulkAir h)(First + SurfNum - 1 := MAT h ZoneNum),
            TAirRef := (TAirRef h)(First + SurfNum - 1 := ZoneMeanAirTemp)\<rparr>)"

text \<open>The test that both \<^verbatim>\<open>ManageMundtModel\<close> and
  \<^verbatim>\<open>SetSurfHBDataForMundtModel\<close> make.\<close>

definition SystemOn :: "mundt \<Rightarrow> bool" where
  "SystemOn st = ((SupplyAirVolumeRate st > 0.0001) \<and> (QsysCoolTot st > 0.0001))"

definition SetSurfHBDataForMundtModel :: "int \<Rightarrow> mundt \<Rightarrow> host \<Rightarrow> error + host" where
  "SetSurfHBDataForMundtModel ZoneNum st h =
     bindE (at1 (ZoneData st) ZoneNum) (\<lambda>zd.
     if SystemOn st then
       bindE
         (if TempCoupleScheme h ZoneNum = DirectCoupling then
            bindE (forE [1..NumOfSurfs zd] (SetBulkDirect st (SurfFirst zd)) h) (\<lambda>h1.
            bindE (Temp_of st (MundtCeilAirID st)) (\<lambda>TCeil.
            bindE (Temp_of st (MundtFootAirID st)) (\<lambda>TFoot.
            bindE (Temp_of st (ReturnNodeID st)) (\<lambda>TReturn.
            bindE (Temp_of st (TstatNodeID st)) (\<lambda>TTstat.
            Inr (h1\<lparr>NodeTemp := (NodeTemp h1)(SystemZoneNodeNumber h1 ZoneNum := TReturn),
                    TempTstatAir := (TempTstatAir h1)(ZoneNum := TTstat)\<rparr>))))))
          else
            bindE (forE [1..NumOfSurfs zd] (SetBulkIndirect st ZoneNum (SurfFirst zd)) h) (\<lambda>h1.
            bindE (Temp_of st (MundtCeilAirID st)) (\<lambda>TCeil.
            bindE (Temp_of st (MundtFootAirID st)) (\<lambda>TFoot.
            bindE (Temp_of st (TstatNodeID st)) (\<lambda>TTstat.
            bindE (Temp_of st (ReturnNodeID st)) (\<lambda>TReturn.
            (let DeltaTemp = TReturn - TTstat in
             Inr (h1\<lparr>NodeTemp := (NodeTemp h1)(SystemZoneNodeNumber h1 ZoneNum :=
                                     TempZoneThermostatSetPoint h1 ZoneNum + DeltaTemp),
                     TempTstatAir := (TempTstatAir h1)(ZoneNum := ZT h1 ZoneNum)\<rparr>))))))))
         (\<lambda>h2. Inr (h2\<lparr>SimAirModel := (SimAirModel h2)(ZoneNum := True)\<rparr>))
     else
       bindE (forE [1..NumOfSurfs zd] (SetBulkMixing ZoneNum (SurfFirst zd)) h) (\<lambda>h1.
       Inr (h1\<lparr>SimAirModel := (SimAirModel h1)(ZoneNum := False)\<rparr>)))"

subsection \<open>InitMundtModel\<close>

text \<open>Modelled from the spec: \<^verbatim>\<open>InputProcessor::SameString\<close> is not among the
  sources; it is the case-insensitive match of two names.\<close>

definition upper_char :: "char \<Rightarrow> char" where
  "upper_char c =
     (case map_of (zip ''abcdefghijklmnopqrstuvwxyz'' ''ABCDEFGHIJKLMNOPQRSTUVWXYZ'') c of
        Some u \<Rightarrow> u
      | None \<Rightarrow> c)"

definition SameString :: "string \<Rightarrow> string \<Rightarrow> bool" where
  "SameString s t = (map upper_char s = map upper_char t)"

text \<open>The local variables of \<^verbatim>\<open>InitMundtModel\<close> that live across its loops.\<close>

record InitLocals =
  NumOfMundtZones :: int
  MaxNumOfSurfs :: int
  MaxNumOfFloorSurfs :: int
  MaxNumOfAirNodes :: int
  MaxNumOfRoomNodes :: int
  RoomNodesCount :: int
  FloorSurfCount :: int
  AirNodeBeginNum :: int
  AirNodeFoundFlag :: bool
  ErrorsFound :: bool

text \<open>The first loop over the zones: the zones that use the Mundt model are counted and
  their data stored.\<close>

definition InitZoneData :: "host \<Rightarrow> int \<Rightarrow> mundt \<times> InitLocals \<Rightarrow> error + (mundt \<times> InitLocals)" where
  "InitZoneData h ZoneIndex s =
     (case s of (st, l) \<Rightarrow>
      if AirModelType h ZoneIndex = RoomAirModel_Mundt then
        (let n = NumOfMundtZones l + 1;
             First = SurfaceFirst h ZoneIndex;
             Num = SurfaceLast h ZoneIndex - First + 1
         in bindE (upd1 (ZoneData st) ZoneIndex
                     (\<lambda>_. \<lparr>SurfFirst = First, NumOfSurfs = Num, MundtZoneIndex = n\<rparr>)) (\<lambda>zd.
            Inr (st\<lparr>ZoneData := zd\<rparr>,
                 l\<lparr>NumOfMundtZones := n,
                   MaxNumOfSurfs := max (MaxNumOfSurfs l) Num,
                   MaxNumOfAirNodes :=
                     max (MaxNumOfAirNodes l) (TotNumOfZoneAirNodes h ZoneIndex)\<rparr>)))
      else Inr (st, l))"

definition DefaultSurf :: DefineSurfaceSettings where
  "DefaultSurf = \<lparr>Area = 0.0, SurfTemp = 25.0, Hc = 0.0, TMeanAir = 25.0\<rparr>"

definition DefaultNode :: DefineLinearModelNode where
  "DefaultNode =
     \<lparr>AirNodeName = [], ClassType = OtherAirNode (- 1), Height = 0.0, Temp = 25.0,
      SurfMask = []\<rparr>"

definition InitAllocate :: "InitLocals \<Rightarrow> mundt \<Rightarrow> mundt" where
  "InitAllocate l st =
     st\<lparr>ID1dSurf := [1..MaxNumOfSurfs l],
        TheseSurfIDs := replicate (nat (MaxNumOfSurfs l)) 0,
        MundtAirSurf :=
          replicate (nat (NumOfMundtZones l)) (replicate (nat (MaxNumOfSurfs l)) DefaultSurf),
        LineNode :=
          replicate (nat (NumOfMundtZones l)) (replicate (nat (MaxNumOfAirNodes l)) DefaultNode)\<rparr>"

definition InitSurf ::
    "int \<Rightarrow> int \<Rightarrow> int \<Rightarrow> host \<times> mundt \<times> InitLocals \<Rightarrow> error + (host \<times> mundt \<times> InitLocals)" where
  "InitSurf ZoneIndex MZI SurfNum s =
     (case s of (h, st, l) \<Rightarrow>
      bindE (at1 (ZoneData st) ZoneIndex) (\<lambda>zd.
      bindE (upd2 (MundtAirSurf st) MZI SurfNum
               (\<lambda>ms. ms\<lparr>Area := SurfaceArea h (SurfFirst zd + SurfNum - 1)\<rparr>)) (\<lambda>a.
      Inr (h, st\<lparr>MundtAirSurf := a\<rparr>, l))))"

text \<open>One air node of a zone: its definition is searched from \<^verbatim>\<open>AirNodeBeginNum\<close>
  on. (The mask is allocated first, its entries not yet set; the registration of the
  output variable is the host's.)\<close>

definition InitNode ::
    "int \<Rightarrow> int \<Rightarrow> int \<Rightarrow> host \<times> mundt \<times> InitLocals \<Rightarrow> error + (host \<times> mundt \<times> InitLocals)" where
  "InitNode ZoneIndex MZI NodeNum s =
     (case s of (h, st, l) \<Rightarrow>
      bindE (at1 (ZoneData st) ZoneIndex) (\<lambda>zd.
      bindE (upd2 (LineNode st) MZI NodeNum
               (\<lambda>n. n\<lparr>SurfMask := replicate (nat (NumOfSurfs zd)) False\<rparr>)) (\<lambda>ln.
      (let st1 = st\<lparr>LineNode := ln\<rparr>;
           l1 = (if NodeNum = 1 then l\<lparr>AirNodeBeginNum := NodeNum\<rparr> else l)
       in
       if AirNodeBeginNum l1 > TotNumOfAirNodes h then
         Inl (FatalError
           ''An array bound exceeded. Error in InitMundtModel subroutine of MundtSimMgr.'')
       else
         (case find (\<lambda>AirNodeNum.
                       SameString (AN_ZoneName (AirNode h AirNodeNum)) (ZoneName h ZoneIndex))
                 [AirNodeBeginNum l1..TotNumOfAirNodes h] of
            None \<Rightarrow>
              Inr (ShowSevereError
                     (''InitMundtModel: Air Node in Zone='' @ [CHR 0x22] @ ZoneName h ZoneIndex
                        @ [CHR 0x22] @ '' is not found.'') h,
                   st1, l1\<lparr>AirNodeFoundFlag := False, ErrorsFound := True\<rparr>)
          | Some AirNodeNum \<Rightarrow>
              bindE (upd2 (LineNode st1) MZI NodeNum
                       (\<lambda>n. n\<lparr>ClassType := AN_ClassType (AirNode h AirNodeNum),
                               AirNodeName := AN_Name (AirNode h AirNodeNum),
                               Height := AN_Height (AirNode h AirNodeNum),
                               SurfMask := AN_SurfMask (AirNode h AirNodeNum)\<rparr>)) (\<lambda>ln2.
              (let l2 = l1\<lparr>AirNodeBeginNum := AirNodeNum + 1, AirNodeFoundFlag := True\<rparr>;
                   l3 = (if AN_ClassType (AirNode h AirNodeNum) = MundtRoomAirNode
                         then l2\<lparr>RoomNodesCount := RoomNodesCount l2 + 1\<rparr> else l2);
                   l4 = (if AN_ClassType (AirNode h AirNodeNum) = FloorAirNode
                         then l3\<lparr>FloorSurfCount :=
                                   FloorSurfCount l3 + count (AN_SurfMask (AirNode h AirNodeNum))\<rparr>
                         else l3)
               in Inr (h, st1\<lparr>LineNode := ln2\<rparr>, l4))))))))"

text \<open>The loop \<^verbatim>\<open>Zone_Loop\<close> for one index of a Mundt zone: it is left once the zone
  with that index has been handled and its last air node was found.\<close>

fun InitZoneLoop ::
    "int \<Rightarrow> int list \<Rightarrow> host \<times> mundt \<times> InitLocals \<Rightarrow> error + (host \<times> mundt \<times> InitLocals)" where
  "InitZoneLoop MZI [] s = Inr s"
| "InitZoneLoop MZI (ZoneIndex # zs) s =
     bindE (at1 (ZoneData (fst (snd s))) ZoneIndex) (\<lambda>zd.
     if MundtZoneIndex zd = MZI then
       bindE (forE [1..NumOfSurfs zd] (InitSurf ZoneIndex MZI) s) (\<lambda>(h1, st1, l1).
       bindE (forE [1..TotNumOfZoneAirNodes h1 ZoneIndex] (InitNode ZoneIndex MZI)
                (h1, st1, l1\<lparr>RoomNodesCount := 0, FloorSurfCount := 0\<rparr>)) (\<lambda>s2.
       if AirNodeFoundFlag (snd (snd s2)) then Inr s2 else InitZoneLoop MZI zs s2))
     else InitZoneLoop MZI zs s)"

definition InitMundtZone ::
    "int \<Rightarrow> host \<times> mundt \<times> InitLocals \<Rightarrow> error + (host \<times> mundt \<times> InitLocals)" where
  "InitMundtZone MZI s =
     bindE (InitZoneLoop MZI [1..NumOfZones (fst s)] s) (\<lambda>(h1, st1, l1).
     Inr (h1, st1,
          l1\<lparr>MaxNumOfRoomNodes := max (MaxNumOfRoomNodes l1) (RoomNodesCount l1),
             MaxNumOfFloorSurfs := max (MaxNumOfFloorSurfs l1) (FloorSurfCount l1)\<rparr>))"

definition InitLocals0 :: InitLocals where
  "InitLocals0 =
     \<lparr>NumOfMundtZones = 0, MaxNumOfSurfs = 0, MaxNumOfFloorSurfs = 0, MaxNumOfAirNodes = 0,
      MaxNumOfRoomNodes = 0, RoomNodesCount = 0, FloorSurfCount = 0, AirNodeBeginNum = 0,
      AirNodeFoundFlag = False, ErrorsFound = False\<rparr>"

text \<open>The initialisation up to its last test: the zone data, the allocation and the scan
  of the air nodes of every Mundt zone.\<close>

definition InitScan :: "host \<Rightarrow> mundt \<Rightarrow> error + (host \<times> mundt \<times> InitLocals)" where
  "InitScan h st =
     bindE (forE [1..NumOfZones h] (InitZoneData h)
              (st\<lparr>ZoneData :=
                    replicate (nat (NumOfZones h))
                      \<lparr>SurfFirst = 0, NumOfSurfs = 0, MundtZoneIndex = 0\<rparr>\<rparr>,
               InitLocals0)) (\<lambda>(st1, l1).
     forE [1..NumOfMundtZones l1] InitMundtZone (h, InitAllocate l1 st1, l1))"

definition InitMundtModel :: "host \<Rightarrow> mundt \<Rightarrow> error + (host \<times> mundt)" where
  "InitMundtModel h st =
     bindE (InitScan h st) (\<lambda>(h1, st1, l1).
     if ErrorsFound l1 then
       Inl (FatalError ''InitMundtModel: Preceding condition(s) cause termination.'')
     else
       Inr (h1,
            st1\<lparr>RoomNodeIDs := replicate (nat (MaxNumOfRoomNodes l1)) 0,
                FloorSurfSetIDs := replicate (nat (MaxNumOfFloorSurfs l1)) 0,
                FloorSurf := replicate (nat (MaxNumOfFloorSurfs l1)) DefaultSurf\<rparr>))"

subsection \<open>ManageMundtModel\<close>

definition RunMundtModel :: "int \<Rightarrow> host \<times> mundt \<Rightarrow> error + (host \<times> mundt)" where
  "RunMundtModel ZoneNum s =
     (case s of (h, st) \<Rightarrow>
      bindE (SetupMundtModel ZoneNum (h, st, False)) (\<lambda>(h1, st1, ErrorsFound1).
      if ErrorsFound1 then
        Inl (FatalError
          ''ManageMundtModel: Errors in setting up Mundt Model. Preceding condition(s) cause termination.'')
      else bindE (CalcMundtModel h1 ZoneNum st1) (\<lambda>st2. Inr (h1, st2))))"

text \<open>The statements of \<^verbatim>\<open>ManageMundtModel\<close> before its test: the initialisation
  on the first call, the index of the zone among the Mundt zones and the transfer of the
  data of the heat balance.\<close>

definition ManageInbound :: "int \<Rightarrow> host \<times> mundt \<Rightarrow> error + (host \<times> mundt)" where
  "ManageInbound ZoneNum s =
     (case s of (h, st) \<Rightarrow>
      bindE (if FirstTimeFlag st then
               bindE (InitMundtModel h st) (\<lambda>(h0, st0). Inr (h0, st0\<lparr>FirstTimeFlag := False\<rparr>))
             else Inr (h, st)) (\<lambda>(h1, st1).
      bindE (at1 (ZoneData st1) ZoneNum) (\<lambda>zd.
      bindE (GetSurfHBDataForMundtModel h1 ZoneNum
               (st1\<lparr>MundtZoneNum := MundtZoneIndex zd\<rparr>)) (\<lambda>st2.
      Inr (h1, st2)))))"

definition ManageMundtModel :: "int \<Rightarrow> host \<times> mundt \<Rightarrow> error + (host \<times> mundt)" where
  "ManageMundtModel ZoneNum s =
     bindE (ManageInbound ZoneNum s) (\<lambda>(h1, st2).
     bindE (if SystemOn st2 then RunMundtModel ZoneNum (h1, st2) else Inr (h1, st2))
       (\<lambda>(h3, st3).
     bindE (SetSurfHBDataForMundtModel ZoneNum st3 h3) (\<lambda>h4.
     Inr (h4, st3))))"

subsection \<open>An example building\<close>

text \<open>Two zones, the first of which uses the Mundt model: four surfaces and six air
  nodes, one of each role. The supply air (15 C, 0.5 kg/s at density 1) meets a cooling
  load of 1507.5 W.\<close>

definition ex_AirNode :: "int \<Rightarrow> AirNodeData" where
  "ex_AirNode i =
     (if i = 1 then \<lparr>AN_Name = ''N1'', AN_ZoneName = ''Z1'', AN_ClassType = InletAirNode,
                     AN_Height = 2.0, AN_SurfMask = [False, False, False, False]\<rparr>
      else if i = 2 then \<lparr>AN_Name = ''N2'', AN_ZoneName = ''Z1'', AN_ClassType = FloorAirNode,
                     AN_Height = 0.1, AN_SurfMask = [True, False, False, False]\<rparr>
      else if i = 3 then \<lparr>AN_Name = ''N3'', AN_ZoneName = ''Z1'', AN_ClassType = ControlAirNode,
                     AN_Height = 1.1, AN_SurfMask = [False, False, False, False]\<rparr>
      else if i = 4 then \<lparr>AN_Name = ''N4'', AN_ZoneName = ''Z1'', AN_ClassType = CeilingAirNode,
                     AN_Height = 2.3, AN_SurfMask = [False, True, False, False]\<rparr>
      else if i = 5 then \<lparr>AN_Name = ''N5'', AN_ZoneName = ''Z1'', AN_ClassType = MundtRoomAirNode,
                     AN_Height = 1.2, AN_SurfMask = [False, False, True, False]\<rparr>
      else \<lparr>AN_Name = ''N6'', AN_ZoneName = ''Z1'', AN_ClassType = ReturnAirNode,
                     AN_Height = 2.4, AN_SurfMask = [False, False, False, False]\<rparr>)"

definition ex_host :: host where
  "ex_host =
     \<lparr>NumOfZones = 2,
      AirModelType = (\<lambda>z. if z = 1 then RoomAirModel_Mundt else RoomAirModel_Other 0),
      TempCoupleScheme = (\<lambda>_. DirectCoupling),
      SimAirModel = (\<lambda>_. False),
      ConvectiveFloorSplit = (\<lambda>_. 0.5),
      InfiltratFloorSplit = (\<lambda>_. 0.5),
      TotNumOfAirNodes = 6,
      TotNumOfZoneAirNodes = (\<lambda>z. if z = 1 then 6 else 0),
      AirNode = ex_AirNode,
      ZoneName = (\<lambda>z. if z = 1 then ''z1'' else ''z2''),
      SurfaceFirst = (\<lambda>z. if z = 1 then 1 else 5),
      SurfaceLast = (\<lambda>z. if z = 1 then 4 else 6),
      IsControlled = (\<lambda>_. True),
      CeilingHeight = (\<lambda>_. 2.5),
      FloorArea = (\<lambda>_. 10),
      Multiplier = (\<lambda>_. 1),
      ListMultiplier = (\<lambda>_. 1),
      SystemZoneNodeNumber = (\<lambda>z. z),
      NoHeatToReturnAir = (\<lambda>_. False),
      OutDryBulbTemp = (\<lambda>_. 30),
      SurfaceArea = (\<lambda>_. 10),
      TAirRef = (\<lambda>_. ZoneMeanAirTemp),
      NodeMassFlowRate = (\<lambda>_. 0.5),
      NodeTemp = (\<lambda>_. 15),
      NumInletNodes = (\<lambda>_. 1),
      InletNode = (\<lambda>_ _. 3),
      OutBaroPress = 101325,
      ZoneAirHumRat = (\<lambda>_. 0.008),
      MCPI = (\<lambda>_. 0),
      MAT = (\<lambda>_. 18),
      ZT = (\<lambda>_. 18),
      SumConvHTRadSys = (\<lambda>_. 0),
      SumConvPool = (\<lambda>_. 0),
      SysDepZoneLoadsLagged = (\<lambda>_. 0),
      NonAirSystemResponse = (\<lambda>_. 0),
      TempSurfIn = (\<lambda>_. 20),
      HConvIn = (\<lambda>_. 2.25),
      TempEffBulkAir = (\<lambda>_. 0),
      TempZoneThermostatSetPoint = (\<lambda>_. 24),
      TempTstatAir = (\<lambda>_. 0),
      PsyWFnTdpPb = (\<lambda>_ _. 0.008),
      PsyCpAirFnWTdb = (\<lambda>_ _. 1005),
      PsyRhoAirFnPbTdbW = (\<lambda>_ _ _. 1),
      SumAllInternalConvectionGains = (\<lambda>_. 0),
      SumAllReturnAirConvectionGains = (\<lambda>_. 0),
      ErrLog = []\<rparr>"

text \<open>The module's variables when the program starts.\<close>

definition mundt0 :: mundt where
  "mundt0 =
     \<lparr>FirstTimeFlag = True, FloorSurfSetIDs = [], TheseSurfIDs = [], MundtCeilAirID = 0,
      MundtFootAirID = 0, SupplyNodeID = 0, TstatNodeID = 0, ReturnNodeID = 0,
      NumRoomNodes = 0, NumFloorSurfs = 0, RoomNodeIDs = [], ID1dSurf = [], MundtZoneNum = 0,
      ZoneHeight = 0.0, ZoneFloorArea = 0.0, QventCool = 0.0, ConvIntGain = 0.0,
      SupplyAirTemp = 0.0, SupplyAirVolumeRate = 0.0, ZoneAirDensity = 0.0, QsysCoolTot = 0.0,
      ZoneData = [], LineNode = [], MundtAirSurf = [], FloorSurf = []\<rparr>"

text \<open>The first zone when \<^verbatim>\<open>CalcMundtModel\<close> is entered: the state that
  \<^verbatim>\<open>InitMundtModel\<close>, \<^verbatim>\<open>GetSurfHBDataForMundtModel\<close> and
  \<^verbatim>\<open>SetupMundtModel\<close> leave for the example building.\<close>

definition ex_nodes :: "DefineLinearModelNode list" where
  "ex_nodes =
     [\<lparr>AirNodeName = ''N1'', ClassType = InletAirNode, Height = 2.0, Temp = 25.0,
       SurfMask = [False, False, False, False]\<rparr>,
      \<lparr>AirNodeName = ''N2'', ClassType = FloorAirNode, Height = 0.1, Temp = 25.0,
       SurfMask = [True, False, False, False]\<rparr>,
      \<lparr>AirNodeName = ''N3'', ClassType = ControlAirNode, Height = 1.1, Temp = 25.0,
       SurfMask = [False, False, False, False]\<rparr>,
      \<lparr>AirNodeName = ''N4'', ClassType = CeilingAirNode, Height = 2.3, Temp = 25.0,
       SurfMask = [False, True, False, False]\<rparr>,
      \<lparr>AirNodeName = ''N5'', ClassType = MundtRoomAirNode, Height = 1.2, Temp = 25.0,
       SurfMask = [False, False, True, False]\<rparr>,
      \<lparr>AirNodeName = ''N6'', ClassType = ReturnAirNode, Height = 2.4, Temp = 25.0,
       SurfMask = [False, False, False, False]\<rparr>]"

definition ex_surf :: DefineSurfaceSettings where
  "ex_surf = \<lparr>Area = 10, SurfTemp = 20, Hc = 2.25, TMeanAir = 25\<rparr>"

definition ex_st :: mundt where
  "ex_st =
     \<lparr>FirstTimeFlag = False, FloorSurfSetIDs = [1], TheseSurfIDs = [0, 0, 0, 0],
      MundtCeilAirID = 4, MundtFootAirID = 2, SupplyNodeID = 1, TstatNodeID = 3,
      ReturnNodeID = 6, NumRoomNodes = 1, NumFloorSurfs = 1, RoomNodeIDs = [5],
      ID1dSurf = [1, 2, 3, 4], MundtZoneNum = 1, ZoneHeight = 2.5, ZoneFloorArea = 10,
      QventCool = 0, ConvIntGain = 0, SupplyAirTemp = 15, SupplyAirVolumeRate = 0.5,
      ZoneAirDensity = 1, QsysCoolTot = 1507.5,
      ZoneData =
        [\<lparr>SurfFirst = 1, NumOfSurfs = 4, MundtZoneIndex = 1\<rparr>,
         \<lparr>SurfFirst = 0, NumOfSurfs = 0, MundtZoneIndex = 0\<rparr>],
      LineNode = [ex_nodes],
      MundtAirSurf = [[ex_surf, ex_surf, ex_surf, ex_surf]],
      FloorSurf = [ex_surf]\<rparr>"

text \<open>Variants of that state: internal gains that warm the floor air above the
  leaving air; a load ten times as large; the Return node at the height of the Floor
  node; and the scenario of a fixed supply (15 C, flow 0.5 at density 1, load 1500 W)
  with no floor gains and no floor film conductance.\<close>

definition ex_st_warm :: mundt where
  "ex_st_warm = ex_st\<lparr>ConvIntGain := 6000\<rparr>"

definition ex_st_hot :: mundt where
  "ex_st_hot = ex_st\<lparr>QsysCoolTot := 15075\<rparr>"


definition ex_host_fixed :: host where
  "ex_host_fixed =
     ex_host\<lparr>ConvectiveFloorSplit := (\<lambda>_. 0), InfiltratFloorSplit := (\<lambda>_. 0)\<rparr>"

definition ex_st_fixed :: mundt where
  "ex_st_fixed = ex_st\<lparr>QsysCoolTot := 1500, FloorSurf := [ex_surf\<lparr>Hc := 0\<rparr>]\<rparr>"

text \<open>The states that \<^verbatim>\<open>CalcMundtModel\<close> leaves for \<open>ex_st\<close> and for
  \<open>ex_st_warm\<close>.\<close>

definition ex_st_solved :: mundt where
  "ex_st_solved =
     ex_st\<lparr>TheseSurfIDs := [3],
           LineNode :=
             [[(ex_nodes ! 0)\<lparr>Temp := 15\<rparr>, (ex_nodes ! 1)\<lparr>Temp := 213 / 14\<rparr>,
               (ex_nodes ! 2)\<lparr>Temp := 5289 / 322\<rparr>, (ex_nodes ! 3)\<lparr>Temp := 5757 / 322\<rparr>,
               (ex_nodes ! 4)\<lparr>Temp := 2664 / 161\<rparr>, (ex_nodes ! 5)\<lparr>Temp := 18\<rparr>]],
           MundtAirSurf :=
             [[ex_surf\<lparr>TMeanAir := 213 / 14\<rparr>, ex_surf\<lparr>TMeanAir := 5757 / 322\<rparr>,
               ex_surf\<lparr>TMeanAir := 2664 / 161\<rparr>, ex_surf]]\<rparr>"

definition ex_st_warm_solved :: mundt where
  "ex_st_warm_solved =
     ex_st_warm\<lparr>TheseSurfIDs := [3],
           LineNode :=
             [[(ex_nodes ! 0)\<lparr>Temp := 15\<rparr>, (ex_nodes ! 1)\<lparr>Temp := 18\<rparr>,
               (ex_nodes ! 2)\<lparr>Temp := 179987 / 10000\<rparr>,
               (ex_nodes ! 3)\<lparr>Temp := 179999 / 10000\<rparr>,
               (ex_nodes ! 4)\<lparr>Temp := 44997 / 2500\<rparr>, (ex_nodes ! 5)\<lparr>Temp := 18\<rparr>]],
           MundtAirSurf :=
             [[ex_surf\<lparr>TMeanAir := 18\<rparr>, ex_surf\<lparr>TMeanAir := 179999 / 10000\<rparr>,
               ex_surf\<lparr>TMeanAir := 44997 / 2500\<rparr>, ex_surf]]\<rparr>"

text \<open>The first call for the example building: the state that the initialisation and
  the transfer of the heat-balance data leave, before the air nodes are bound to their
  roles. The same with the system off (no mass flow at the zone node). A zone like the
  first one but with a second Room node in place of the Ceiling node, before and after
  the roles are bound.\<close>

definition ex_st_in :: mundt where
  "ex_st_in =
     ex_st\<lparr>FloorSurfSetIDs := [0], MundtCeilAirID := 0, MundtFootAirID := 0, SupplyNodeID := 0,
           TstatNodeID := 0, ReturnNodeID := 0, NumRoomNodes := 0, NumFloorSurfs := 0,
           RoomNodeIDs := [0], FloorSurf := [DefaultSurf]\<rparr>"

definition ex_host_off :: host where
  "ex_host_off = ex_host\<lparr>NodeMassFlowRate := (\<lambda>_. 0)\<rparr>"

definition ex_st_in_off :: mundt where
  "ex_st_in_off = ex_st_in\<lparr>SupplyAirTemp := 0, SupplyAirVolumeRate := 0, QsysCoolTot := 0\<rparr>"

definition ex_st_noceil_in :: mundt where
  "ex_st_noceil_in =
     ex_st_in\<lparr>LineNode := [ex_nodes[3 := (ex_nodes ! 3)\<lparr>ClassType := MundtRoomAirNode\<rparr>]],
              RoomNodeIDs := [0, 0]\<rparr>"

definition ex_st_noceil :: mundt where
  "ex_st_noceil =
     ex_st_noceil_in\<lparr>FloorSurfSetIDs := [1], MundtFootAirID := 2, SupplyNodeID := 1,
           TstatNodeID := 3, ReturnNodeID := 6, NumRoomNodes := 2, NumFloorSurfs := 1,
           RoomNodeIDs := [4, 5], FloorSurf := [ex_surf]\<rparr>"

text \<open>The host after the first call for the example building, and the module's state
  after a later call with the system off.\<close>

definition ex_host_solved :: host where
  "ex_host_solved =
     ex_host\<lparr>TempEffBulkAir :=
               (TempEffBulkAir ex_host)(1 := 213 / 14, 2 := 5757 / 322, 3 := 2664 / 161, 4 := 25),
             TAirRef :=
               (TAirRef ex_host)(1 := AdjacentAirTemp, 2 := AdjacentAirTemp,
                                 3 := AdjacentAirTemp, 4 := AdjacentAirTemp),
             NodeTemp := (NodeTemp ex_host)(1 := 18),
             TempTstatAir := (TempTstatAir ex_host)(1 := 5289 / 322),
             SimAirModel := (SimAirModel ex_host)(1 := True)\<rparr>"

definition ex_st_idle :: mundt where
  "ex_st_idle = ex_st_solved\<lparr>SupplyAirVolumeRate := 0, QsysCoolTot := 0\<rparr>"

subsection \<open>Predicates of the properties\<close>

text \<open>The temperature of an air node lies on the gradient line through the leaving
  temperature at the height of the Return node:
  \<open>T(h) = TLeaving - Slope * (ReturnHeight - h)\<close>.\<close>

definition OnGradientLine :: "real \<Rightarrow> real \<Rightarrow> mundt \<Rightarrow> int \<Rightarrow> bool" where
  "OnGradientLine TLeav Slope2 st NodeID =
     (case (Height_of st (ReturnNodeID st), Height_of st NodeID, Temp_of st NodeID) of
        (Inr HReturn, Inr HNode, Inr TNode) \<Rightarrow> TNode = TLeav - (Slope2 * (HReturn - HNode))
      | _ \<Rightarrow> False)"

text \<open>The surfaces whose effective air temperature the solve sets: the first
  \<^verbatim>\<open>NumFloorSurfs\<close> floor surfaces and the surfaces in the mask of the Ceiling node and
  of the first \<^verbatim>\<open>NumRoomNodes\<close> Room nodes.\<close>

definition NodeSurfIDs :: "mundt \<Rightarrow> int \<Rightarrow> int set" where
  "NodeSurfIDs st NodeID =
     (case Node_of st NodeID of
        Inr n \<Rightarrow> set (pack (ID1dSurf st) (SurfMask n))
      | Inl _ \<Rightarrow> {})"

definition TMeanAirTargets :: "mundt \<Rightarrow> int set" where
  "TMeanAirTargets st =
     set (take (nat (NumFloorSurfs st)) (FloorSurfSetIDs st))
       \<union> NodeSurfIDs st (MundtCeilAirID st)
       \<union> (\<Union>RoomID \<in> set (take (nat (NumRoomNodes st)) (RoomNodeIDs st)).
             NodeSurfIDs st RoomID)"

text \<open>What the set-up of the roles leaves as it is.\<close>

definition SetupKeeps :: "mundt \<Rightarrow> mundt \<Rightarrow> bool" where
  "SetupKeeps st st' =
     (LineNode st' = LineNode st \<and> MundtAirSurf st' = MundtAirSurf st \<and>
      ZoneData st' = ZoneData st \<and> MundtZoneNum st' = MundtZoneNum st \<and>
      SupplyAirVolumeRate st' = SupplyAirVolumeRate st \<and> QsysCoolTot st' = QsysCoolTot st \<and>
      ID1dSurf st' = ID1dSurf st \<and> FirstTimeFlag st' = FirstTimeFlag st \<and>
      SupplyAirTemp st' = SupplyAirTemp st \<and> ZoneAirDensity st' = ZoneAirDensity st \<and>
      ConvIntGain st' = ConvIntGain st \<and> QventCool st' = QventCool st \<and>
      TheseSurfIDs st' = TheseSurfIDs st)"

subsection \<open>The unmatched air nodes of the Mundt zones\<close>

text \<open>The zones that use the Mundt model, in the order of the zones.\<close>

definition MundtZones :: "host \<Rightarrow> int list" where
  "MundtZones h = filter (\<lambda>z. AirModelType h z = RoomAirModel_Mundt) [1..NumOfZones h]"

text \<open>From the specification (4.1): every air node of a zone locates its definition by
  the case-insensitive match of the zone name, in a single forward scan per zone that
  is not restarted between the nodes. \<open>UnmatchedFrom h ZoneIndex c ns\<close> is the number
  of the air nodes \<open>ns\<close> left without a definition when the scan stands at \<open>c\<close>.\<close>

definition NodeMatches :: "host \<Rightarrow> int \<Rightarrow> int \<Rightarrow> bool" where
  "NodeMatches h ZoneIndex AirNodeNum =
     SameString (AN_ZoneName (AirNode h AirNodeNum)) (ZoneName h ZoneIndex)"

fun UnmatchedFrom :: "host \<Rightarrow> int \<Rightarrow> int \<Rightarrow> int list \<Rightarrow> nat" where
  "UnmatchedFrom h ZoneIndex c [] = 0"
| "UnmatchedFrom h ZoneIndex c (NodeNum # ns) =
     (case find (NodeMatches h ZoneIndex) [c..TotNumOfAirNodes h] of
        None \<Rightarrow> Suc (UnmatchedFrom h ZoneIndex c ns)
      | Some a \<Rightarrow> UnmatchedFrom h ZoneIndex (a + 1) ns)"

definition UnmatchedNodes :: "host \<Rightarrow> int \<Rightarrow> nat" where
  "UnmatchedNodes h ZoneIndex =
     UnmatchedFrom h ZoneIndex 1 [1..TotNumOfZoneAirNodes h ZoneIndex]"

text \<open>The severe error of an air node without a definition, and the messages of the
  zones \<open>zs\<close>: one for each such air node, zone after zone.\<close>

definition NotFoundMessage :: "host \<Rightarrow> int \<Rightarrow> string" where
  "NotFoundMessage h ZoneIndex =
     ''InitMundtModel: Air Node in Zone='' @ [CHR 0x22] @ ZoneName h ZoneIndex
       @ [CHR 0x22] @ '' is not found.''"

definition NotFoundMessages :: "host \<Rightarrow> int list \<Rightarrow> string list" where
  "NotFoundMessages h zs =
     concat (map (\<lambda>z. replicate (UnmatchedNodes h z) (NotFoundMessage h z)) zs)"

text \<open>The index among the Mundt zones that the zone data hold for a zone.\<close>

definition MundtIndexOf :: "DefineZoneData list \<Rightarrow> int \<Rightarrow> int" where
  "MundtIndexOf zd z = MundtZoneIndex (zd ! nat (z - 1))"

text \<open>The check of the array bound in that scan (lines 316-318 of the source): an air
  node whose search would start beyond the last definition ends the run with a fatal
  error. \<open>ScanExceeds h ZoneIndex c ns\<close> tells whether that happens for one of the air
  nodes \<open>ns\<close> when the scan stands at \<open>c\<close>.\<close>

fun ScanExceeds :: "host \<Rightarrow> int \<Rightarrow> int \<Rightarrow> int list \<Rightarrow> bool" where
  "ScanExceeds h ZoneIndex c [] = False"
| "ScanExceeds h ZoneIndex c (NodeNum # ns) =
     (TotNumOfAirNodes h < c \<or>
      (case find (NodeMatches h ZoneIndex) [c..TotNumOfAirNodes h] of
         None \<Rightarrow> ScanExceeds h ZoneIndex c ns
       | Some a \<Rightarrow> ScanExceeds h ZoneIndex (a + 1) ns))"

definition BoundExceeded :: "host \<Rightarrow> int \<Rightarrow> bool" where
  "BoundExceeded h ZoneIndex =
     ScanExceeds h ZoneIndex 1 [1..TotNumOfZoneAirNodes h ZoneIndex]"

definition ArrayBoundFatal :: error where
  "ArrayBoundFatal =
     FatalError ''An array bound exceeded. Error in InitMundtModel subroutine of MundtSimMgr.''"

text \<open>An array of \<open>r\<close> rows of \<open>c\<close> entries each, as \<^verbatim>\<open>allocate\<close> makes them.\<close>

definition HasDims :: "'a list list \<Rightarrow> nat \<Rightarrow> nat \<Rightarrow> bool" where
  "HasDims xss r c = (length xss = r \<and> list_all (\<lambda>row. length row = c) xss)"

text \<open>The example building with both zones on the Mundt model, the second with one air
  node, and the sixth definition of an air node naming a third zone; and the same
  with only five definitions.\<close>

definition ex_host_lost :: host where
  "ex_host_lost =
     ex_host\<lparr>AirModelType := (\<lambda>_. RoomAirModel_Mundt),
             TotNumOfZoneAirNodes := (\<lambda>z. if z = 1 then 6 else 1),
             AirNode := (\<lambda>i. if i = 6 then (ex_AirNode 6)\<lparr>AN_ZoneName := ''Z3''\<rparr>
                              else ex_AirNode i)\<rparr>"

definition ex_host_short :: host where
  "ex_host_short = ex_host_lost\<lparr>TotNumOfAirNodes := 5\<rparr>"

section \<open>Properties\<close>

subsection \<open>Errors, arrays and loops\<close>

lemma bindE_Inr [simp]: "bindE (Inr x) f = f x"
  by (simp add: bindE_def)

lemma bindE_Inl [simp]: "bindE (Inl e) f = Inl e"
  by (simp add: bindE_def)

lemma bindE_eq_Inr: "bindE m f = Inr y \<longleftrightarrow> (\<exists>x. m = Inr x \<and> f x = Inr y)"
  by (cases m) simp_all

lemma fdiv_eq_Inr: "fdiv a b = Inr q \<longleftrightarrow> (b \<noteq> 0 \<and> q = a / b)"
  by (auto simp: fdiv_def)

lemma fdiv_zero [simp]: "fdiv a 0 = Inl DivisionByZero"
  by (simp add: fdiv_def)

lemma fdiv_cases: "fdiv a b = Inl DivisionByZero \<or> (\<exists>q. fdiv a b = Inr q)"
  by (simp add: fdiv_def)

lemma CalcMundtLocals_InrD:
  assumes "CalcMundtLocals h ZoneNum st = Inr L"
  shows "\<exists>TAirFoot0 TLeav HReturn HFoot HCeil HTstat.
           TAirFoot_Eq22 h ZoneNum st = Inr TAirFoot0 \<and>
           TLeaving_Eq23 st = Inr TLeav \<and>
           Height_of st (ReturnNodeID st) = Inr HReturn \<and>
           Height_of st (MundtFootAirID st) = Inr HFoot \<and>
           Height_of st (MundtCeilAirID st) = Inr HCeil \<and>
           Height_of st (TstatNodeID st) = Inr HTstat \<and>
           check_slope (ieee_div (TLeav - TAirFoot0) (HReturn - HFoot))
             TAirFoot0 TLeav HReturn HFoot = (Finite (Slope L), TAirFoot L) \<and>
           TLeaving L = TLeav \<and>
           TAirCeil L = TLeav - (Slope L * (HReturn - HCeil)) \<and>
           TControlPoint L = TLeav - (Slope L * (HReturn - HTstat))"
proof -
  from assms obtain TAirFoot0 TLeav HReturn HFoot HCeil HTstat where
    r: "TAirFoot_Eq22 h ZoneNum st = Inr TAirFoot0" "TLeaving_Eq23 st = Inr TLeav"
      "Height_of st (ReturnNodeID st) = Inr HReturn"
      "Height_of st (MundtFootAirID st) = Inr HFoot"
      "Height_of st (MundtCeilAirID st) = Inr HCeil"
      "Height_of st (TstatNodeID st) = Inr HTstat"
    and c: "(case fst (check_slope (ieee_div (TLeav - TAirFoot0) (HReturn - HFoot))
                         TAirFoot0 TLeav HReturn HFoot) of
               Finite Slope2 \<Rightarrow>
                 Inr \<lparr>TAirFoot = snd (check_slope (ieee_div (TLeav - TAirFoot0) (HReturn - HFoot))
                                       TAirFoot0 TLeav HReturn HFoot),
                      TAirCeil = TLeav - (Slope2 * (HReturn - HCeil)),
                      TLeaving = TLeav,
                      TControlPoint = TLeav - (Slope2 * (HReturn - HTstat)),
                      Slope = Slope2\<rparr>
             | _ \<Rightarrow> Inl NotANumber) = Inr L"
    by (auto simp: CalcMundtLocals_def bindE_eq_Inr split_beta Let_def)
  obtain q t where q: "check_slope (ieee_div (TLeav - TAirFoot0) (HReturn - HFoot))
                         TAirFoot0 TLeav HReturn HFoot = (q, t)"
    by (cases "check_slope (ieee_div (TLeav - TAirFoot0) (HReturn - HFoot))
                 TAirFoot0 TLeav HReturn HFoot") auto
  from c q obtain s2 where "q = Finite s2"
    and "L = \<lparr>TAirFoot = t, TAirCeil = TLeav - (s2 * (HReturn - HCeil)), TLeaving = TLeav,
              TControlPoint = TLeav - (s2 * (HReturn - HTstat)), Slope = s2\<rparr>"
    by (cases q) auto
  with q r show ?thesis
    by auto
qed

lemma TLeaving_Eq23_InrD:
  assumes "TLeaving_Eq23 st = Inr TLeav"
  shows "(QsysCoolTot st \<le> 0 \<longrightarrow> TLeav = SupplyAirTemp st) \<and>
         (0 < QsysCoolTot st \<longrightarrow>
            ZoneAirDensity st * CpAir * SupplyAirVolumeRate st \<noteq> 0 \<and>
            TLeav = QsysCoolTot st / (ZoneAirDensity st * CpAir * SupplyAirVolumeRate st) + SupplyAirTemp st)"
  using assms
  by (auto simp: TLeaving_Eq23_def bindE_eq_Inr fdiv_eq_Inr split: if_splits)

lemma check_slope_cases:
  "(MaxSlope < s0 \<longrightarrow>
      check_slope (Finite s0) t0 tlv hr hf = (Finite MaxSlope, tlv - MaxSlope * (hr - hf))) \<and>
   (s0 < MinSlope \<longrightarrow> check_slope (Finite s0) t0 tlv hr hf = (Finite MinSlope, tlv)) \<and>
   (MinSlope \<le> s0 \<and> s0 \<le> MaxSlope \<longrightarrow> check_slope (Finite s0) t0 tlv hr hf = (Finite s0, t0))"
  by (simp add: check_slope_def quotient_gt_def quotient_lt_def MinSlope_def MaxSlope_def)

lemma check_slope_special:
  "check_slope PlusInf t0 tlv hr hf = (Finite MaxSlope, tlv - MaxSlope * (hr - hf))"
  "check_slope MinusInf t0 tlv hr hf = (Finite MinSlope, tlv)"
  "check_slope NaN t0 tlv hr hf = (NaN, t0)"
  by (simp_all add: check_slope_def quotient_gt_def quotient_lt_def MinSlope_def MaxSlope_def)

lemma check_slope_range:
  assumes "check_slope q t0 tlv hr hf = (Finite s, t)"
  shows "MinSlope \<le> s \<and> s \<le> MaxSlope"
  using assms
  by (cases q)
    (auto simp: check_slope_def quotient_gt_def quotient_lt_def MinSlope_def MaxSlope_def
      split: if_splits)

lemma ieee_div_cases:
  "(b \<noteq> 0 \<longrightarrow> ieee_div a b = Finite (a / b)) \<and>
   (b = 0 \<and> 0 < a \<longrightarrow> ieee_div a b = PlusInf) \<and>
   (b = 0 \<and> a < 0 \<longrightarrow> ieee_div a b = MinusInf) \<and>
   (b = 0 \<and> a = 0 \<longrightarrow> ieee_div a b = NaN)"
  by (simp add: ieee_div_def)

lemma sum_list_all_zero: "\<forall>x \<in> set xs. f x = (0::real) \<Longrightarrow> sum_list (map f xs) = 0"
  by (induction xs) simp_all

lemma upto_from_1: "[1..numeral n] = 1 # [2..numeral n]"
  by (simp add: upto_rec1)

lemma forE_invariant:
  assumes "forE js body s = Inr s'" and "P s"
    and "\<And>j t t'. j \<in> set js \<Longrightarrow> P t \<Longrightarrow> body j t = Inr t' \<Longrightarrow> P t'"
  shows "P s'"
  using assms
proof (induction js arbitrary: s)
  case Nil
  then show ?case by simp
next
  case (Cons j js)
  from Cons.prems(1) obtain t where t: "body j s = Inr t" and rest: "forE js body t = Inr s'"
    by (auto simp: bindE_eq_Inr)
  have "P t"
    by (rule Cons.prems(3) [OF _ Cons.prems(2) t]) simp
  show ?case
  proof (rule Cons.IH [OF rest \<open>P t\<close>])
    fix i u u'
    assume "i \<in> set js" and "P u" and "body i u = Inr u'"
    then show "P u'"
      using Cons.prems(3) [of i u u'] by simp
  qed
qed

lemma forE_each:
  assumes "forE js body s = Inr s'"
    and "\<And>j t t'. j \<in> set js \<Longrightarrow> body j t = Inr t' \<Longrightarrow> Q j t'"
    and "\<And>j k t t'. j \<in> set js \<Longrightarrow> Q k t \<Longrightarrow> body j t = Inr t' \<Longrightarrow> Q k t'"
  shows "\<forall>k \<in> set js. Q k s'"
  using assms
proof (induction js arbitrary: s)
  case Nil
  then show ?case by simp
next
  case (Cons j js)
  from Cons.prems(1) obtain t where t: "body j s = Inr t" and rest: "forE js body t = Inr s'"
    by (auto simp: bindE_eq_Inr)
  have "Q j t"
    by (rule Cons.prems(2) [OF _ t]) simp
  have "Q j s'"
  proof (rule forE_invariant [where P = "Q j", OF rest \<open>Q j t\<close>])
    fix i u u'
    assume "i \<in> set js" and "Q j u" and "body i u = Inr u'"
    then show "Q j u'"
      using Cons.prems(3) [of i j u u'] by simp
  qed
  moreover have "\<forall>k \<in> set js. Q k s'"
  proof (rule Cons.IH [OF rest])
    fix i u u'
    assume "i \<in> set js" and "body i u = Inr u'"
    then show "Q i u'"
      using Cons.prems(2) [of i u u'] by simp
  next
    fix i k u u'
    assume "i \<in> set js" and "Q k u" and "body i u = Inr u'"
    then show "Q k u'"
      using Cons.prems(3) [of i k u u'] by simp
  qed
  ultimately show ?case by simp
qed

lemma upd1_Inr:
  "upd1 xs i f = Inr ys \<longleftrightarrow> (inrange xs i \<and> ys = xs[nat (i - 1) := f (xs ! nat (i - 1))])"
  by (auto simp: upd1_def)

lemma at1_Inr: "at1 xs i = Inr x \<longleftrightarrow> (inrange xs i \<and> x = xs ! nat (i - 1))"
  by (auto simp: at1_def)

lemma at1_upd1:
  assumes "upd1 xs i f = Inr ys"
  shows "at1 ys j = (if j = i then Inr (f (xs ! nat (i - 1))) else at1 xs j)"
  using assms by (auto simp: upd1_def at1_def inrange_def nth_list_update split: if_splits)

lemma at2_upd2:
  assumes "upd2 xss i j f = Inr yss"
  shows "\<exists>x. at2 xss i j = Inr x \<and>
           (\<forall>i' j'. at2 yss i' j' = (if i' = i \<and> j' = j then Inr (f x) else at2 xss i' j'))"
proof -
  from assms obtain row row' where row: "at1 xss i = Inr row"
    and row': "upd1 row j f = Inr row'" and yss: "upd1 xss i (\<lambda>_. row') = Inr yss"
    by (auto simp: upd2_def bindE_eq_Inr)
  have r: "at1 yss i' = (if i' = i then Inr row' else at1 xss i')" for i'
    using at1_upd1 [OF yss] by simp
  have c: "at1 row' j' = (if j' = j then Inr (f (row ! nat (j - 1))) else at1 row j')" for j'
    using at1_upd1 [OF row'] by simp
  have x: "at2 xss i j = Inr (row ! nat (j - 1))"
    using row row' by (simp add: at2_def upd1_Inr at1_def)
  show ?thesis
    using x row by (auto simp: at2_def r c)
qed

lemma SetNodeResult_Inr:
  assumes "SetNodeResult i T st = Inr st'"
  shows "\<exists>n ln. Node_of st i = Inr n \<and> st' = st\<lparr>LineNode := ln\<rparr> \<and>
           (\<forall>j. Node_of st' j = (if j = i then Inr (n\<lparr>Temp := T\<rparr>) else Node_of st j))"
proof -
  from assms obtain ln where ln: "upd2 (LineNode st) (MundtZoneNum st) i (\<lambda>n. n\<lparr>Temp := T\<rparr>) = Inr ln"
    and st': "st' = st\<lparr>LineNode := ln\<rparr>"
    by (auto simp: SetNodeResult_def bindE_eq_Inr)
  from at2_upd2 [OF ln] show ?thesis
    unfolding Node_of_def st' by auto
qed

lemma SetSurfTmeanAir_Inr:
  assumes "SetSurfTmeanAir i T st = Inr st'"
  shows "\<exists>ms. st' = st\<lparr>MundtAirSurf := ms\<rparr>"
  using assms by (auto simp: SetSurfTmeanAir_def bindE_eq_Inr)

lemma SetFloorSurfaces_Inr:
  assumes "SetFloorSurfaces T st = Inr st'"
  shows "\<exists>ms. st' = st\<lparr>MundtAirSurf := ms\<rparr>"
proof -
  have "\<exists>ms. st' = st\<lparr>MundtAirSurf := ms\<rparr>"
  proof (rule forE_invariant [OF assms [unfolded SetFloorSurfaces_def],
        where P = "\<lambda>s. \<exists>ms. s = st\<lparr>MundtAirSurf := ms\<rparr>"])
    show "\<exists>ms. st = st\<lparr>MundtAirSurf := ms\<rparr>"
      by (rule exI [of _ "MundtAirSurf st"]) simp
  next
    fix j t t'
    assume "\<exists>ms. t = st\<lparr>MundtAirSurf := ms\<rparr>"
      and "bindE (at1 (FloorSurfSetIDs t) j) (\<lambda>SurfID. SetSurfTmeanAir SurfID T t) = Inr t'"
    then show "\<exists>ms. t' = st\<lparr>MundtAirSurf := ms\<rparr>"
      by (auto simp: bindE_eq_Inr dest!: SetSurfTmeanAir_Inr)
  qed
  then show ?thesis .
qed

lemma SetNodeSurfaces_Inr:
  assumes "SetNodeSurfaces i T st = Inr st'"
  shows "\<exists>ids ms. st' = st\<lparr>TheseSurfIDs := ids, MundtAirSurf := ms\<rparr>"
proof -
  from assms have "\<exists>n :: DefineLinearModelNode. forE [1..count (SurfMask n)]
             (\<lambda>SurfNum s. bindE (at1 (TheseSurfIDs s) SurfNum) (\<lambda>SurfID. SetSurfTmeanAir SurfID T s))
             (st\<lparr>TheseSurfIDs := pack (ID1dSurf st) (SurfMask n)\<rparr>) = Inr st'"
    by (auto simp: SetNodeSurfaces_def bindE_eq_Inr Let_def)
  then obtain n :: DefineLinearModelNode where
    loop: "forE [1..count (SurfMask n)]
             (\<lambda>SurfNum s. bindE (at1 (TheseSurfIDs s) SurfNum) (\<lambda>SurfID. SetSurfTmeanAir SurfID T s))
             (st\<lparr>TheseSurfIDs := pack (ID1dSurf st) (SurfMask n)\<rparr>) = Inr st'" ..
  show ?thesis
  proof (rule forE_invariant [OF loop,
        where P = "\<lambda>s. \<exists>ids ms. s = st\<lparr>TheseSurfIDs := ids, MundtAirSurf := ms\<rparr>"])
    show "\<exists>ids ms. st\<lparr>TheseSurfIDs := pack (ID1dSurf st) (SurfMask n)\<rparr>
            = st\<lparr>TheseSurfIDs := ids, MundtAirSurf := ms\<rparr>"
      by (rule exI [of _ "pack (ID1dSurf st) (SurfMask n)"], rule exI [of _ "MundtAirSurf st"]) simp
  next
    fix j t t'
    assume "\<exists>ids ms. t = st\<lparr>TheseSurfIDs := ids, MundtAirSurf := ms\<rparr>"
      and "bindE (at1 (TheseSurfIDs t) j) (\<lambda>SurfID. SetSurfTmeanAir SurfID T t) = Inr t'"
    then show "\<exists>ids ms. t' = st\<lparr>TheseSurfIDs := ids, MundtAirSurf := ms\<rparr>"
      by (auto simp: bindE_eq_Inr dest!: SetSurfTmeanAir_Inr) blast
  qed
qed

lemma OnGradientLine_iff:
  "OnGradientLine TLeav Slope2 st NodeID \<longleftrightarrow>
     (\<exists>HReturn HNode. Height_of st (ReturnNodeID st) = Inr HReturn \<and>
        Height_of st NodeID = Inr HNode \<and>
        Temp_of st NodeID = Inr (TLeav - (Slope2 * (HReturn - HNode))))"
  by (auto simp: OnGradientLine_def split: sum.splits)

lemma SetNodeResult_fields:
  assumes "SetNodeResult i T st = Inr st'"
  shows "\<exists>ln. st' = st\<lparr>LineNode := ln\<rparr>"
    and "Height_of st' j = Height_of st j"
    and "Temp_of st' j = (if j = i then Inr T else Temp_of st j)"
    and "\<exists>HNode. Height_of st i = Inr HNode"
proof -
  from SetNodeResult_Inr [OF assms] obtain n ln where n: "Node_of st i = Inr n"
    and st': "st' = st\<lparr>LineNode := ln\<rparr>"
    and nodes: "\<And>j. Node_of st' j = (if j = i then Inr (n\<lparr>Temp := T\<rparr>) else Node_of st j)"
    by blast
  show "\<exists>ln. st' = st\<lparr>LineNode := ln\<rparr>" using st' by blast
  show "Height_of st' j = Height_of st j"
    by (simp add: Height_of_def nodes n)
  show "Temp_of st' j = (if j = i then Inr T else Temp_of st j)"
    by (simp add: Temp_of_def nodes)
  show "\<exists>HNode. Height_of st i = Inr HNode"
    by (simp add: Height_of_def n)
qed

lemma surfaces_frame:
  assumes "st' = st\<lparr>TheseSurfIDs := ids, MundtAirSurf := ms\<rparr>"
  shows "Height_of st' j = Height_of st j" and "Temp_of st' j = Temp_of st j"
    and "OnGradientLine TLeav Slope2 st' j = OnGradientLine TLeav Slope2 st j"
  by (simp_all add: assms Height_of_def Temp_of_def Node_of_def OnGradientLine_def)

lemma SetRoomNode_fields:
  assumes "SetRoomNode TLeav Slope2 k st = Inr st'"
  shows "\<exists>ln ids ms. st' = st\<lparr>LineNode := ln, TheseSurfIDs := ids, MundtAirSurf := ms\<rparr>"
    and "Height_of st' j = Height_of st j"
    and "OnGradientLine TLeav Slope2 st j \<Longrightarrow> OnGradientLine TLeav Slope2 st' j"
    and "\<exists>RoomID. at1 (RoomNodeIDs st) k = Inr RoomID \<and> OnGradientLine TLeav Slope2 st' RoomID"
proof -
  from assms obtain HReturn RoomID HRoom st1 where
    HR: "Height_of st (ReturnNodeID st) = Inr HReturn"
    and id: "at1 (RoomNodeIDs st) k = Inr RoomID"
    and Hroom: "Height_of st RoomID = Inr HRoom"
    and set: "SetNodeResult RoomID (TLeav - (Slope2 * (HReturn - HRoom))) st = Inr st1"
    and surf: "SetNodeSurfaces RoomID (TLeav - (Slope2 * (HReturn - HRoom))) st1 = Inr st'"
    by (auto simp: SetRoomNode_def bindE_eq_Inr Let_def)
  from SetNodeResult_fields(1) [OF set] obtain ln where st1: "st1 = st\<lparr>LineNode := ln\<rparr>"
    by blast
  from SetNodeSurfaces_Inr [OF surf] obtain ids ms where
    st': "st' = st1\<lparr>TheseSurfIDs := ids, MundtAirSurf := ms\<rparr>"
    by blast
  show "\<exists>ln ids ms. st' = st\<lparr>LineNode := ln, TheseSurfIDs := ids, MundtAirSurf := ms\<rparr>"
    using st1 st' by auto
  have ret: "ReturnNodeID st' = ReturnNodeID st"
    by (simp add: st1 st')
  have H: "Height_of st' j = Height_of st j" for j
    using surfaces_frame(1) [OF st'] SetNodeResult_fields(2) [OF set] by simp
  have T: "Temp_of st' j = (if j = RoomID then Inr (TLeav - (Slope2 * (HReturn - HRoom)))
                           else Temp_of st j)" for j
    using surfaces_frame(2) [OF st'] SetNodeResult_fields(3) [OF set] by simp
  show "Height_of st' j = Height_of st j" by (rule H)
  show "OnGradientLine TLeav Slope2 st' j" if "OnGradientLine TLeav Slope2 st j"
    using that HR Hroom by (auto simp: OnGradientLine_iff ret H T)
  have "OnGradientLine TLeav Slope2 st' RoomID"
    using HR Hroom by (simp add: OnGradientLine_iff ret H T)
  with id show "\<exists>RoomID. at1 (RoomNodeIDs st) k = Inr RoomID \<and> OnGradientLine TLeav Slope2 st' RoomID"
    by blast
qed

lemma SetRoomNode_RoomNodeIDs:
  assumes "SetRoomNode TLeav Slope2 k st = Inr st'"
  shows "RoomNodeIDs st' = RoomNodeIDs st"
  using SetRoomNode_fields(1) [OF assms] by auto

lemma RoomLoop_fields:
  assumes "forE js (SetRoomNode TLeav Slope2) st = Inr st'"
  shows "\<exists>ln ids ms. st' = st\<lparr>LineNode := ln, TheseSurfIDs := ids, MundtAirSurf := ms\<rparr>"
    and "Height_of st' j = Height_of st j"
    and "OnGradientLine TLeav Slope2 st j \<Longrightarrow> OnGradientLine TLeav Slope2 st' j"
    and "\<forall>k \<in> set js. \<exists>RoomID. at1 (RoomNodeIDs st) k = Inr RoomID \<and>
           OnGradientLine TLeav Slope2 st' RoomID"
proof -
  show frame: "\<exists>ln ids ms. st' = st\<lparr>LineNode := ln, TheseSurfIDs := ids, MundtAirSurf := ms\<rparr>"
  proof (rule forE_invariant [OF assms,
        where P = "\<lambda>s. \<exists>ln ids ms. s = st\<lparr>LineNode := ln, TheseSurfIDs := ids, MundtAirSurf := ms\<rparr>"])
    show "\<exists>ln ids ms. st = st\<lparr>LineNode := ln, TheseSurfIDs := ids, MundtAirSurf := ms\<rparr>"
      by (rule exI [of _ "LineNode st"], rule exI [of _ "TheseSurfIDs st"],
          rule exI [of _ "MundtAirSurf st"]) simp
  next
    fix k t t'
    assume "\<exists>ln ids ms. t = st\<lparr>LineNode := ln, TheseSurfIDs := ids, MundtAirSurf := ms\<rparr>"
      and "SetRoomNode TLeav Slope2 k t = Inr t'"
    then show "\<exists>ln ids ms. t' = st\<lparr>LineNode := ln, TheseSurfIDs := ids, MundtAirSurf := ms\<rparr>"
      using SetRoomNode_fields(1) [of TLeav Slope2 k t t'] by auto blast
  qed
  show "Height_of st' j = Height_of st j"
    by (rule forE_invariant [OF assms, where P = "\<lambda>s. Height_of s j = Height_of st j"])
      (simp_all add: SetRoomNode_fields(2))
  show "OnGradientLine TLeav Slope2 st' j" if "OnGradientLine TLeav Slope2 st j"
    by (rule forE_invariant [OF assms, where P = "\<lambda>s. OnGradientLine TLeav Slope2 s j"])
      (simp_all add: that SetRoomNode_fields(3))
  have "\<forall>k \<in> set js. \<exists>RoomID. at1 (RoomNodeIDs st') k = Inr RoomID \<and>
           OnGradientLine TLeav Slope2 st' RoomID"
  proof (rule forE_each [OF assms])
    fix k t t'
    assume "SetRoomNode TLeav Slope2 k t = Inr t'"
    then show "\<exists>RoomID. at1 (RoomNodeIDs t') k = Inr RoomID \<and> OnGradientLine TLeav Slope2 t' RoomID"
      using SetRoomNode_fields(4) [of TLeav Slope2 k t t'] SetRoomNode_RoomNodeIDs [of TLeav Slope2 k t t']
      by simp
  next
    fix i k t t'
    assume "\<exists>RoomID. at1 (RoomNodeIDs t) k = Inr RoomID \<and> OnGradientLine TLeav Slope2 t RoomID"
      and "SetRoomNode TLeav Slope2 i t = Inr t'"
    then show "\<exists>RoomID. at1 (RoomNodeIDs t') k = Inr RoomID \<and> OnGradientLine TLeav Slope2 t' RoomID"
      using SetRoomNode_fields(3) [of TLeav Slope2 i t t'] SetRoomNode_RoomNodeIDs [of TLeav Slope2 i t t']
      by auto
  qed
  moreover have "RoomNodeIDs st' = RoomNodeIDs st"
    using frame by auto
  ultimately show "\<forall>k \<in> set js. \<exists>RoomID. at1 (RoomNodeIDs st) k = Inr RoomID \<and>
           OnGradientLine TLeav Slope2 st' RoomID"
    by simp
qed

text \<open>The state after the five node results and the surfaces of floor and ceiling.\<close>

lemma CalcMundtModel_InrD:
  assumes "CalcMundtModel h ZoneNum st = Inr st'"
  shows "\<exists>L st7. CalcMundtLocals h ZoneNum st = Inr L \<and>
           forE [1..NumRoomNodes st] (SetRoomNode (TLeaving L) (Slope L)) st7 = Inr st' \<and>
           (\<exists>ln ids ms. st7 = st\<lparr>LineNode := ln, TheseSurfIDs := ids, MundtAirSurf := ms\<rparr>) \<and>
           (\<forall>j. Height_of st7 j = Height_of st j) \<and>
           (\<forall>j. Temp_of st7 j =
              (if j = TstatNodeID st then Inr (TControlPoint L)
               else if j = MundtFootAirID st then Inr (TAirFoot L)
               else if j = MundtCeilAirID st then Inr (TAirCeil L)
               else if j = ReturnNodeID st then Inr (TLeaving L)
               else if j = SupplyNodeID st then Inr (SupplyAirTemp st)
               else Temp_of st j))"
proof -
  from assms obtain L st1 st2 st3 st4 st5 st6 st7 where
    L: "CalcMundtLocals h ZoneNum st = Inr L"
    and s1: "SetNodeResult (SupplyNodeID st) (SupplyAirTemp st) st = Inr st1"
    and s2: "SetNodeResult (ReturnNodeID st1) (TLeaving L) st1 = Inr st2"
    and s3: "SetNodeResult (MundtCeilAirID st2) (TAirCeil L) st2 = Inr st3"
    and s4: "SetNodeResult (MundtFootAirID st3) (TAirFoot L) st3 = Inr st4"
    and s5: "SetNodeResult (TstatNodeID st4) (TControlPoint L) st4 = Inr st5"
    and s6: "SetFloorSurfaces (TAirFoot L) st5 = Inr st6"
    and s7: "SetNodeSurfaces (MundtCeilAirID st6) (TAirCeil L) st6 = Inr st7"
    and loop: "forE [1..NumRoomNodes st7] (SetRoomNode (TLeaving L) (Slope L)) st7 = Inr st'"
    unfolding CalcMundtModel_def bindE_eq_Inr by blast
  from SetNodeResult_fields(1) [OF s1] obtain ln1 where e1: "st1 = st\<lparr>LineNode := ln1\<rparr>" by blast
  from SetNodeResult_fields(1) [OF s2] obtain ln2 where e2: "st2 = st1\<lparr>LineNode := ln2\<rparr>" by blast
  from SetNodeResult_fields(1) [OF s3] obtain ln3 where e3: "st3 = st2\<lparr>LineNode := ln3\<rparr>" by blast
  from SetNodeResult_fields(1) [OF s4] obtain ln4 where e4: "st4 = st3\<lparr>LineNode := ln4\<rparr>" by blast
  from SetNodeResult_fields(1) [OF s5] obtain ln5 where e5: "st5 = st4\<lparr>LineNode := ln5\<rparr>" by blast
  from SetFloorSurfaces_Inr [OF s6] obtain ms6 where e6: "st6 = st5\<lparr>MundtAirSurf := ms6\<rparr>" by blast
  from SetNodeSurfaces_Inr [OF s7] obtain ids7 ms7 where
    e7: "st7 = st6\<lparr>TheseSurfIDs := ids7, MundtAirSurf := ms7\<rparr>" by blast
  have e67: "st7 = st5\<lparr>TheseSurfIDs := ids7, MundtAirSurf := ms7\<rparr>"
    by (simp add: e6 e7)
  have ids: "ReturnNodeID st1 = ReturnNodeID st" "MundtCeilAirID st2 = MundtCeilAirID st"
    "MundtFootAirID st3 = MundtFootAirID st" "TstatNodeID st4 = TstatNodeID st"
    "NumRoomNodes st7 = NumRoomNodes st"
    by (simp_all add: e1 e2 e3 e4 e5 e6 e7)
  have frame: "\<exists>ln ids ms. st7 = st\<lparr>LineNode := ln, TheseSurfIDs := ids, MundtAirSurf := ms\<rparr>"
    by (rule exI [of _ ln5], rule exI [of _ ids7], rule exI [of _ ms7])
      (simp add: e1 e2 e3 e4 e5 e6 e7)
  have H: "Height_of st7 j = Height_of st j" for j
    using surfaces_frame(1) [OF e67] SetNodeResult_fields(2) [OF s5]
      SetNodeResult_fields(2) [OF s4] SetNodeResult_fields(2) [OF s3]
      SetNodeResult_fields(2) [OF s2] SetNodeResult_fields(2) [OF s1]
    by simp
  have T: "Temp_of st7 j =
              (if j = TstatNodeID st then Inr (TControlPoint L)
               else if j = MundtFootAirID st then Inr (TAirFoot L)
               else if j = MundtCeilAirID st then Inr (TAirCeil L)
               else if j = ReturnNodeID st then Inr (TLeaving L)
               else if j = SupplyNodeID st then Inr (SupplyAirTemp st)
               else Temp_of st j)" for j
    using surfaces_frame(2) [OF e67, of j] SetNodeResult_fields(3) [OF s5, of j]
      SetNodeResult_fields(3) [OF s4, of j] SetNodeResult_fields(3) [OF s3, of j]
      SetNodeResult_fields(3) [OF s2, of j] SetNodeResult_fields(3) [OF s1, of j]
    by (simp add: ids)
  from L loop frame H T show ?thesis
    unfolding ids by blast
qed

lemma CalcMundtLocals_slope_cases:
  assumes "CalcMundtLocals h ZoneNum st = Inr L"
    and "TAirFoot_Eq22 h ZoneNum st = Inr TAirFoot0"
    and "Height_of st (ReturnNodeID st) = Inr HReturn"
    and "Height_of st (MundtFootAirID st) = Inr HFoot"
  shows "MinSlope \<le> Slope L" and "Slope L \<le> MaxSlope"
    and "HReturn \<noteq> HFoot \<Longrightarrow> MaxSlope < (TLeaving L - TAirFoot0) / (HReturn - HFoot) \<Longrightarrow>
            Slope L = MaxSlope \<and> TAirFoot L = TLeaving L - Slope L * (HReturn - HFoot)"
    and "HReturn \<noteq> HFoot \<Longrightarrow> (TLeaving L - TAirFoot0) / (HReturn - HFoot) < MinSlope \<Longrightarrow>
            Slope L = MinSlope \<and> TAirFoot L = TLeaving L"
    and "HReturn \<noteq> HFoot \<Longrightarrow> MinSlope \<le> (TLeaving L - TAirFoot0) / (HReturn - HFoot) \<Longrightarrow>
          (TLeaving L - TAirFoot0) / (HReturn - HFoot) \<le> MaxSlope \<Longrightarrow>
            Slope L = (TLeaving L - TAirFoot0) / (HReturn - HFoot) \<and> TAirFoot L = TAirFoot0 \<and>
            TAirFoot L = TLeaving L - Slope L * (HReturn - HFoot)"
    and "HReturn = HFoot \<Longrightarrow>
            TAirFoot L = TLeaving L \<and> TAirFoot0 \<noteq> TLeaving L \<and>
            (TAirFoot0 < TLeaving L \<longrightarrow> Slope L = MaxSlope) \<and>
            (TLeaving L < TAirFoot0 \<longrightarrow> Slope L = MinSlope)"
proof -
  from CalcMundtLocals_InrD [OF assms(1)] assms(2-4)
  have C: "check_slope (ieee_div (TLeaving L - TAirFoot0) (HReturn - HFoot))
             TAirFoot0 (TLeaving L) HReturn HFoot = (Finite (Slope L), TAirFoot L)"
    by auto
  from check_slope_range [OF C] show "MinSlope \<le> Slope L" "Slope L \<le> MaxSlope"
    by simp_all
  note cs = check_slope_cases [of "(TLeaving L - TAirFoot0) / (HReturn - HFoot)"
      TAirFoot0 "TLeaving L" HReturn HFoot]
  note dv = ieee_div_cases [of "HReturn - HFoot" "TLeaving L - TAirFoot0"]
  show "Slope L = MaxSlope \<and> TAirFoot L = TLeaving L - Slope L * (HReturn - HFoot)"
    if "HReturn \<noteq> HFoot" "MaxSlope < (TLeaving L - TAirFoot0) / (HReturn - HFoot)"
    using cs dv C that by simp
  show "Slope L = MinSlope \<and> TAirFoot L = TLeaving L"
    if "HReturn \<noteq> HFoot" "(TLeaving L - TAirFoot0) / (HReturn - HFoot) < MinSlope"
    using cs dv C that by simp
  show "Slope L = (TLeaving L - TAirFoot0) / (HReturn - HFoot) \<and> TAirFoot L = TAirFoot0 \<and>
            TAirFoot L = TLeaving L - Slope L * (HReturn - HFoot)"
    if "HReturn \<noteq> HFoot" "MinSlope \<le> (TLeaving L - TAirFoot0) / (HReturn - HFoot)"
      and "(TLeaving L - TAirFoot0) / (HReturn - HFoot) \<le> MaxSlope"
  proof -
    from dv that(1) have "ieee_div (TLeaving L - TAirFoot0) (HReturn - HFoot) =
        Finite ((TLeaving L - TAirFoot0) / (HReturn - HFoot))"
      by simp
    moreover from cs that(2,3) have
      "check_slope (Finite ((TLeaving L - TAirFoot0) / (HReturn - HFoot)))
         TAirFoot0 (TLeaving L) HReturn HFoot =
       (Finite ((TLeaving L - TAirFoot0) / (HReturn - HFoot)), TAirFoot0)"
      by blast
    ultimately have "(Finite ((TLeaving L - TAirFoot0) / (HReturn - HFoot)), TAirFoot0) =
        (Finite (Slope L), TAirFoot L)"
      using C by (simp only:)
    then have e: "Slope L = (TLeaving L - TAirFoot0) / (HReturn - HFoot)"
      "TAirFoot L = TAirFoot0"
      by auto
    have "Slope L * (HReturn - HFoot) = TLeaving L - TAirFoot0"
      unfolding e(1) using that(1) by simp
    with e show ?thesis
      by simp
  qed
  show "TAirFoot L = TLeaving L \<and> TAirFoot0 \<noteq> TLeaving L \<and>
            (TAirFoot0 < TLeaving L \<longrightarrow> Slope L = MaxSlope) \<and>
            (TLeaving L < TAirFoot0 \<longrightarrow> Slope L = MinSlope)"
    if "HReturn = HFoot"
  proof -
    consider "TAirFoot0 < TLeaving L" | "TLeaving L < TAirFoot0" | "TAirFoot0 = TLeaving L"
      by linarith
    then show ?thesis
    proof cases
      case 1
      with that have "ieee_div (TLeaving L - TAirFoot0) (HReturn - HFoot) = PlusInf"
        by (simp add: ieee_div_def)
      with C that 1 show ?thesis
        by (simp add: check_slope_special)
    next
      case 2
      with that have "ieee_div (TLeaving L - TAirFoot0) (HReturn - HFoot) = MinusInf"
        by (simp add: ieee_div_def)
      with C that 2 show ?thesis
        by (simp add: check_slope_special)
    next
      case 3
      with that have "ieee_div (TLeaving L - TAirFoot0) (HReturn - HFoot) = NaN"
        by (simp add: ieee_div_def)
      with C show ?thesis
        by (simp add: check_slope_special)
    qed
  qed
qed

subsection \<open>The example states\<close>

lemmas ex_calc_defs =
  CalcMundtLocals_def TAirFoot_Eq22_def TLeaving_Eq23_def Height_of_def Node_of_def
  at2_def at1_def inrange_def check_slope_def ex_host_def ex_st_def ex_nodes_def
  ex_surf_def FloorSumHAT_def FloorSumHA_def CpAir_def MinSlope_def MaxSlope_def fdiv_def
  ieee_div_def quotient_gt_def quotient_lt_def

lemma ex_heights:
  "Height_of ex_st (ReturnNodeID ex_st) = Inr 2.4"
  "Height_of ex_st (MundtFootAirID ex_st) = Inr 0.1"
  "Height_of ex_st (MundtCeilAirID ex_st) = Inr 2.3"
  "Height_of ex_st (TstatNodeID ex_st) = Inr 1.1"
  "Height_of ex_st 5 = Inr 1.2"
  by (simp_all add: Height_of_def Node_of_def at2_def at1_def inrange_def ex_st_def ex_nodes_def)

lemma ex_Eq22: "TAirFoot_Eq22 ex_host 1 ex_st = Inr (213 / 14)"
  by (simp add: ex_calc_defs)

lemma ex_locals:
  "CalcMundtLocals ex_host 1 ex_st =
     Inr \<lparr>TAirFoot = 213 / 14, TAirCeil = 5757 / 322, TLeaving = 18,
          TControlPoint = 5289 / 322, Slope = 195 / 161\<rparr>"
  by (simp add: ex_calc_defs)

lemma ex_locals_off:
  "CalcMundtLocals ex_host 1 (ex_st\<lparr>QsysCoolTot := 0\<rparr>) =
     Inr \<lparr>TAirFoot = 15, TAirCeil = 15 - 0.001 * (2.4 - 2.3), TLeaving = 15,
          TControlPoint = 15 - 0.001 * (2.4 - 1.1), Slope = 0.001\<rparr>"
  by (simp add: ex_calc_defs)

lemma ex_warm_Eq22: "TAirFoot_Eq22 ex_host 1 ex_st_warm = Inr (293 / 14)"
  by (simp add: ex_calc_defs ex_st_warm_def)

lemma ex_warm_heights:
  "Height_of ex_st_warm (ReturnNodeID ex_st_warm) = Inr 2.4"
  "Height_of ex_st_warm (MundtFootAirID ex_st_warm) = Inr 0.1"
  by (simp_all add: ex_calc_defs ex_st_warm_def)

lemma ex_warm_locals:
  "CalcMundtLocals ex_host 1 ex_st_warm =
     Inr \<lparr>TAirFoot = 18, TAirCeil = 18 - 0.001 * (2.4 - 2.3), TLeaving = 18,
          TControlPoint = 18 - 0.001 * (2.4 - 1.1), Slope = 0.001\<rparr>"
  by (simp add: ex_calc_defs ex_st_warm_def)

lemma ex_hot_Eq22: "TAirFoot_Eq22 ex_host 1 ex_st_hot = Inr (213 / 14)"
  by (simp add: ex_calc_defs ex_st_hot_def)

lemma ex_hot_heights:
  "Height_of ex_st_hot (ReturnNodeID ex_st_hot) = Inr 2.4"
  "Height_of ex_st_hot (MundtFootAirID ex_st_hot) = Inr 0.1"
  by (simp_all add: ex_calc_defs ex_st_hot_def)

lemma ex_hot_locals:
  "CalcMundtLocals ex_host 1 ex_st_hot =
     Inr \<lparr>TAirFoot = 45 - 5 * (2.4 - 0.1), TAirCeil = 45 - 5 * (2.4 - 2.3), TLeaving = 45,
          TControlPoint = 45 - 5 * (2.4 - 1.1), Slope = 5\<rparr>"
  by (simp add: ex_calc_defs ex_st_hot_def)

lemma ex_fixed_heights:
  "Height_of ex_st_fixed (ReturnNodeID ex_st_fixed) = Inr 2.4"
  "Height_of ex_st_fixed (MundtFootAirID ex_st_fixed) = Inr 0.1"
  "Height_of ex_st_fixed (MundtCeilAirID ex_st_fixed) = Inr 2.3"
  "Height_of ex_st_fixed (TstatNodeID ex_st_fixed) = Inr 1.1"
  by (simp_all add: ex_calc_defs ex_st_fixed_def)

lemma ex_fixed_locals:
  "CalcMundtLocals ex_host_fixed 1 ex_st_fixed =
     Inr \<lparr>TAirFoot = 15, TAirCeil = 1205 / 67 - 2000 / 1541 * (2.4 - 2.3),
          TLeaving = 1205 / 67, TControlPoint = 1205 / 67 - 2000 / 1541 * (2.4 - 1.1),
          Slope = 2000 / 1541\<rparr>"
  by (simp add: ex_calc_defs ex_st_fixed_def ex_host_fixed_def)






lemmas ex_model_defs =
  CalcMundtModel_def SetNodeResult_def SetSurfTmeanAir_def SetFloorSurfaces_def
  SetNodeSurfaces_def SetRoomNode_def upd2_def upd1_def count_def pack_def Temp_of_def Let_def

lemma ex_solved: "CalcMundtModel ex_host 1 ex_st = Inr ex_st_solved"
  by (simp add: ex_model_defs ex_calc_defs ex_st_solved_def)

lemma ex_warm_solved: "CalcMundtModel ex_host 1 ex_st_warm = Inr ex_st_warm_solved"
  by (simp add: ex_model_defs ex_calc_defs ex_st_warm_def ex_st_warm_solved_def)


subsection \<open>The stratification solve\<close>

text \<open>Claim C2. In the solve, the temperature of the leaving air is the supply air
  temperature whenever the total cooling load is not positive; otherwise it is the supply
  air temperature plus the load divided by the thermal capacity rate of the zone (air
  density times specific heat times supply volume flow), which is then not zero.\<close>

theorem CalcMundtLocals_TLeaving:
  assumes "CalcMundtLocals h ZoneNum st = Inr L"
  shows "(QsysCoolTot st \<le> 0 \<longrightarrow> TLeaving L = SupplyAirTemp st) \<and>
         (0 < QsysCoolTot st \<longrightarrow>
            ZoneAirDensity st * CpAir * SupplyAirVolumeRate st \<noteq> 0 \<and>
            TLeaving L =
              SupplyAirTemp st
                + QsysCoolTot st / (ZoneAirDensity st * CpAir * SupplyAirVolumeRate st))"
proof -
  from CalcMundtLocals_InrD [OF assms] obtain TLeav where
    "TLeaving_Eq23 st = Inr TLeav" and "TLeaving L = TLeav"
    by blast
  with TLeaving_Eq23_InrD [of st TLeav] show ?thesis
    by (simp add: add.commute)
qed

theorem CalcMundtLocals_TLeaving_witness:
  "CalcMundtLocals ex_host 1 ex_st =
     Inr \<lparr>TAirFoot = 213 / 14, TAirCeil = 5757 / 322, TLeaving = 18,
          TControlPoint = 5289 / 322, Slope = 195 / 161\<rparr> \<and>
   0 < QsysCoolTot ex_st \<and>
   (18 :: real) = SupplyAirTemp ex_st
      + QsysCoolTot ex_st / (ZoneAirDensity ex_st * CpAir * SupplyAirVolumeRate ex_st) \<and>
   CalcMundtLocals ex_host 1 (ex_st\<lparr>QsysCoolTot := 0\<rparr>) =
     Inr \<lparr>TAirFoot = 15, TAirCeil = 15 - 0.001 * (2.4 - 2.3), TLeaving = 15,
          TControlPoint = 15 - 0.001 * (2.4 - 1.1), Slope = 0.001\<rparr> \<and>
   QsysCoolTot (ex_st\<lparr>QsysCoolTot := 0\<rparr>) \<le> 0 \<and>
   (15 :: real) = SupplyAirTemp (ex_st\<lparr>QsysCoolTot := 0\<rparr>)"
  using CalcMundtLocals_TLeaving [OF ex_locals] CalcMundtLocals_TLeaving [OF ex_locals_off]
    ex_locals ex_locals_off
  by (simp add: ex_st_def)

text \<open>Claim C3, as amended. After the check of the slope, \<open>Slope\<close> lies between
  \<open>MinSlope\<close> and \<open>MaxSlope\<close>. With the Return node and the Floor node at different
  heights: when the raw slope exceeds \<open>MaxSlope\<close>, the floor air temperature is
  recomputed from the leaving temperature and the clamped slope; when the raw slope is
  below \<open>MinSlope\<close>, the floor air temperature is set to the leaving temperature itself
  (not to the point of the clamped line at the floor height); a raw slope inside the
  bounds is kept, together with the floor air temperature of the energy balance. With
  the two nodes at the same height the raw slope is an infinity, which the check clamps
  in the same way: the floor air temperature is then the leaving temperature.\<close>

theorem CalcMundtLocals_Slope:
  assumes "CalcMundtLocals h ZoneNum st = Inr L"
    and "TAirFoot_Eq22 h ZoneNum st = Inr TAirFoot0"
    and "Height_of st (ReturnNodeID st) = Inr HReturn"
    and "Height_of st (MundtFootAirID st) = Inr HFoot"
  shows "MinSlope \<le> Slope L \<and> Slope L \<le> MaxSlope \<and>
         (HReturn \<noteq> HFoot \<longrightarrow>
            (MaxSlope < (TLeaving L - TAirFoot0) / (HReturn - HFoot) \<longrightarrow>
               Slope L = MaxSlope \<and> TAirFoot L = TLeaving L - Slope L * (HReturn - HFoot)) \<and>
            ((TLeaving L - TAirFoot0) / (HReturn - HFoot) < MinSlope \<longrightarrow>
               Slope L = MinSlope \<and> TAirFoot L = TLeaving L) \<and>
            (MinSlope \<le> (TLeaving L - TAirFoot0) / (HReturn - HFoot) \<and>
             (TLeaving L - TAirFoot0) / (HReturn - HFoot) \<le> MaxSlope \<longrightarrow>
               Slope L = (TLeaving L - TAirFoot0) / (HReturn - HFoot) \<and>
               TAirFoot L = TAirFoot0 \<and>
               TAirFoot L = TLeaving L - Slope L * (HReturn - HFoot))) \<and>
         (HReturn = HFoot \<longrightarrow>
            TAirFoot L = TLeaving L \<and>
            (TAirFoot0 < TLeaving L \<longrightarrow> Slope L = MaxSlope) \<and>
            (TLeaving L < TAirFoot0 \<longrightarrow> Slope L = MinSlope))"
proof -
  note sc = CalcMundtLocals_slope_cases [OF assms]
  have range: "MinSlope \<le> Slope L \<and> Slope L \<le> MaxSlope"
    using sc(1,2) by simp
  have hi: "MaxSlope < (TLeaving L - TAirFoot0) / (HReturn - HFoot) \<longrightarrow>
            Slope L = MaxSlope \<and> TAirFoot L = TLeaving L - Slope L * (HReturn - HFoot)"
    if "HReturn \<noteq> HFoot"
    using sc(3) [OF that] by blast
  have lo: "(TLeaving L - TAirFoot0) / (HReturn - HFoot) < MinSlope \<longrightarrow>
            Slope L = MinSlope \<and> TAirFoot L = TLeaving L"
    if "HReturn \<noteq> HFoot"
    using sc(4) [OF that] by blast
  have mid: "MinSlope \<le> (TLeaving L - TAirFoot0) / (HReturn - HFoot) \<and>
          (TLeaving L - TAirFoot0) / (HReturn - HFoot) \<le> MaxSlope \<longrightarrow>
            Slope L = (TLeaving L - TAirFoot0) / (HReturn - HFoot) \<and> TAirFoot L = TAirFoot0 \<and>
            TAirFoot L = TLeaving L - Slope L * (HReturn - HFoot)"
    if "HReturn \<noteq> HFoot"
    using sc(5) [OF that] by blast
  have flat: "TAirFoot L = TLeaving L \<and>
            (TAirFoot0 < TLeaving L \<longrightarrow> Slope L = MaxSlope) \<and>
            (TLeaving L < TAirFoot0 \<longrightarrow> Slope L = MinSlope)"
    if "HReturn = HFoot"
    using sc(6) [OF that] by blast
  from range hi lo mid flat show ?thesis by blast
qed

theorem CalcMundtLocals_Slope_witness:
  "CalcMundtLocals ex_host 1 ex_st =
     Inr \<lparr>TAirFoot = 213 / 14, TAirCeil = 5757 / 322, TLeaving = 18,
          TControlPoint = 5289 / 322, Slope = 195 / 161\<rparr> \<and>
   MinSlope \<le> (18 - 213 / 14) / (2.4 - 0.1) \<and> (18 - 213 / 14) / (2.4 - 0.1) \<le> MaxSlope \<and>
   (195 / 161 :: real) = (18 - 213 / 14) / (2.4 - 0.1) \<and>
   CalcMundtLocals ex_host 1 ex_st_warm =
     Inr \<lparr>TAirFoot = 18, TAirCeil = 18 - 0.001 * (2.4 - 2.3), TLeaving = 18,
          TControlPoint = 18 - 0.001 * (2.4 - 1.1), Slope = 0.001\<rparr> \<and>
   (18 - 293 / 14) / (2.4 - 0.1) < MinSlope \<and> MinSlope = 0.001 \<and>
   CalcMundtLocals ex_host 1 ex_st_hot =
     Inr \<lparr>TAirFoot = 45 - 5 * (2.4 - 0.1), TAirCeil = 45 - 5 * (2.4 - 2.3), TLeaving = 45,
          TControlPoint = 45 - 5 * (2.4 - 1.1), Slope = 5\<rparr> \<and>
   MaxSlope < (45 - 213 / 14) / (2.4 - 0.1) \<and> MaxSlope = 5"
  using CalcMundtLocals_Slope [OF ex_locals ex_Eq22 ex_heights(1,2)]
    CalcMundtLocals_Slope [OF ex_warm_locals ex_warm_Eq22 ex_warm_heights]
    CalcMundtLocals_Slope [OF ex_hot_locals ex_hot_Eq22 ex_hot_heights]
    ex_locals ex_warm_locals ex_hot_locals
  by (simp add: MinSlope_def MaxSlope_def)

text \<open>The claim as stated fails where the raw slope is below \<open>MinSlope\<close>: with the
  floor air warmer (293/14 C) than the leaving air (18 C) the slope is set to 0.001 and
  the floor air temperature to 18 C, which is not \<open>18 - 0.001 * (2.4 - 0.1)\<close>.\<close>

theorem CalcMundtLocals_Slope_counterexample:
  "TAirFoot_Eq22 ex_host 1 ex_st_warm = Inr (293 / 14) \<and>
   Height_of ex_st_warm (ReturnNodeID ex_st_warm) = Inr 2.4 \<and>
   Height_of ex_st_warm (MundtFootAirID ex_st_warm) = Inr 0.1 \<and>
   CalcMundtLocals ex_host 1 ex_st_warm =
     Inr \<lparr>TAirFoot = 18, TAirCeil = 18 - 0.001 * (2.4 - 2.3), TLeaving = 18,
          TControlPoint = 18 - 0.001 * (2.4 - 1.1), Slope = 0.001\<rparr> \<and>
   (18 - 293 / 14) / (2.4 - 0.1) < MinSlope \<and>
   (18 :: real) \<noteq> 18 - 0.001 * (2.4 - 0.1)"
  using ex_warm_Eq22 ex_warm_heights ex_warm_locals by (simp add: MinSlope_def)

text \<open>Claim C6, as amended. In the fixed scenario (supply temperature 15 C, supply volume
  flow 0.5 at density 1, cooling load 1500 W, no floor gain apportionment, floor surfaces
  without film conductance, Return height 2.4 m, Floor height 0.1 m) the floor air
  temperature is the supply temperature (the energy balance with no floor surface term),
  the leaving temperature is \<open>15 + 1500 / (1005 * 0.5)\<close>, so the two differ, and the slope
  is their difference divided by 2.3, which lies inside the bounds.\<close>

theorem CalcMundtLocals_fixed_scenario:
  assumes "SupplyAirTemp st = 15" and "SupplyAirVolumeRate st = 0.5"
    and "ZoneAirDensity st = 1" and "QsysCoolTot st = 1500"
    and "ConvectiveFloorSplit h ZoneNum = 0" and "InfiltratFloorSplit h ZoneNum = 0"
    and "\<forall>f \<in> set (FloorSurf st). Area f * Hc f = 0"
    and "Height_of st (ReturnNodeID st) = Inr 2.4"
    and "Height_of st (MundtFootAirID st) = Inr 0.1"
    and "Height_of st (MundtCeilAirID st) = Inr HCeil"
    and "Height_of st (TstatNodeID st) = Inr HTstat"
  shows "\<exists>L. CalcMundtLocals h ZoneNum st = Inr L \<and>
           TAirFoot L = SupplyAirTemp st \<and>
           TLeaving L = 15 + 1500 / (1005 * 0.5) \<and>
           TAirFoot L \<noteq> TLeaving L \<and>
           Slope L = (TLeaving L - TAirFoot L) / 2.3 \<and>
           MinSlope \<le> Slope L \<and> Slope L \<le> MaxSlope"
proof -
  have HA: "FloorSumHA st = 0"
    unfolding FloorSumHA_def using assms(7) by (rule sum_list_all_zero)
  have "\<forall>f \<in> set (FloorSurf st). Area f * Hc f * SurfTemp f = 0"
    using assms(7) by simp
  then have HAT: "FloorSumHAT st = 0"
    unfolding FloorSumHAT_def by (rule sum_list_all_zero)
  have foot: "TAirFoot_Eq22 h ZoneNum st = Inr 15"
    by (simp add: TAirFoot_Eq22_def HA HAT assms(1-6) CpAir_def fdiv_def)
  have leav: "TLeaving_Eq23 st = Inr (15 + 1500 / (1005 * 0.5))"
    by (simp add: TLeaving_Eq23_def assms(1-4) CpAir_def fdiv_def)
  show ?thesis
    by (simp add: CalcMundtLocals_def foot leav assms(1,8-11) ieee_div_def check_slope_def
        quotient_gt_def quotient_lt_def MinSlope_def MaxSlope_def)
qed

theorem CalcMundtLocals_fixed_scenario_witness:
  "SupplyAirTemp ex_st_fixed = 15 \<and> SupplyAirVolumeRate ex_st_fixed = 0.5 \<and>
   ZoneAirDensity ex_st_fixed = 1 \<and> QsysCoolTot ex_st_fixed = 1500 \<and>
   ConvectiveFloorSplit ex_host_fixed 1 = 0 \<and> InfiltratFloorSplit ex_host_fixed 1 = 0 \<and>
   list_all (\<lambda>f. Area f * Hc f = 0) (FloorSurf ex_st_fixed) \<and>
   (\<exists>L. CalcMundtLocals ex_host_fixed 1 ex_st_fixed = Inr L \<and>
        TAirFoot L = 15 \<and> TLeaving L = 1205 / 67 \<and> Slope L = 2000 / 1541)"
proof -
  have a: "SupplyAirTemp ex_st_fixed = 15" "SupplyAirVolumeRate ex_st_fixed = 0.5"
    "ZoneAirDensity ex_st_fixed = 1" "QsysCoolTot ex_st_fixed = 1500"
    "ConvectiveFloorSplit ex_host_fixed 1 = 0" "InfiltratFloorSplit ex_host_fixed 1 = 0"
    by (simp_all add: ex_st_fixed_def ex_st_def ex_host_fixed_def)
  have b: "\<forall>f \<in> set (FloorSurf ex_st_fixed). Area f * Hc f = 0"
    by (simp add: ex_st_fixed_def ex_st_def)
  from CalcMundtLocals_fixed_scenario [OF a b ex_fixed_heights]
  obtain L where "CalcMundtLocals ex_host_fixed 1 ex_st_fixed = Inr L"
    and "TAirFoot L = SupplyAirTemp ex_st_fixed" and "TLeaving L = 15 + 1500 / (1005 * 0.5)"
    and "Slope L = (TLeaving L - TAirFoot L) / 2.3"
    by blast
  then have "CalcMundtLocals ex_host_fixed 1 ex_st_fixed = Inr L \<and>
        TAirFoot L = 15 \<and> TLeaving L = 1205 / 67 \<and> Slope L = 2000 / 1541"
    by (simp add: a)
  with a b show ?thesis
    by (auto simp: list_all_iff)
qed

text \<open>The claim as stated asks for the floor air temperature to equal the leaving
  temperature; in the scenario they are 15 C and 1205/67 C.\<close>

theorem CalcMundtLocals_fixed_scenario_counterexample:
  "SupplyAirTemp ex_st_fixed = 15 \<and> SupplyAirVolumeRate ex_st_fixed = 0.5 \<and>
   ZoneAirDensity ex_st_fixed = 1 \<and> QsysCoolTot ex_st_fixed = 1500 \<and>
   ConvectiveFloorSplit ex_host_fixed 1 = 0 \<and> InfiltratFloorSplit ex_host_fixed 1 = 0 \<and>
   FloorSumHA ex_st_fixed = 0 \<and> FloorSumHAT ex_st_fixed = 0 \<and>
   Height_of ex_st_fixed (ReturnNodeID ex_st_fixed) = Inr 2.4 \<and>
   Height_of ex_st_fixed (MundtFootAirID ex_st_fixed) = Inr 0.1 \<and>
   CalcMundtLocals ex_host_fixed 1 ex_st_fixed =
     Inr \<lparr>TAirFoot = 15, TAirCeil = 1205 / 67 - 2000 / 1541 * (2.4 - 2.3),
          TLeaving = 1205 / 67, TControlPoint = 1205 / 67 - 2000 / 1541 * (2.4 - 1.1),
          Slope = 2000 / 1541\<rparr> \<and>
   (15 :: real) \<noteq> 1205 / 67"
  using ex_fixed_heights(1,2) ex_fixed_locals
  by (simp add: ex_st_fixed_def ex_st_def ex_host_fixed_def ex_surf_def FloorSumHA_def
      FloorSumHAT_def)




text \<open>Claim C1. Whenever the solve returns, the Ceiling node, the Control node and every
  Room node hold a temperature on one line, \<open>T(h) = TLeaving - Slope * (ReturnHeight - h)\<close>,
  each at its own height, with the same slope and the height of the Return node as
  anchor. (The node bound as Ceiling is supposed not to be the node bound as Floor, whose
  result is written after it.)\<close>

theorem CalcMundtModel_gradient_line:
  assumes "CalcMundtModel h ZoneNum st = Inr st'"
    and "MundtCeilAirID st \<noteq> MundtFootAirID st"
  shows "\<exists>L. CalcMundtLocals h ZoneNum st = Inr L \<and>
           OnGradientLine (TLeaving L) (Slope L) st' (MundtCeilAirID st) \<and>
           OnGradientLine (TLeaving L) (Slope L) st' (TstatNodeID st) \<and>
           (\<forall>k \<in> {1..NumRoomNodes st}. \<exists>RoomID.
               at1 (RoomNodeIDs st) k = Inr RoomID \<and>
               OnGradientLine (TLeaving L) (Slope L) st' RoomID) \<and>
           ReturnNodeID st' = ReturnNodeID st \<and>
           (\<forall>j. Height_of st' j = Height_of st j)"
proof -
  from CalcMundtModel_InrD [OF assms(1)] obtain L st7 where
    L: "CalcMundtLocals h ZoneNum st = Inr L"
    and loop: "forE [1..NumRoomNodes st] (SetRoomNode (TLeaving L) (Slope L)) st7 = Inr st'"
    and frame: "\<exists>ln ids ms. st7 = st\<lparr>LineNode := ln, TheseSurfIDs := ids, MundtAirSurf := ms\<rparr>"
    and H: "\<And>j. Height_of st7 j = Height_of st j"
    and T: "\<And>j. Temp_of st7 j =
              (if j = TstatNodeID st then Inr (TControlPoint L)
               else if j = MundtFootAirID st then Inr (TAirFoot L)
               else if j = MundtCeilAirID st then Inr (TAirCeil L)
               else if j = ReturnNodeID st then Inr (TLeaving L)
               else if j = SupplyNodeID st then Inr (SupplyAirTemp st)
               else Temp_of st j)"
    by blast
  from CalcMundtLocals_InrD [OF L] obtain HReturn HCeil HTstat where
    HR: "Height_of st (ReturnNodeID st) = Inr HReturn"
    and HC: "Height_of st (MundtCeilAirID st) = Inr HCeil"
    and HT: "Height_of st (TstatNodeID st) = Inr HTstat"
    and TC: "TAirCeil L = TLeaving L - (Slope L * (HReturn - HCeil))"
    and TT: "TControlPoint L = TLeaving L - (Slope L * (HReturn - HTstat))"
    by auto
  have ids7: "ReturnNodeID st7 = ReturnNodeID st" "RoomNodeIDs st7 = RoomNodeIDs st"
    using frame by auto
  have ceil7: "OnGradientLine (TLeaving L) (Slope L) st7 (MundtCeilAirID st)"
    using assms(2) HR HC HT TC TT by (auto simp: OnGradientLine_iff ids7 H T)
  have tstat7: "OnGradientLine (TLeaving L) (Slope L) st7 (TstatNodeID st)"
    using HR HT TT by (simp add: OnGradientLine_iff ids7 H T)
  have ret': "ReturnNodeID st' = ReturnNodeID st"
    using RoomLoop_fields(1) [OF loop] ids7 by auto
  have H': "Height_of st' j = Height_of st j" for j
    using RoomLoop_fields(2) [OF loop] H by simp
  have rooms: "\<forall>k \<in> {1..NumRoomNodes st}. \<exists>RoomID.
               at1 (RoomNodeIDs st) k = Inr RoomID \<and>
               OnGradientLine (TLeaving L) (Slope L) st' RoomID"
    using RoomLoop_fields(4) [OF loop] by (simp add: ids7)
  from L RoomLoop_fields(3) [OF loop ceil7] RoomLoop_fields(3) [OF loop tstat7] rooms ret' H'
  show ?thesis by blast
qed

theorem CalcMundtModel_gradient_line_witness:
  "CalcMundtModel ex_host 1 ex_st = Inr ex_st_solved \<and>
   MundtCeilAirID ex_st \<noteq> MundtFootAirID ex_st \<and>
   CalcMundtLocals ex_host 1 ex_st =
     Inr \<lparr>TAirFoot = 213 / 14, TAirCeil = 5757 / 322, TLeaving = 18,
          TControlPoint = 5289 / 322, Slope = 195 / 161\<rparr> \<and>
   OnGradientLine 18 (195 / 161) ex_st_solved 4 \<and>
   OnGradientLine 18 (195 / 161) ex_st_solved 3 \<and>
   NumRoomNodes ex_st = 1 \<and> at1 (RoomNodeIDs ex_st) 1 = Inr 5 \<and>
   OnGradientLine 18 (195 / 161) ex_st_solved 5 \<and>
   Temp_of ex_st_solved 5 = Inr (18 - 195 / 161 * (2.4 - 1.2))"
proof -
  have ne: "MundtCeilAirID ex_st \<noteq> MundtFootAirID ex_st"
    by (simp add: ex_st_def)
  from CalcMundtModel_gradient_line [OF ex_solved ne] ex_locals
  have "OnGradientLine 18 (195 / 161) ex_st_solved (MundtCeilAirID ex_st) \<and>
        OnGradientLine 18 (195 / 161) ex_st_solved (TstatNodeID ex_st) \<and>
        (\<forall>k \<in> {1..NumRoomNodes ex_st}. \<exists>RoomID.
            at1 (RoomNodeIDs ex_st) k = Inr RoomID \<and>
            OnGradientLine 18 (195 / 161) ex_st_solved RoomID)"
    by auto
  then have "OnGradientLine 18 (195 / 161) ex_st_solved 4 \<and>
             OnGradientLine 18 (195 / 161) ex_st_solved 3 \<and>
             OnGradientLine 18 (195 / 161) ex_st_solved 5"
    by (simp add: ex_st_def at1_def inrange_def)
  moreover have "Temp_of ex_st_solved 5 = Inr (18 - 195 / 161 * (2.4 - 1.2))"
    by (simp add: Temp_of_def Node_of_def at2_def at1_def inrange_def ex_st_solved_def
        ex_st_def ex_nodes_def)
  moreover have "NumRoomNodes ex_st = 1 \<and> at1 (RoomNodeIDs ex_st) 1 = Inr 5"
    by (simp add: ex_st_def at1_def inrange_def)
  ultimately show ?thesis
    using ex_solved ne ex_locals by simp
qed

text \<open>Claim C5, as amended. For a solved zone with a single Room node whose height lies
  between the heights of the Floor and Ceiling nodes, the Return node being at or above
  the Ceiling node: the Room temperature never exceeds the Ceiling temperature. With
  the Return node above the Floor node, it is at least the Floor temperature whenever
  the raw slope is not below \<open>MinSlope\<close>; when the raw slope is below \<open>MinSlope\<close>,
  the Floor temperature is the leaving temperature and the Room temperature lies
  \<open>MinSlope * (ReturnHeight - RoomHeight)\<close> below it. With the Return node at the height
  of the Floor node (all four nodes are then at one height), the Room, Floor and Ceiling
  temperatures are equal.\<close>

theorem CalcMundtModel_room_between:
  assumes "CalcMundtModel h ZoneNum st = Inr st'"
    and "NumRoomNodes st = 1" and "at1 (RoomNodeIDs st) 1 = Inr RoomID"
    and "TAirFoot_Eq22 h ZoneNum st = Inr TAirFoot0"
    and "Height_of st (ReturnNodeID st) = Inr HReturn"
    and "Height_of st (MundtFootAirID st) = Inr HFoot"
    and "Height_of st (MundtCeilAirID st) = Inr HCeil"
    and "Height_of st RoomID = Inr HRoom"
    and "HFoot \<le> HRoom" and "HRoom \<le> HCeil" and "HCeil \<le> HReturn"
  shows "\<exists>L TRoom. CalcMundtLocals h ZoneNum st = Inr L \<and> Temp_of st' RoomID = Inr TRoom \<and>
           TRoom \<le> TAirCeil L \<and>
           (HReturn \<noteq> HFoot \<longrightarrow>
              (MinSlope \<le> (TLeaving L - TAirFoot0) / (HReturn - HFoot) \<longrightarrow>
                 TAirFoot L \<le> TRoom) \<and>
              ((TLeaving L - TAirFoot0) / (HReturn - HFoot) < MinSlope \<longrightarrow>
                 TAirFoot L = TLeaving L \<and>
                 TRoom = TAirFoot L - MinSlope * (HReturn - HRoom))) \<and>
           (HReturn = HFoot \<longrightarrow> TRoom = TAirFoot L \<and> TRoom = TAirCeil L)"
proof -
  from CalcMundtModel_InrD [OF assms(1)] obtain L st7 where
    L: "CalcMundtLocals h ZoneNum st = Inr L"
    and loop: "forE [1..NumRoomNodes st] (SetRoomNode (TLeaving L) (Slope L)) st7 = Inr st'"
    and frame: "\<exists>ln ids ms. st7 = st\<lparr>LineNode := ln, TheseSurfIDs := ids, MundtAirSurf := ms\<rparr>"
    and H: "\<And>j. Height_of st7 j = Height_of st j"
    by blast
  have ids7: "ReturnNodeID st7 = ReturnNodeID st" "RoomNodeIDs st7 = RoomNodeIDs st"
    using frame by auto
  have ret': "ReturnNodeID st' = ReturnNodeID st"
    using RoomLoop_fields(1) [OF loop] ids7 by auto
  have H': "Height_of st' j = Height_of st j" for j
    using RoomLoop_fields(2) [OF loop] H by simp
  have "OnGradientLine (TLeaving L) (Slope L) st' RoomID"
    using RoomLoop_fields(4) [OF loop] assms(2,3) by (simp add: ids7)
  then have TRoom: "Temp_of st' RoomID = Inr (TLeaving L - Slope L * (HReturn - HRoom))"
    using assms(5,8) by (auto simp: OnGradientLine_iff ret' H')
  from CalcMundtLocals_InrD [OF L] assms(5,7)
  have TC: "TAirCeil L = TLeaving L - (Slope L * (HReturn - HCeil))"
    by auto
  note sc = CalcMundtLocals_slope_cases [OF L assms(4,5,6)]
  have pos: "0 < Slope L"
    using sc(1) by (simp add: MinSlope_def)
  have up: "TLeaving L - Slope L * (HReturn - HRoom) \<le> TAirCeil L"
    unfolding TC using pos assms(10) by simp
  have on_line: "TAirFoot L \<le> TLeaving L - Slope L * (HReturn - HRoom)"
    if "TAirFoot L = TLeaving L - Slope L * (HReturn - HFoot)"
    unfolding that using pos assms(9) by simp
  have low: "TAirFoot L \<le> TLeaving L - Slope L * (HReturn - HRoom)"
    if ne: "HReturn \<noteq> HFoot" and "MinSlope \<le> (TLeaving L - TAirFoot0) / (HReturn - HFoot)"
  proof (cases "(TLeaving L - TAirFoot0) / (HReturn - HFoot) \<le> MaxSlope")
    case True
    then show ?thesis using sc(5) [OF ne that(2)] on_line by blast
  next
    case False
    then have "MaxSlope < (TLeaving L - TAirFoot0) / (HReturn - HFoot)" by simp
    from sc(3) [OF ne this] show ?thesis using on_line by blast
  qed
  have clamp: "TAirFoot L = TLeaving L \<and>
      TLeaving L - Slope L * (HReturn - HRoom) = TAirFoot L - MinSlope * (HReturn - HRoom)"
    if "HReturn \<noteq> HFoot" "(TLeaving L - TAirFoot0) / (HReturn - HFoot) < MinSlope"
    using sc(4) [OF that] by simp
  have flat: "TLeaving L - Slope L * (HReturn - HRoom) = TAirFoot L \<and>
      TLeaving L - Slope L * (HReturn - HRoom) = TAirCeil L"
    if "HReturn = HFoot"
  proof -
    from that assms(9,10,11) have "HRoom = HReturn" "HCeil = HReturn"
      by simp_all
    with sc(6) [OF that] TC show ?thesis
      by simp
  qed
  from L TRoom up low clamp flat show ?thesis by blast
qed

theorem CalcMundtModel_room_between_witness:
  "CalcMundtModel ex_host 1 ex_st = Inr ex_st_solved \<and>
   NumRoomNodes ex_st = 1 \<and> at1 (RoomNodeIDs ex_st) 1 = Inr 5 \<and>
   TAirFoot_Eq22 ex_host 1 ex_st = Inr (213 / 14) \<and>
   Height_of ex_st (ReturnNodeID ex_st) = Inr 2.4 \<and>
   Height_of ex_st (MundtFootAirID ex_st) = Inr 0.1 \<and>
   Height_of ex_st (MundtCeilAirID ex_st) = Inr 2.3 \<and>
   Height_of ex_st 5 = Inr 1.2 \<and>
   (0.1 :: real) \<le> 1.2 \<and> (1.2 :: real) \<le> 2.3 \<and> (2.3 :: real) \<le> 2.4 \<and>
   MinSlope \<le> (18 - 213 / 14) / (2.4 - 0.1) \<and>
   Temp_of ex_st_solved 5 = Inr (2664 / 161) \<and>
   (213 / 14 :: real) \<le> 2664 / 161 \<and> (2664 / 161 :: real) \<le> 5757 / 322"
proof -
  have a: "NumRoomNodes ex_st = 1" "at1 (RoomNodeIDs ex_st) 1 = Inr 5"
    by (simp_all add: ex_st_def at1_def inrange_def)
  have b: "(0.1 :: real) \<le> 1.2" "(1.2 :: real) \<le> 2.3" "(2.3 :: real) \<le> 2.4"
    by simp_all
  from CalcMundtModel_room_between [OF ex_solved a ex_Eq22 ex_heights(1,2,3,5) b] ex_locals
  obtain TRoom where "Temp_of ex_st_solved 5 = Inr TRoom" and "TRoom \<le> 5757 / 322"
    and "MinSlope \<le> (18 - 213 / 14) / (2.4 - 0.1) \<longrightarrow> 213 / 14 \<le> TRoom"
    by auto
  moreover have "Temp_of ex_st_solved 5 = Inr (2664 / 161)"
    by (simp add: Temp_of_def Node_of_def at2_def at1_def inrange_def ex_st_solved_def
        ex_st_def ex_nodes_def)
  moreover have "MinSlope \<le> (18 - 213 / 14) / (2.4 - 0.1)"
    by (simp add: MinSlope_def)
  ultimately show ?thesis
    using ex_solved a ex_Eq22 ex_heights(1,2,3,5) by simp
qed

text \<open>The claim as stated fails after the clamp to \<open>MinSlope\<close>: in the example with a
  warm floor the single Room node (height 1.2 m between 0.1 m and 2.3 m, Return at 2.4 m)
  is solved to 17.9988 C, below both the Floor temperature (18 C) and the Ceiling
  temperature (17.9999 C).\<close>

theorem CalcMundtModel_room_between_counterexample:
  "CalcMundtModel ex_host 1 ex_st_warm = Inr ex_st_warm_solved \<and>
   CalcMundtLocals ex_host 1 ex_st_warm =
     Inr \<lparr>TAirFoot = 18, TAirCeil = 18 - 0.001 * (2.4 - 2.3), TLeaving = 18,
          TControlPoint = 18 - 0.001 * (2.4 - 1.1), Slope = 0.001\<rparr> \<and>
   NumRoomNodes ex_st_warm = 1 \<and> at1 (RoomNodeIDs ex_st_warm) 1 = Inr 5 \<and>
   Height_of ex_st_warm (ReturnNodeID ex_st_warm) = Inr 2.4 \<and>
   Height_of ex_st_warm (MundtFootAirID ex_st_warm) = Inr 0.1 \<and>
   Height_of ex_st_warm (MundtCeilAirID ex_st_warm) = Inr 2.3 \<and>
   Height_of ex_st_warm 5 = Inr 1.2 \<and>
   Temp_of ex_st_warm_solved 5 = Inr (44997 / 2500) \<and>
   Temp_of ex_st_warm_solved (MundtFootAirID ex_st_warm) = Inr 18 \<and>
   Temp_of ex_st_warm_solved (MundtCeilAirID ex_st_warm) = Inr (179999 / 10000) \<and>
   (44997 / 2500 :: real) < 18 \<and> (44997 / 2500 :: real) < 179999 / 10000"
  using ex_warm_solved ex_warm_locals
  by (simp add: Temp_of_def Height_of_def Node_of_def at2_def at1_def inrange_def
      ex_st_warm_solved_def ex_st_warm_def ex_st_def ex_nodes_def)

subsection \<open>The transfer of data and the set-up of the roles\<close>

lemma upd1_map_same:
  assumes "upd1 xs i f = Inr ys" and "\<And>x. g (f x) = g x"
  shows "map g ys = map g xs"
  using assms by (auto simp: upd1_Inr map_update list_update_same_conv inrange_def)

lemma upd2_map_same:
  assumes "upd2 xss i j f = Inr yss" and "\<And>x. g (f x) = g x"
  shows "map (map g) yss = map (map g) xss"
proof -
  from assms(1) obtain row row' where row: "at1 xss i = Inr row"
    and row': "upd1 row j f = Inr row'" and yss: "upd1 xss i (\<lambda>_. row') = Inr yss"
    by (auto simp: upd2_def bindE_eq_Inr)
  have "map g row' = map g row"
    by (rule upd1_map_same [where g = g, OF row']) (rule assms(2))
  then show ?thesis
    using row yss by (auto simp: upd1_Inr at1_Inr map_update list_update_same_conv inrange_def)
qed

lemma GetSurf_fields:
  assumes "GetSurf h ZoneNum SurfNum st = Inr st'"
  shows "\<exists>ms. st' = st\<lparr>MundtAirSurf := ms\<rparr>"
    and "map (map TMeanAir) (MundtAirSurf st') = map (map TMeanAir) (MundtAirSurf st)"
    and "map (map Area) (MundtAirSurf st') = map (map Area) (MundtAirSurf st)"
proof -
  from assms obtain zd :: DefineZoneData and ms where
    u: "upd2 (MundtAirSurf st) (MundtZoneNum st) SurfNum
              (\<lambda>s. s\<lparr>SurfTemp := TempSurfIn h (SurfFirst zd + SurfNum - 1),
                      Hc := HConvIn h (SurfFirst zd + SurfNum - 1)\<rparr>) = Inr ms"
    and st': "st' = st\<lparr>MundtAirSurf := ms\<rparr>"
    by (auto simp: GetSurf_def bindE_eq_Inr)
  show "\<exists>ms. st' = st\<lparr>MundtAirSurf := ms\<rparr>" using st' by blast
  show "map (map TMeanAir) (MundtAirSurf st') = map (map TMeanAir) (MundtAirSurf st)"
    using upd2_map_same [OF u, of TMeanAir] by (simp add: st')
  show "map (map Area) (MundtAirSurf st') = map (map Area) (MundtAirSurf st)"
    using upd2_map_same [OF u, of Area] by (simp add: st')
qed

lemma GetSurfHBDataForMundtModel_fields:
  assumes "GetSurfHBDataForMundtModel h ZoneNum st = Inr st'"
  shows "LineNode st' = LineNode st" and "ZoneData st' = ZoneData st"
    and "MundtZoneNum st' = MundtZoneNum st"
    and "map (map TMeanAir) (MundtAirSurf st') = map (map TMeanAir) (MundtAirSurf st)"
    and "map (map Area) (MundtAirSurf st') = map (map Area) (MundtAirSurf st)"
proof -
  from assms obtain st3 n where
    loop: "forE [1..n] (GetSurf h ZoneNum) st3 = Inr st'"
    and l3: "LineNode st3 = LineNode st" and z3: "ZoneData st3 = ZoneData st"
    and m3: "MundtAirSurf st3 = MundtAirSurf st" and n3: "MundtZoneNum st3 = MundtZoneNum st"
    by (auto simp: GetSurfHBDataForMundtModel_def bindE_eq_Inr Let_def split_beta
        split: if_splits)
  have "LineNode st' = LineNode st3 \<and> ZoneData st' = ZoneData st3 \<and>
        MundtZoneNum st' = MundtZoneNum st3 \<and>
        map (map TMeanAir) (MundtAirSurf st') = map (map TMeanAir) (MundtAirSurf st3) \<and>
        map (map Area) (MundtAirSurf st') = map (map Area) (MundtAirSurf st3)"
  proof (rule forE_invariant [OF loop, where P = "\<lambda>s. LineNode s = LineNode st3 \<and>
        ZoneData s = ZoneData st3 \<and> MundtZoneNum s = MundtZoneNum st3 \<and>
        map (map TMeanAir) (MundtAirSurf s) = map (map TMeanAir) (MundtAirSurf st3) \<and>
        map (map Area) (MundtAirSurf s) = map (map Area) (MundtAirSurf st3)"])
    fix j t t'
    assume t: "LineNode t = LineNode st3 \<and> ZoneData t = ZoneData st3 \<and>
        MundtZoneNum t = MundtZoneNum st3 \<and>
        map (map TMeanAir) (MundtAirSurf t) = map (map TMeanAir) (MundtAirSurf st3) \<and>
        map (map Area) (MundtAirSurf t) = map (map Area) (MundtAirSurf st3)"
      and step: "GetSurf h ZoneNum j t = Inr t'"
    from GetSurf_fields(1) [OF step] obtain ms where "t' = t\<lparr>MundtAirSurf := ms\<rparr>" by blast
    then show "LineNode t' = LineNode st3 \<and> ZoneData t' = ZoneData st3 \<and>
        MundtZoneNum t' = MundtZoneNum st3 \<and>
        map (map TMeanAir) (MundtAirSurf t') = map (map TMeanAir) (MundtAirSurf st3) \<and>
        map (map Area) (MundtAirSurf t') = map (map Area) (MundtAirSurf st3)"
      using t GetSurf_fields(2,3) [OF step] by simp
  qed simp
  then show "LineNode st' = LineNode st" and "ZoneData st' = ZoneData st"
    and "MundtZoneNum st' = MundtZoneNum st"
    and "map (map TMeanAir) (MundtAirSurf st') = map (map TMeanAir) (MundtAirSurf st)"
    and "map (map Area) (MundtAirSurf st') = map (map Area) (MundtAirSurf st)"
    by (simp_all add: l3 z3 m3 n3)
qed

lemma MixingLoop_total: "\<exists>h'. forE js (SetBulkMixing ZoneNum First) h = Inr h'"
  by (induction js arbitrary: h) (simp_all add: SetBulkMixing_def)

lemma MixingLoop_fields:
  assumes "forE js (SetBulkMixing ZoneNum First) h = Inr h'"
  shows "\<exists>F G. h' = h\<lparr>TempEffBulkAir := F, TAirRef := G\<rparr>"
    and "\<forall>k \<in> set js. TempEffBulkAir h' (First + k - 1) = MAT h ZoneNum \<and>
           TAirRef h' (First + k - 1) = ZoneMeanAirTemp"
proof -
  show frame: "\<exists>F G. h' = h\<lparr>TempEffBulkAir := F, TAirRef := G\<rparr>"
  proof (rule forE_invariant [OF assms,
        where P = "\<lambda>t. \<exists>F G. t = h\<lparr>TempEffBulkAir := F, TAirRef := G\<rparr>"])
    show "\<exists>F G. h = h\<lparr>TempEffBulkAir := F, TAirRef := G\<rparr>"
      by (rule exI [of _ "TempEffBulkAir h"], rule exI [of _ "TAirRef h"]) simp
  next
    fix j t t'
    assume "\<exists>F G. t = h\<lparr>TempEffBulkAir := F, TAirRef := G\<rparr>"
      and "SetBulkMixing ZoneNum First j t = Inr t'"
    then show "\<exists>F G. t' = h\<lparr>TempEffBulkAir := F, TAirRef := G\<rparr>"
      by (auto simp: SetBulkMixing_def) blast
  qed
  have "\<forall>k \<in> set js. TempEffBulkAir h' (First + k - 1) = MAT h' ZoneNum \<and>
           TAirRef h' (First + k - 1) = ZoneMeanAirTemp"
    by (rule forE_each [OF assms]) (auto simp: SetBulkMixing_def)
  moreover have "MAT h' = MAT h"
    using frame by auto
  ultimately show "\<forall>k \<in> set js. TempEffBulkAir h' (First + k - 1) = MAT h ZoneNum \<and>
           TAirRef h' (First + k - 1) = ZoneMeanAirTemp"
    by simp
qed

lemma ManageInbound_fields:
  assumes "ManageInbound ZoneNum (h, st) = Inr (h1, st2)"
  shows "\<exists>zd. at1 (ZoneData st2) ZoneNum = Inr zd"
    and "\<not> FirstTimeFlag st \<Longrightarrow> h1 = h \<and> LineNode st2 = LineNode st \<and>
           map (map TMeanAir) (MundtAirSurf st2) = map (map TMeanAir) (MundtAirSurf st) \<and>
           map (map Area) (MundtAirSurf st2) = map (map Area) (MundtAirSurf st)"
proof -
  from assms obtain st1 and zd :: DefineZoneData where
    zd: "at1 (ZoneData st1) ZoneNum = Inr zd"
    and get: "GetSurfHBDataForMundtModel h1 ZoneNum (st1\<lparr>MundtZoneNum := MundtZoneIndex zd\<rparr>) = Inr st2"
    and first: "\<not> FirstTimeFlag st \<Longrightarrow> h1 = h \<and> st1 = st"
    by (auto simp: ManageInbound_def bindE_eq_Inr split: if_splits)
  note g = GetSurfHBDataForMundtModel_fields [OF get]
  show "\<exists>zd. at1 (ZoneData st2) ZoneNum = Inr zd"
    using zd g(2) by simp
  show "h1 = h \<and> LineNode st2 = LineNode st \<and>
           map (map TMeanAir) (MundtAirSurf st2) = map (map TMeanAir) (MundtAirSurf st) \<and>
           map (map Area) (MundtAirSurf st2) = map (map Area) (MundtAirSurf st)"
    if "\<not> FirstTimeFlag st"
    using first [OF that] g by simp
qed

lemma SetupKeeps_refl [simp]: "SetupKeeps st st"
  by (simp add: SetupKeeps_def)

lemma SetupKeeps_trans: "SetupKeeps a b \<Longrightarrow> SetupKeeps b c \<Longrightarrow> SetupKeeps a c"
  by (simp add: SetupKeeps_def)

lemma SetupKeeps_Node_of: "SetupKeeps a b \<Longrightarrow> Node_of b j = Node_of a j"
  by (simp add: Node_of_def SetupKeeps_def)

text \<open>What one step of the scan of the air nodes does.\<close>

lemma SetupNode_step:
  assumes "SetupNode j (h, st, e) = Inr (h', st', e')"
  shows "\<exists>n. Node_of st j = Inr n \<and>
           MundtCeilAirID st' = (if ClassType n = CeilingAirNode then j else MundtCeilAirID st) \<and>
           MundtFootAirID st' = (if ClassType n = FloorAirNode then j else MundtFootAirID st) \<and>
           TstatNodeID st' = (if ClassType n = ControlAirNode then j else TstatNodeID st) \<and>
           SupplyNodeID st' = (if ClassType n = InletAirNode then j else SupplyNodeID st) \<and>
           ReturnNodeID st' = (if ClassType n = ReturnAirNode then j else ReturnNodeID st) \<and>
           (e' \<longleftrightarrow> e \<or> (\<exists>t. ClassType n = OtherAirNode t)) \<and>
           (\<exists>log. h' = h\<lparr>ErrLog := log\<rparr>)"
    and "SetupKeeps st st'"
proof -
  from assms obtain n where n: "Node_of st j = Inr n"
    and r: "(case ClassType n of
          InletAirNode \<Rightarrow> Inr (h, st\<lparr>SupplyNodeID := j\<rparr>, e)
        | FloorAirNode \<Rightarrow> Inr (h, st\<lparr>MundtFootAirID := j\<rparr>, e)
        | ControlAirNode \<Rightarrow> Inr (h, st\<lparr>TstatNodeID := j\<rparr>, e)
        | CeilingAirNode \<Rightarrow> Inr (h, st\<lparr>MundtCeilAirID := j\<rparr>, e)
        | MundtRoomAirNode \<Rightarrow>
            (let st1 = st\<lparr>NumRoomNodes := NumRoomNodes st + 1\<rparr> in
             bindE (upd1 (RoomNodeIDs st1) (NumRoomNodes st1) (\<lambda>_. j)) (\<lambda>ids.
             Inr (h, st1\<lparr>RoomNodeIDs := ids\<rparr>, e)))
        | ReturnAirNode \<Rightarrow> Inr (h, st\<lparr>ReturnNodeID := j\<rparr>, e)
        | OtherAirNode _ \<Rightarrow>
            Inr (ShowSevereError
                   ''SetupMundtModel: Non-Standard Type of Air Node for Mundt Model'' h,
                 st, True)) = Inr (h', st', e')"
    by (auto simp: SetupNode_def bindE_eq_Inr)
  have h_id: "\<exists>log. h = h\<lparr>ErrLog := log\<rparr>"
    by (rule exI [of _ "ErrLog h"]) simp
  have A: "MundtCeilAirID st' = (if ClassType n = CeilingAirNode then j else MundtCeilAirID st) \<and>
           MundtFootAirID st' = (if ClassType n = FloorAirNode then j else MundtFootAirID st) \<and>
           TstatNodeID st' = (if ClassType n = ControlAirNode then j else TstatNodeID st) \<and>
           SupplyNodeID st' = (if ClassType n = InletAirNode then j else SupplyNodeID st) \<and>
           ReturnNodeID st' = (if ClassType n = ReturnAirNode then j else ReturnNodeID st) \<and>
           (e' \<longleftrightarrow> e \<or> (\<exists>t. ClassType n = OtherAirNode t)) \<and>
           (\<exists>log. h' = h\<lparr>ErrLog := log\<rparr>) \<and> SetupKeeps st st'"
    using r h_id
    by (cases "ClassType n")
      (auto simp: bindE_eq_Inr Let_def SetupKeeps_def ShowSevereError_def)
  from n A show "\<exists>n. Node_of st j = Inr n \<and>
           MundtCeilAirID st' = (if ClassType n = CeilingAirNode then j else MundtCeilAirID st) \<and>
           MundtFootAirID st' = (if ClassType n = FloorAirNode then j else MundtFootAirID st) \<and>
           TstatNodeID st' = (if ClassType n = ControlAirNode then j else TstatNodeID st) \<and>
           SupplyNodeID st' = (if ClassType n = InletAirNode then j else SupplyNodeID st) \<and>
           ReturnNodeID st' = (if ClassType n = ReturnAirNode then j else ReturnNodeID st) \<and>
           (e' \<longleftrightarrow> e \<or> (\<exists>t. ClassType n = OtherAirNode t)) \<and>
           (\<exists>log. h' = h\<lparr>ErrLog := log\<rparr>)"
    by blast
  from A show "SetupKeeps st st'" by blast
qed

lemma SetupLoop:
  assumes "forE js SetupNode (h, st, e) = Inr (h', st', e')"
  shows "SetupKeeps st st' \<and> (\<exists>log. h' = h\<lparr>ErrLog := log\<rparr>) \<and>
    (e' \<longleftrightarrow> e \<or> (\<exists>j \<in> set js. \<exists>n t. Node_of st j = Inr n \<and> ClassType n = OtherAirNode t)) \<and>
    ((\<forall>j \<in> set js. \<forall>n. Node_of st j = Inr n \<longrightarrow> ClassType n \<noteq> CeilingAirNode) \<longrightarrow>
       MundtCeilAirID st' = MundtCeilAirID st) \<and>
    ((\<forall>j \<in> set js. \<forall>n. Node_of st j = Inr n \<longrightarrow> ClassType n \<noteq> ReturnAirNode) \<longrightarrow>
       ReturnNodeID st' = ReturnNodeID st) \<and>
    ((\<forall>j \<in> set js. \<forall>n. Node_of st j = Inr n \<longrightarrow> ClassType n \<noteq> ControlAirNode) \<longrightarrow>
       TstatNodeID st' = TstatNodeID st) \<and>
    ((\<forall>j \<in> set js. \<forall>n. Node_of st j = Inr n \<longrightarrow> ClassType n \<noteq> InletAirNode) \<longrightarrow>
       SupplyNodeID st' = SupplyNodeID st) \<and>
    ((\<forall>j \<in> set js. \<forall>n. Node_of st j = Inr n \<longrightarrow> ClassType n \<noteq> FloorAirNode) \<longrightarrow>
       MundtFootAirID st' = MundtFootAirID st) \<and>
    ((\<exists>j \<in> set js. \<exists>n. Node_of st j = Inr n \<and> ClassType n = FloorAirNode) \<longrightarrow>
       MundtFootAirID st' \<in> set js)"
  using assms
proof (induction js arbitrary: h st e)
  case Nil
  then have "h' = h" "st' = st" "e' = e" by simp_all
  moreover have "\<exists>log. h = h\<lparr>ErrLog := log\<rparr>"
    by (rule exI [of _ "ErrLog h"]) simp
  ultimately show ?case by simp
next
  case (Cons j js)
  from Cons.prems obtain h1 st1 e1 where
    step: "SetupNode j (h, st, e) = Inr (h1, st1, e1)"
    and rest: "forE js SetupNode (h1, st1, e1) = Inr (h', st', e')"
    by (auto simp: bindE_eq_Inr)
  note IH = Cons.IH [OF rest]
  from SetupNode_step [OF step] obtain n log1 where n: "Node_of st j = Inr n"
    and ids: "MundtCeilAirID st1 = (if ClassType n = CeilingAirNode then j else MundtCeilAirID st)"
      "MundtFootAirID st1 = (if ClassType n = FloorAirNode then j else MundtFootAirID st)"
      "TstatNodeID st1 = (if ClassType n = ControlAirNode then j else TstatNodeID st)"
      "SupplyNodeID st1 = (if ClassType n = InletAirNode then j else SupplyNodeID st)"
      "ReturnNodeID st1 = (if ClassType n = ReturnAirNode then j else ReturnNodeID st)"
    and e1: "e1 \<longleftrightarrow> e \<or> (\<exists>t. ClassType n = OtherAirNode t)"
    and h1: "h1 = h\<lparr>ErrLog := log1\<rparr>"
    and keep: "SetupKeeps st st1"
    by blast
  have nodes: "Node_of st1 i = Node_of st i" for i
    using SetupKeeps_Node_of [OF keep] .
  have k: "SetupKeeps st st'"
    using IH keep SetupKeeps_trans by blast
  have hh: "\<exists>log. h' = h\<lparr>ErrLog := log\<rparr>"
    using IH h1 by auto
  have ee: "e' \<longleftrightarrow> e \<or> (\<exists>i \<in> set (j # js). \<exists>n t. Node_of st i = Inr n \<and> ClassType n = OtherAirNode t)"
    using IH e1 n by (auto simp: nodes)
  have c: "MundtCeilAirID st' = MundtCeilAirID st"
    if "\<forall>i \<in> set (j # js). \<forall>n. Node_of st i = Inr n \<longrightarrow> ClassType n \<noteq> CeilingAirNode"
    using IH that n ids(1) by (simp add: nodes)
  have r: "ReturnNodeID st' = ReturnNodeID st"
    if "\<forall>i \<in> set (j # js). \<forall>n. Node_of st i = Inr n \<longrightarrow> ClassType n \<noteq> ReturnAirNode"
    using IH that n ids(5) by (simp add: nodes)
  have t: "TstatNodeID st' = TstatNodeID st"
    if "\<forall>i \<in> set (j # js). \<forall>n. Node_of st i = Inr n \<longrightarrow> ClassType n \<noteq> ControlAirNode"
    using IH that n ids(3) by (simp add: nodes)
  have s: "SupplyNodeID st' = SupplyNodeID st"
    if "\<forall>i \<in> set (j # js). \<forall>n. Node_of st i = Inr n \<longrightarrow> ClassType n \<noteq> InletAirNode"
    using IH that n ids(4) by (simp add: nodes)
  have f: "MundtFootAirID st' = MundtFootAirID st"
    if "\<forall>i \<in> set (j # js). \<forall>n. Node_of st i = Inr n \<longrightarrow> ClassType n \<noteq> FloorAirNode"
    using IH that n ids(2) by (simp add: nodes)
  have g: "MundtFootAirID st' \<in> set (j # js)"
    if ex: "\<exists>i \<in> set (j # js). \<exists>n. Node_of st i = Inr n \<and> ClassType n = FloorAirNode"
  proof (cases "\<exists>i \<in> set js. \<exists>n. Node_of st i = Inr n \<and> ClassType n = FloorAirNode")
    case True
    then show ?thesis using IH by (simp add: nodes)
  next
    case False
    then have "ClassType n = FloorAirNode" using ex n by auto
    moreover have "MundtFootAirID st' = MundtFootAirID st1"
      using IH False by (simp add: nodes)
    ultimately show ?thesis using ids(2) by simp
  qed
  from k hh ee c r t s f g show ?case by blast
qed

lemma SetupFloorLoop:
  assumes "forE js SetupFloorSurf st = Inr st'"
  shows "\<exists>fs. st' = st\<lparr>FloorSurf := fs\<rparr>"
proof (rule forE_invariant [OF assms, where P = "\<lambda>s. \<exists>fs. s = st\<lparr>FloorSurf := fs\<rparr>"])
  show "\<exists>fs. st = st\<lparr>FloorSurf := fs\<rparr>"
    by (rule exI [of _ "FloorSurf st"]) simp
next
  fix j t t'
  assume "\<exists>fs. t = st\<lparr>FloorSurf := fs\<rparr>" and "SetupFloorSurf j t = Inr t'"
  then show "\<exists>fs. t' = st\<lparr>FloorSurf := fs\<rparr>"
    by (auto simp: SetupFloorSurf_def bindE_eq_Inr)
qed

lemma SetupMundtModel_fields:
  assumes "SetupMundtModel ZoneNum (h, st, e) = Inr (h1, st1, e1)"
  shows "SetupKeeps st st1" and "\<exists>log. h1 = h\<lparr>ErrLog := log\<rparr>"
    and "e1 \<longleftrightarrow> e \<or> (\<exists>j \<in> {1..TotNumOfZoneAirNodes h ZoneNum}. \<exists>n t.
                          Node_of st j = Inr n \<and> ClassType n = OtherAirNode t)
                  \<or> MundtFootAirID st1 \<le> 0"
    and "(\<forall>j \<in> {1..TotNumOfZoneAirNodes h ZoneNum}. \<forall>n.
            Node_of st j = Inr n \<longrightarrow> ClassType n \<noteq> CeilingAirNode) \<Longrightarrow>
         MundtCeilAirID st1 = MundtCeilAirID st"
    and "(\<forall>j \<in> {1..TotNumOfZoneAirNodes h ZoneNum}. \<forall>n.
            Node_of st j = Inr n \<longrightarrow> ClassType n \<noteq> ReturnAirNode) \<Longrightarrow>
         ReturnNodeID st1 = ReturnNodeID st"
    and "(\<forall>j \<in> {1..TotNumOfZoneAirNodes h ZoneNum}. \<forall>n.
            Node_of st j = Inr n \<longrightarrow> ClassType n \<noteq> ControlAirNode) \<Longrightarrow>
         TstatNodeID st1 = TstatNodeID st"
    and "(\<forall>j \<in> {1..TotNumOfZoneAirNodes h ZoneNum}. \<forall>n.
            Node_of st j = Inr n \<longrightarrow> ClassType n \<noteq> InletAirNode) \<Longrightarrow>
         SupplyNodeID st1 = SupplyNodeID st"
    and "(\<forall>j \<in> {1..TotNumOfZoneAirNodes h ZoneNum}. \<forall>n.
            Node_of st j = Inr n \<longrightarrow> ClassType n \<noteq> FloorAirNode) \<Longrightarrow>
         MundtFootAirID st1 = MundtFootAirID st"
    and "(\<exists>j \<in> {1..TotNumOfZoneAirNodes h ZoneNum}. \<exists>n.
            Node_of st j = Inr n \<and> ClassType n = FloorAirNode) \<Longrightarrow>
         1 \<le> MundtFootAirID st1"
proof -
  let ?st0 = "st\<lparr>NumRoomNodes := 0\<rparr>"
  let ?N = "TotNumOfZoneAirNodes h ZoneNum"
  from assms obtain h2 st2 e2 where
    loop: "forE [1..?N] SetupNode (h, ?st0, e) = Inr (h2, st2, e2)"
    and fin: "(if MundtFootAirID st2 > 0 then
        bindE (Node_of st2 (MundtFootAirID st2)) (\<lambda>n.
        (let st3 = st2\<lparr>NumFloorSurfs := count (SurfMask n),
                       FloorSurfSetIDs := pack (ID1dSurf st2) (SurfMask n),
                       FloorSurf := map (\<lambda>f. f\<lparr>SurfTemp := 25.0, Hc := 0.0, Area := 0.0\<rparr>)
                                      (FloorSurf st2)\<rparr>
         in bindE (forE [1..NumFloorSurfs st3] SetupFloorSurf st3) (\<lambda>st4.
            Inr (h2, st4, e2))))
      else
        Inr (ShowSevereError
               (''SetupMundtModel: Mundt model has no FloorAirNode, Zone='' @ ZoneName h2 ZoneNum)
               h2,
             st2, True)) = Inr (h1, st1, e1)"
    by (auto simp: SetupMundtModel_def bindE_eq_Inr)
  note L = SetupLoop [OF loop]
  have nodes0: "Node_of ?st0 j = Node_of st j" for j
    by (simp add: Node_of_def)
  have keep0: "SetupKeeps st st2"
    using L by (simp add: SetupKeeps_def)
  from L obtain log2 where h2: "h2 = h\<lparr>ErrLog := log2\<rparr>" by blast
  have fin': "SetupKeeps st2 st1 \<and> (\<exists>log. h1 = h2\<lparr>ErrLog := log\<rparr>) \<and>
     MundtCeilAirID st1 = MundtCeilAirID st2 \<and> ReturnNodeID st1 = ReturnNodeID st2 \<and>
     TstatNodeID st1 = TstatNodeID st2 \<and> SupplyNodeID st1 = SupplyNodeID st2 \<and>
     MundtFootAirID st1 = MundtFootAirID st2 \<and>
     (e1 \<longleftrightarrow> e2 \<or> MundtFootAirID st2 \<le> 0)"
  proof (cases "MundtFootAirID st2 > 0")
    case True
    with fin obtain n :: DefineLinearModelNode and st4 where
      floop: "forE [1..count (SurfMask n)] SetupFloorSurf
               (st2\<lparr>NumFloorSurfs := count (SurfMask n),
                    FloorSurfSetIDs := pack (ID1dSurf st2) (SurfMask n),
                    FloorSurf := map (\<lambda>f. f\<lparr>SurfTemp := 25.0, Hc := 0.0, Area := 0.0\<rparr>)
                                   (FloorSurf st2)\<rparr>) = Inr st4"
      and res: "h1 = h2" "st1 = st4" "e1 = e2"
      by (auto simp: bindE_eq_Inr Let_def)
    from SetupFloorLoop [OF floop] obtain fs where
      "st4 = st2\<lparr>NumFloorSurfs := count (SurfMask n),
                    FloorSurfSetIDs := pack (ID1dSurf st2) (SurfMask n),
                    FloorSurf := fs\<rparr>"
      by auto
    moreover have "\<exists>log. h2 = h2\<lparr>ErrLog := log\<rparr>"
      by (rule exI [of _ "ErrLog h2"]) simp
    ultimately show ?thesis
      using True res by (simp add: SetupKeeps_def)
  next
    case False
    with fin have "h1 = h2\<lparr>ErrLog := ErrLog h2 @
        [''SetupMundtModel: Mundt model has no FloorAirNode, Zone='' @ ZoneName h2 ZoneNum]\<rparr>"
      and "st1 = st2" and "e1"
      by (simp_all add: ShowSevereError_def)
    then show ?thesis using False by auto
  qed
  show "SetupKeeps st st1"
    using keep0 fin' SetupKeeps_trans by blast
  show "\<exists>log. h1 = h\<lparr>ErrLog := log\<rparr>"
    using fin' h2 by auto
  show "e1 \<longleftrightarrow> e \<or> (\<exists>j \<in> {1..?N}. \<exists>n t.
                          Node_of st j = Inr n \<and> ClassType n = OtherAirNode t)
                  \<or> MundtFootAirID st1 \<le> 0"
    using L fin' by (auto simp: nodes0)
  show "MundtCeilAirID st1 = MundtCeilAirID st"
    if "\<forall>j \<in> {1..?N}. \<forall>n. Node_of st j = Inr n \<longrightarrow> ClassType n \<noteq> CeilingAirNode"
    using L fin' that by (simp add: nodes0)
  show "ReturnNodeID st1 = ReturnNodeID st"
    if "\<forall>j \<in> {1..?N}. \<forall>n. Node_of st j = Inr n \<longrightarrow> ClassType n \<noteq> ReturnAirNode"
    using L fin' that by (simp add: nodes0)
  show "TstatNodeID st1 = TstatNodeID st"
    if "\<forall>j \<in> {1..?N}. \<forall>n. Node_of st j = Inr n \<longrightarrow> ClassType n \<noteq> ControlAirNode"
    using L fin' that by (simp add: nodes0)
  show "SupplyNodeID st1 = SupplyNodeID st"
    if "\<forall>j \<in> {1..?N}. \<forall>n. Node_of st j = Inr n \<longrightarrow> ClassType n \<noteq> InletAirNode"
    using L fin' that by (simp add: nodes0)
  show "MundtFootAirID st1 = MundtFootAirID st"
    if "\<forall>j \<in> {1..?N}. \<forall>n. Node_of st j = Inr n \<longrightarrow> ClassType n \<noteq> FloorAirNode"
    using L fin' that by (simp add: nodes0)
  show "1 \<le> MundtFootAirID st1"
    if "\<exists>j \<in> {1..?N}. \<exists>n. Node_of st j = Inr n \<and> ClassType n = FloorAirNode"
  proof -
    have "MundtFootAirID st2 \<in> set [1..?N]"
      using L that by (simp add: nodes0)
    then show ?thesis using fin' by simp
  qed
qed

lemma CalcMundtModel_frame:
  assumes "CalcMundtModel h ZoneNum st = Inr st'"
  shows "\<exists>ln ids ms. st' = st\<lparr>LineNode := ln, TheseSurfIDs := ids, MundtAirSurf := ms\<rparr>"
proof -
  from CalcMundtModel_InrD [OF assms] obtain L :: MundtLocals and st7 where
    loop: "forE [1..NumRoomNodes st] (SetRoomNode (TLeaving L) (Slope L)) st7 = Inr st'"
    and frame: "\<exists>ln ids ms. st7 = st\<lparr>LineNode := ln, TheseSurfIDs := ids, MundtAirSurf := ms\<rparr>"
    by blast
  from RoomLoop_fields(1) [OF loop] frame show ?thesis
    by auto blast
qed

lemma RunMundtModel_fields:
  assumes "RunMundtModel ZoneNum (h, st) = Inr (h3, st3)"
  shows "SupplyAirVolumeRate st3 = SupplyAirVolumeRate st" and "QsysCoolTot st3 = QsysCoolTot st"
    and "ZoneData st3 = ZoneData st" and "MundtZoneNum st3 = MundtZoneNum st"
    and "\<exists>log. h3 = h\<lparr>ErrLog := log\<rparr>"
proof -
  from assms obtain st1 where
    su: "SetupMundtModel ZoneNum (h, st, False) = Inr (h3, st1, False)"
    and calc: "CalcMundtModel h3 ZoneNum st1 = Inr st3"
    by (auto simp: RunMundtModel_def bindE_eq_Inr split: if_splits)
  note k = SetupMundtModel_fields(1) [OF su, unfolded SetupKeeps_def]
  from CalcMundtModel_frame [OF calc] obtain ln ids ms where
    st3: "st3 = st1\<lparr>LineNode := ln, TheseSurfIDs := ids, MundtAirSurf := ms\<rparr>"
    by blast
  show "SupplyAirVolumeRate st3 = SupplyAirVolumeRate st" and "QsysCoolTot st3 = QsysCoolTot st"
    and "ZoneData st3 = ZoneData st" and "MundtZoneNum st3 = MundtZoneNum st"
    using k by (simp_all add: st3)
  show "\<exists>log. h3 = h\<lparr>ErrLog := log\<rparr>"
    using SetupMundtModel_fields(2) [OF su] .
qed

lemma SetSurfHBDataForMundtModel_on:
  assumes "SetSurfHBDataForMundtModel ZoneNum st h = Inr h'" and "SystemOn st"
  shows "SimAirModel h' ZoneNum"
  using assms by (auto simp: SetSurfHBDataForMundtModel_def bindE_eq_Inr)

lemma SetSurfHBDataForMundtModel_off:
  assumes "at1 (ZoneData st) ZoneNum = Inr zd" and "\<not> SystemOn st"
  shows "\<exists>h'. SetSurfHBDataForMundtModel ZoneNum st h = Inr h' \<and>
           (\<forall>SurfNum \<in> {1..NumOfSurfs zd}.
              TempEffBulkAir h' (SurfFirst zd + SurfNum - 1) = MAT h ZoneNum \<and>
              TAirRef h' (SurfFirst zd + SurfNum - 1) = ZoneMeanAirTemp) \<and>
           \<not> SimAirModel h' ZoneNum"
proof -
  from MixingLoop_total obtain h1 where
    loop: "forE [1..NumOfSurfs zd] (SetBulkMixing ZoneNum (SurfFirst zd)) h = Inr h1"
    by blast
  have res: "SetSurfHBDataForMundtModel ZoneNum st h =
      Inr (h1\<lparr>SimAirModel := (SimAirModel h1)(ZoneNum := False)\<rparr>)"
    using assms loop by (simp add: SetSurfHBDataForMundtModel_def)
  from MixingLoop_fields(2) [OF loop]
  have "\<forall>SurfNum \<in> {1..NumOfSurfs zd}.
              TempEffBulkAir h1 (SurfFirst zd + SurfNum - 1) = MAT h ZoneNum \<and>
              TAirRef h1 (SurfFirst zd + SurfNum - 1) = ZoneMeanAirTemp"
    by simp
  with res show ?thesis by simp
qed

lemma Height_of_Node_of: "Height_of st i = Inr x \<Longrightarrow> \<exists>n. Node_of st i = Inr n"
  by (auto simp: Height_of_def bindE_eq_Inr)

lemma CalcMundtModel_reads:
  assumes "CalcMundtModel h ZoneNum st = Inr st'"
  shows "\<exists>a b c d. Node_of st (MundtCeilAirID st) = Inr a \<and> Node_of st (ReturnNodeID st) = Inr b \<and>
           Node_of st (TstatNodeID st) = Inr c \<and> Node_of st (SupplyNodeID st) = Inr d"
proof -
  from assms obtain L :: MundtLocals and st1 where
    L: "CalcMundtLocals h ZoneNum st = Inr L"
    and s1: "SetNodeResult (SupplyNodeID st) (SupplyAirTemp st) st = Inr st1"
    by (auto simp: CalcMundtModel_def bindE_eq_Inr)
  from CalcMundtLocals_InrD [OF L] obtain HReturn HCeil HTstat where
    "Height_of st (ReturnNodeID st) = Inr HReturn"
    "Height_of st (MundtCeilAirID st) = Inr HCeil"
    "Height_of st (TstatNodeID st) = Inr HTstat"
    by blast
  with SetNodeResult_fields(4) [OF s1] show ?thesis
    by (meson Height_of_Node_of)
qed

subsection \<open>The example building through the first call\<close>

lemma replicate_numeral_Cons: "replicate (numeral k) x = x # replicate (pred_numeral k) x"
  by (simp add: numeral_eq_Suc)

lemma list_update_numeral_Cons: "(x # xs)[numeral k := y] = x # xs[pred_numeral k := y]"
  by (simp add: numeral_eq_Suc)

lemmas ex_init_defs =
  InitMundtModel_def InitScan_def InitZoneData_def InitAllocate_def InitMundtZone_def
  InitSurf_def InitNode_def InitLocals0_def DefaultSurf_def DefaultNode_def SameString_def
  upper_char_def ex_AirNode_def

lemma ex_init:
  "InitMundtModel ex_host mundt0 =
     Inr (ex_host,
          mundt0\<lparr>ZoneData := ZoneData ex_st, ID1dSurf := [1, 2, 3, 4],
                 TheseSurfIDs := [0, 0, 0, 0],
                 MundtAirSurf := [replicate 4 (DefaultSurf\<lparr>Area := 10\<rparr>)],
                 LineNode := [ex_nodes], RoomNodeIDs := [0], FloorSurfSetIDs := [0],
                 FloorSurf := [DefaultSurf]\<rparr>)"
  by (simp add: ex_init_defs ex_host_def mundt0_def ex_st_def ex_nodes_def upto_from_1
      upd1_def upd2_def at1_def inrange_def count_def Let_def replicate_numeral_Cons
      list_update_numeral_Cons)

lemmas ex_get_defs =
  ManageInbound_def GetSurfHBDataForMundtModel_def GetSurf_def SumSys_def fdiv_def
  int32_mult_def

lemma ex_inbound: "ManageInbound 1 (ex_host, mundt0) = Inr (ex_host, ex_st_in)"
  apply (simp add: ManageInbound_def mundt0_def [THEN arg_cong [of _ _ FirstTimeFlag]] ex_init)
  apply (simp add: ex_get_defs ex_host_def mundt0_def ex_st_in_def ex_st_def ex_surf_def
      DefaultSurf_def upto_from_1 upd1_def upd2_def at1_def inrange_def Let_def
      replicate_numeral_Cons list_update_numeral_Cons)
  done

lemma ex_inbound_off: "ManageInbound 1 (ex_host_off, mundt0) = Inr (ex_host_off, ex_st_in_off)"
  by (simp add: ex_get_defs ex_init_defs ex_host_off_def ex_host_def mundt0_def ex_st_in_off_def
      ex_st_in_def ex_st_def ex_surf_def ex_nodes_def upto_from_1 upd1_def upd2_def at1_def
      inrange_def count_def Let_def replicate_numeral_Cons list_update_numeral_Cons)

lemmas ex_setup_defs =
  SetupMundtModel_def SetupNode_def SetupFloorSurf_def Node_of_def at2_def at1_def upd1_def
  inrange_def count_def pack_def upto_from_1

lemma ex_setup: "SetupMundtModel 1 (ex_host, ex_st_in, False) = Inr (ex_host, ex_st, False)"
  by (simp add: ex_setup_defs ex_host_def ex_st_in_def ex_st_def ex_nodes_def ex_surf_def
      DefaultSurf_def)

lemma ex_run: "RunMundtModel 1 (ex_host, ex_st_in) = Inr (ex_host, ex_st_solved)"
  by (simp add: RunMundtModel_def ex_setup ex_solved)

lemma ex_setup_noceil:
  "SetupMundtModel 1 (ex_host, ex_st_noceil_in, False) = Inr (ex_host, ex_st_noceil, False)"
  by (simp add: ex_setup_defs ex_host_def ex_st_noceil_def ex_st_noceil_in_def ex_st_in_def
      ex_st_def ex_nodes_def ex_surf_def DefaultSurf_def)

lemma ex_calc_noceil: "CalcMundtModel ex_host 1 ex_st_noceil = Inl IndexOutOfRange"
  by (simp add: CalcMundtModel_def ex_calc_defs ex_st_noceil_def ex_st_noceil_in_def ex_st_in_def
      DefaultSurf_def)

subsection \<open>The gate and the roles\<close>

text \<open>Claim C10. The set-up of the roles reports an error exactly for an unrecognised
  role tag among the air nodes of the zone or a Floor index that is still not positive
  after the scan, which can only be when the zone has no Floor node. A zone without a
  Ceiling, Return, Control or Supply node is not detected: the index of that role keeps
  the value it had before the call (0 when the program starts), and the solve reads the
  node data at these four indices.\<close>

theorem SetupMundtModel_reports:
  assumes "SetupMundtModel ZoneNum (h, st, False) = Inr (h1, st1, ErrorsFound1)"
  shows "(ErrorsFound1 \<longleftrightarrow>
            (\<exists>j \<in> {1..TotNumOfZoneAirNodes h ZoneNum}. \<exists>n t.
                Node_of st j = Inr n \<and> ClassType n = OtherAirNode t)
            \<or> MundtFootAirID st1 \<le> 0) \<and>
         (MundtFootAirID st1 \<le> 0 \<longrightarrow>
            (\<forall>j \<in> {1..TotNumOfZoneAirNodes h ZoneNum}. \<forall>n.
                Node_of st j = Inr n \<longrightarrow> ClassType n \<noteq> FloorAirNode)) \<and>
         ((\<forall>j \<in> {1..TotNumOfZoneAirNodes h ZoneNum}. \<forall>n.
              Node_of st j = Inr n \<longrightarrow> ClassType n \<noteq> CeilingAirNode) \<longrightarrow>
            MundtCeilAirID st1 = MundtCeilAirID st) \<and>
         ((\<forall>j \<in> {1..TotNumOfZoneAirNodes h ZoneNum}. \<forall>n.
              Node_of st j = Inr n \<longrightarrow> ClassType n \<noteq> ReturnAirNode) \<longrightarrow>
            ReturnNodeID st1 = ReturnNodeID st) \<and>
         ((\<forall>j \<in> {1..TotNumOfZoneAirNodes h ZoneNum}. \<forall>n.
              Node_of st j = Inr n \<longrightarrow> ClassType n \<noteq> ControlAirNode) \<longrightarrow>
            TstatNodeID st1 = TstatNodeID st) \<and>
         ((\<forall>j \<in> {1..TotNumOfZoneAirNodes h ZoneNum}. \<forall>n.
              Node_of st j = Inr n \<longrightarrow> ClassType n \<noteq> InletAirNode) \<longrightarrow>
            SupplyNodeID st1 = SupplyNodeID st) \<and>
         (\<forall>st2. CalcMundtModel h1 ZoneNum st1 = Inr st2 \<longrightarrow>
            (\<exists>a b c d. Node_of st1 (MundtCeilAirID st1) = Inr a \<and>
               Node_of st1 (ReturnNodeID st1) = Inr b \<and>
               Node_of st1 (TstatNodeID st1) = Inr c \<and>
               Node_of st1 (SupplyNodeID st1) = Inr d))"
proof -
  note F = SetupMundtModel_fields [OF assms]
  have e: "ErrorsFound1 \<longleftrightarrow>
            (\<exists>j \<in> {1..TotNumOfZoneAirNodes h ZoneNum}. \<exists>n t.
                Node_of st j = Inr n \<and> ClassType n = OtherAirNode t)
            \<or> MundtFootAirID st1 \<le> 0"
    using F(3) by simp
  have f: "\<forall>j \<in> {1..TotNumOfZoneAirNodes h ZoneNum}. \<forall>n.
                Node_of st j = Inr n \<longrightarrow> ClassType n \<noteq> FloorAirNode"
    if "MundtFootAirID st1 \<le> 0"
    using F(9) that by fastforce
  from e f F(4,5,6,7) CalcMundtModel_reads show ?thesis
    by blast
qed

theorem SetupMundtModel_reports_witness:
  "SetupMundtModel 1 (ex_host, ex_st_noceil_in, False) = Inr (ex_host, ex_st_noceil, False) \<and>
   list_all (\<lambda>j. \<exists>n. Node_of ex_st_noceil_in j = Inr n \<and> ClassType n \<noteq> CeilingAirNode
                    \<and> ClassType n \<noteq> OtherAirNode (- 1))
     [1..TotNumOfZoneAirNodes ex_host 1] \<and>
   MundtCeilAirID mundt0 = 0 \<and> MundtCeilAirID ex_st_noceil_in = 0 \<and>
   MundtCeilAirID ex_st_noceil = 0 \<and>
   Node_of ex_st_noceil (MundtCeilAirID ex_st_noceil) = Inl IndexOutOfRange \<and>
   CalcMundtModel ex_host 1 ex_st_noceil = Inl IndexOutOfRange"
proof -
  have nodes: "list_all (\<lambda>j. \<exists>n. Node_of ex_st_noceil_in j = Inr n \<and> ClassType n \<noteq> CeilingAirNode
                    \<and> ClassType n \<noteq> OtherAirNode (- 1))
     [1..TotNumOfZoneAirNodes ex_host 1]"
    by (simp add: ex_host_def upto_from_1 Node_of_def at2_def at1_def inrange_def
        ex_st_noceil_in_def ex_st_in_def ex_st_def ex_nodes_def)
  then have "\<forall>j \<in> {1..TotNumOfZoneAirNodes ex_host 1}. \<forall>n.
      Node_of ex_st_noceil_in j = Inr n \<longrightarrow> ClassType n \<noteq> CeilingAirNode"
    by (auto simp: list_all_iff)
  with SetupMundtModel_reports [OF ex_setup_noceil]
  have "MundtCeilAirID ex_st_noceil = MundtCeilAirID ex_st_noceil_in"
    by blast
  moreover have "MundtCeilAirID mundt0 = 0" "MundtCeilAirID ex_st_noceil_in = 0"
    by (simp_all add: mundt0_def ex_st_noceil_in_def ex_st_in_def)
  moreover have "Node_of ex_st_noceil 0 = Inl IndexOutOfRange"
    by (simp add: Node_of_def at2_def at1_def inrange_def ex_st_noceil_def ex_st_noceil_in_def)
  ultimately show ?thesis
    using ex_setup_noceil nodes ex_calc_noceil by simp
qed

subsection \<open>The entries of the surfaces\<close>

lemma at1_in_set: "at1 xs k = Inr x \<Longrightarrow> x \<in> set xs"
  by (auto simp: at1_Inr inrange_def)

lemma at1_in_take:
  assumes "at1 xs k = Inr x" and "k \<le> n"
  shows "x \<in> set (take (nat n) xs)"
proof -
  from assms(1) have k: "1 \<le> k" "k \<le> int (length xs)" and x: "x = xs ! nat (k - 1)"
    by (simp_all add: at1_Inr inrange_def)
  from k assms(2) have "nat (k - 1) < length (take (nat n) xs)"
    by simp
  moreover from k assms(2) have "take (nat n) xs ! nat (k - 1) = x"
    by (simp add: x)
  ultimately show ?thesis
    by (metis nth_mem)
qed

lemma SetSurfTmeanAir_fields:
  assumes "SetSurfTmeanAir i T st = Inr st'"
  shows "\<exists>ms. st' = st\<lparr>MundtAirSurf := ms\<rparr>"
    and "j \<noteq> i \<Longrightarrow> at2 (MundtAirSurf st') z j = at2 (MundtAirSurf st) z j"
    and "map (map Area) (MundtAirSurf st') = map (map Area) (MundtAirSurf st)"
    and "map (map SurfTemp) (MundtAirSurf st') = map (map SurfTemp) (MundtAirSurf st)"
    and "map (map Hc) (MundtAirSurf st') = map (map Hc) (MundtAirSurf st)"
proof -
  from assms obtain ms where
    u: "upd2 (MundtAirSurf st) (MundtZoneNum st) i (\<lambda>s. s\<lparr>TMeanAir := T\<rparr>) = Inr ms"
    and st': "st' = st\<lparr>MundtAirSurf := ms\<rparr>"
    by (auto simp: SetSurfTmeanAir_def bindE_eq_Inr)
  show "\<exists>ms. st' = st\<lparr>MundtAirSurf := ms\<rparr>" using st' by blast
  show "at2 (MundtAirSurf st') z j = at2 (MundtAirSurf st) z j" if "j \<noteq> i"
    using at2_upd2 [OF u] that by (auto simp: st')
  show "map (map Area) (MundtAirSurf st') = map (map Area) (MundtAirSurf st)"
    using upd2_map_same [OF u, of Area] by (simp add: st')
  show "map (map SurfTemp) (MundtAirSurf st') = map (map SurfTemp) (MundtAirSurf st)"
    using upd2_map_same [OF u, of SurfTemp] by (simp add: st')
  show "map (map Hc) (MundtAirSurf st') = map (map Hc) (MundtAirSurf st)"
    using upd2_map_same [OF u, of Hc] by (simp add: st')
qed

text \<open>A loop that sets the effective air temperature of the listed surfaces.\<close>

lemma SurfLoop:
  assumes loop: "forE [1..n] (\<lambda>SurfNum s. bindE (at1 (sel s) SurfNum)
                         (\<lambda>SurfID. SetSurfTmeanAir SurfID T s)) st = Inr st'"
    and sel: "\<And>s ms. sel (s\<lparr>MundtAirSurf := ms\<rparr>) = sel s"
  shows "(\<forall>z j. j \<notin> set (take (nat n) (sel st)) \<longrightarrow>
            at2 (MundtAirSurf st') z j = at2 (MundtAirSurf st) z j) \<and>
         map (map Area) (MundtAirSurf st') = map (map Area) (MundtAirSurf st) \<and>
         map (map SurfTemp) (MundtAirSurf st') = map (map SurfTemp) (MundtAirSurf st) \<and>
         map (map Hc) (MundtAirSurf st') = map (map Hc) (MundtAirSurf st)"
proof -
  let ?S = "set (take (nat n) (sel st))"
  let ?P = "\<lambda>s. sel s = sel st \<and>
      (\<forall>z j. j \<notin> ?S \<longrightarrow> at2 (MundtAirSurf s) z j = at2 (MundtAirSurf st) z j) \<and>
      map (map Area) (MundtAirSurf s) = map (map Area) (MundtAirSurf st) \<and>
      map (map SurfTemp) (MundtAirSurf s) = map (map SurfTemp) (MundtAirSurf st) \<and>
      map (map Hc) (MundtAirSurf s) = map (map Hc) (MundtAirSurf st)"
  have "?P st'"
  proof (rule forE_invariant [OF loop, where P = ?P])
    show "?P st" by simp
  next
    fix k t t'
    assume k: "k \<in> set [1..n]" and t: "?P t"
      and step: "bindE (at1 (sel t) k) (\<lambda>SurfID. SetSurfTmeanAir SurfID T t) = Inr t'"
    from step obtain i where i: "at1 (sel t) k = Inr i" and w: "SetSurfTmeanAir i T t = Inr t'"
      by (auto simp: bindE_eq_Inr)
    from k have "k \<le> n" by simp
    with i t have mem: "i \<in> ?S"
      by (simp add: at1_in_take)
    from SetSurfTmeanAir_fields(1) [OF w] obtain ms where "t' = t\<lparr>MundtAirSurf := ms\<rparr>"
      by blast
    then have s': "sel t' = sel st"
      using sel t by simp
    have "at2 (MundtAirSurf t') z j = at2 (MundtAirSurf st) z j" if "j \<notin> ?S" for z j
    proof -
      from that mem have "j \<noteq> i" by auto
      from SetSurfTmeanAir_fields(2) [OF w this] t that show ?thesis by simp
    qed
    with s' SetSurfTmeanAir_fields(3,4,5) [OF w] t show "?P t'"
      by simp
  qed
  then show ?thesis by simp
qed

lemma SetNodeResult_NodeSurfIDs:
  assumes "SetNodeResult i T st = Inr st'"
  shows "NodeSurfIDs st' j = NodeSurfIDs st j" and "MundtAirSurf st' = MundtAirSurf st"
    and "RoomNodeIDs st' = RoomNodeIDs st" and "FloorSurfSetIDs st' = FloorSurfSetIDs st"
    and "MundtCeilAirID st' = MundtCeilAirID st"
    and "NumRoomNodes st' = NumRoomNodes st" and "NumFloorSurfs st' = NumFloorSurfs st"
proof -
  from SetNodeResult_Inr [OF assms] obtain n ln where n: "Node_of st i = Inr n"
    and st': "st' = st\<lparr>LineNode := ln\<rparr>"
    and nodes: "\<And>j. Node_of st' j = (if j = i then Inr (n\<lparr>Temp := T\<rparr>) else Node_of st j)"
    by blast
  have "ID1dSurf st' = ID1dSurf st" by (simp add: st')
  then show "NodeSurfIDs st' j = NodeSurfIDs st j"
    by (simp add: NodeSurfIDs_def nodes n split: sum.split)
  show "MundtAirSurf st' = MundtAirSurf st" "RoomNodeIDs st' = RoomNodeIDs st"
    "FloorSurfSetIDs st' = FloorSurfSetIDs st" "MundtCeilAirID st' = MundtCeilAirID st"
    "NumRoomNodes st' = NumRoomNodes st" "NumFloorSurfs st' = NumFloorSurfs st"
    by (simp_all add: st')
qed

lemma surfaces_frame_NodeSurfIDs:
  assumes "st' = st\<lparr>TheseSurfIDs := ids, MundtAirSurf := ms\<rparr>"
  shows "NodeSurfIDs st' j = NodeSurfIDs st j"
  by (simp add: assms NodeSurfIDs_def Node_of_def split: sum.split)

lemma SetFloorSurfaces_surf:
  assumes "SetFloorSurfaces T st = Inr st'"
  shows "(\<forall>z j. j \<notin> set (take (nat (NumFloorSurfs st)) (FloorSurfSetIDs st)) \<longrightarrow>
            at2 (MundtAirSurf st') z j = at2 (MundtAirSurf st) z j) \<and>
         map (map Area) (MundtAirSurf st') = map (map Area) (MundtAirSurf st) \<and>
         map (map SurfTemp) (MundtAirSurf st') = map (map SurfTemp) (MundtAirSurf st) \<and>
         map (map Hc) (MundtAirSurf st') = map (map Hc) (MundtAirSurf st)"
  by (rule SurfLoop [where sel = FloorSurfSetIDs, OF assms [unfolded SetFloorSurfaces_def]]) simp

lemma SetNodeSurfaces_surf:
  assumes "SetNodeSurfaces i T st = Inr st'"
  shows "(\<forall>z j. j \<notin> NodeSurfIDs st i \<longrightarrow>
            at2 (MundtAirSurf st') z j = at2 (MundtAirSurf st) z j) \<and>
         map (map Area) (MundtAirSurf st') = map (map Area) (MundtAirSurf st) \<and>
         map (map SurfTemp) (MundtAirSurf st') = map (map SurfTemp) (MundtAirSurf st) \<and>
         map (map Hc) (MundtAirSurf st') = map (map Hc) (MundtAirSurf st)"
proof -
  from assms have "\<exists>n :: DefineLinearModelNode. Node_of st i = Inr n \<and>
      forE [1..count (SurfMask n)]
        (\<lambda>SurfNum s. bindE (at1 (TheseSurfIDs s) SurfNum) (\<lambda>SurfID. SetSurfTmeanAir SurfID T s))
        (st\<lparr>TheseSurfIDs := pack (ID1dSurf st) (SurfMask n)\<rparr>) = Inr st'"
    by (auto simp: SetNodeSurfaces_def bindE_eq_Inr Let_def)
  then obtain n :: DefineLinearModelNode where n: "Node_of st i = Inr n"
    and loop: "forE [1..count (SurfMask n)]
        (\<lambda>SurfNum s. bindE (at1 (TheseSurfIDs s) SurfNum) (\<lambda>SurfID. SetSurfTmeanAir SurfID T s))
        (st\<lparr>TheseSurfIDs := pack (ID1dSurf st) (SurfMask n)\<rparr>) = Inr st'"
    by blast
  have ids: "NodeSurfIDs st i = set (pack (ID1dSurf st) (SurfMask n))"
    by (simp add: NodeSurfIDs_def n)
  have "j \<notin> set (take (nat (count (SurfMask n))) (pack (ID1dSurf st) (SurfMask n)))"
    if "j \<notin> NodeSurfIDs st i" for j
    using that by (auto simp: ids dest: in_set_takeD)
  with SurfLoop [where sel = TheseSurfIDs, OF loop] show ?thesis
    by simp
qed

lemma SetRoomNode_surf:
  assumes "SetRoomNode TLeav Slope2 k st = Inr st'" and "k \<le> n"
  shows "(\<forall>z j. j \<notin> (\<Union>RoomID \<in> set (take (nat n) (RoomNodeIDs st)). NodeSurfIDs st RoomID) \<longrightarrow>
            at2 (MundtAirSurf st') z j = at2 (MundtAirSurf st) z j) \<and>
         map (map Area) (MundtAirSurf st') = map (map Area) (MundtAirSurf st) \<and>
         map (map SurfTemp) (MundtAirSurf st') = map (map SurfTemp) (MundtAirSurf st) \<and>
         map (map Hc) (MundtAirSurf st') = map (map Hc) (MundtAirSurf st) \<and>
         RoomNodeIDs st' = RoomNodeIDs st \<and> (\<forall>j. NodeSurfIDs st' j = NodeSurfIDs st j)"
proof -
  from assms(1) obtain T RoomID st1 where
    id: "at1 (RoomNodeIDs st) k = Inr RoomID"
    and s1: "SetNodeResult RoomID T st = Inr st1"
    and s2: "SetNodeSurfaces RoomID T st1 = Inr st'"
    by (auto simp: SetRoomNode_def bindE_eq_Inr Let_def)
  note a = SetNodeResult_NodeSurfIDs [OF s1]
  note b = SetNodeSurfaces_surf [OF s2]
  from SetNodeSurfaces_Inr [OF s2] obtain ids ms where
    st': "st' = st1\<lparr>TheseSurfIDs := ids, MundtAirSurf := ms\<rparr>"
    by blast
  have mem: "RoomID \<in> set (take (nat n) (RoomNodeIDs st))"
    using at1_in_take [OF id assms(2)] .
  have "at2 (MundtAirSurf st') z j = at2 (MundtAirSurf st) z j"
    if "j \<notin> (\<Union>RoomID \<in> set (take (nat n) (RoomNodeIDs st)). NodeSurfIDs st RoomID)" for z j
  proof -
    from that mem have "j \<notin> NodeSurfIDs st1 RoomID"
      by (auto simp: a(1))
    with b show ?thesis by (simp add: a(2))
  qed
  moreover have "RoomNodeIDs st' = RoomNodeIDs st"
    by (simp add: st' a(3))
  moreover have "NodeSurfIDs st' j = NodeSurfIDs st j" for j
    using surfaces_frame_NodeSurfIDs [OF st'] a(1) by simp
  ultimately show ?thesis
    using b by (simp add: a(2))
qed

lemma RoomLoop_surf:
  assumes "forE [1..n] (SetRoomNode TLeav Slope2) st = Inr st'"
  shows "(\<forall>z j. j \<notin> (\<Union>RoomID \<in> set (take (nat n) (RoomNodeIDs st)). NodeSurfIDs st RoomID) \<longrightarrow>
            at2 (MundtAirSurf st') z j = at2 (MundtAirSurf st) z j) \<and>
         map (map Area) (MundtAirSurf st') = map (map Area) (MundtAirSurf st) \<and>
         map (map SurfTemp) (MundtAirSurf st') = map (map SurfTemp) (MundtAirSurf st) \<and>
         map (map Hc) (MundtAirSurf st') = map (map Hc) (MundtAirSurf st)"
proof -
  let ?R = "\<Union>RoomID \<in> set (take (nat n) (RoomNodeIDs st)). NodeSurfIDs st RoomID"
  let ?P = "\<lambda>s. RoomNodeIDs s = RoomNodeIDs st \<and> (\<forall>j. NodeSurfIDs s j = NodeSurfIDs st j) \<and>
      (\<forall>z j. j \<notin> ?R \<longrightarrow> at2 (MundtAirSurf s) z j = at2 (MundtAirSurf st) z j) \<and>
      map (map Area) (MundtAirSurf s) = map (map Area) (MundtAirSurf st) \<and>
      map (map SurfTemp) (MundtAirSurf s) = map (map SurfTemp) (MundtAirSurf st) \<and>
      map (map Hc) (MundtAirSurf s) = map (map Hc) (MundtAirSurf st)"
  have "?P st'"
  proof (rule forE_invariant [OF assms, where P = ?P])
    show "?P st" by simp
  next
    fix k t t'
    assume k: "k \<in> set [1..n]" and t: "?P t" and step: "SetRoomNode TLeav Slope2 k t = Inr t'"
    from k have kn: "k \<le> n" by simp
    from t have R: "(\<Union>RoomID \<in> set (take (nat n) (RoomNodeIDs t)). NodeSurfIDs t RoomID) = ?R"
      by simp
    from SetRoomNode_surf [OF step kn, unfolded R] t show "?P t'"
      by simp
  qed
  then show ?thesis by simp
qed

lemma at2_map_eq:
  assumes "map (map g) a = map (map g) b" and "at2 a i j = Inr x"
  shows "\<exists>y. at2 b i j = Inr y \<and> g y = g x"
proof -
  from assms(2) have i: "inrange a i" and j: "inrange (a ! nat (i - 1)) j"
    and x: "x = a ! nat (i - 1) ! nat (j - 1)"
    by (auto simp: at2_def bindE_eq_Inr at1_Inr)
  have len: "length a = length b"
    using assms(1) by (metis length_map)
  have ni: "nat (i - 1) < length a"
    using i by (auto simp: inrange_def)
  have row: "map g (a ! nat (i - 1)) = map g (b ! nat (i - 1))"
    using assms(1) ni len by (metis nth_map)
  have len2: "length (a ! nat (i - 1)) = length (b ! nat (i - 1))"
    using row by (metis length_map)
  have nj: "nat (j - 1) < length (a ! nat (i - 1))"
    using j by (auto simp: inrange_def)
  have "g (a ! nat (i - 1) ! nat (j - 1)) = g (b ! nat (i - 1) ! nat (j - 1))"
    using row nj len2 by (metis nth_map)
  moreover have "at2 b i j = Inr (b ! nat (i - 1) ! nat (j - 1))"
    using i j len len2 by (simp add: at2_def at1_def inrange_def)
  ultimately show ?thesis by (simp add: x)
qed

lemma GetSurf_value:
  assumes "GetSurf h ZoneNum k t = Inr t'"
  shows "\<exists>zd x. at1 (ZoneData t') ZoneNum = Inr zd \<and>
           at2 (MundtAirSurf t') (MundtZoneNum t') k = Inr x \<and>
           SurfTemp x = TempSurfIn h (SurfFirst zd + k - 1) \<and>
           Hc x = HConvIn h (SurfFirst zd + k - 1)"
    and "(\<exists>zd x. at1 (ZoneData t) ZoneNum = Inr zd \<and>
           at2 (MundtAirSurf t) (MundtZoneNum t) i = Inr x \<and>
           SurfTemp x = TempSurfIn h (SurfFirst zd + i - 1) \<and>
           Hc x = HConvIn h (SurfFirst zd + i - 1)) \<Longrightarrow>
         (\<exists>zd x. at1 (ZoneData t') ZoneNum = Inr zd \<and>
           at2 (MundtAirSurf t') (MundtZoneNum t') i = Inr x \<and>
           SurfTemp x = TempSurfIn h (SurfFirst zd + i - 1) \<and>
           Hc x = HConvIn h (SurfFirst zd + i - 1))"
proof -
  from assms obtain zd :: DefineZoneData and ms where zd: "at1 (ZoneData t) ZoneNum = Inr zd"
    and u: "upd2 (MundtAirSurf t) (MundtZoneNum t) k
              (\<lambda>s. s\<lparr>SurfTemp := TempSurfIn h (SurfFirst zd + k - 1),
                      Hc := HConvIn h (SurfFirst zd + k - 1)\<rparr>) = Inr ms"
    and t': "t' = t\<lparr>MundtAirSurf := ms\<rparr>"
    by (auto simp: GetSurf_def bindE_eq_Inr)
  from at2_upd2 [OF u] obtain x0 where
    e: "\<And>i' j'. at2 ms i' j' =
          (if i' = MundtZoneNum t \<and> j' = k
           then Inr (x0\<lparr>SurfTemp := TempSurfIn h (SurfFirst zd + k - 1),
                       Hc := HConvIn h (SurfFirst zd + k - 1)\<rparr>)
           else at2 (MundtAirSurf t) i' j')"
    by blast
  show "\<exists>zd x. at1 (ZoneData t') ZoneNum = Inr zd \<and>
           at2 (MundtAirSurf t') (MundtZoneNum t') k = Inr x \<and>
           SurfTemp x = TempSurfIn h (SurfFirst zd + k - 1) \<and>
           Hc x = HConvIn h (SurfFirst zd + k - 1)"
    using zd by (simp add: t' e)
  show "\<exists>zd x. at1 (ZoneData t') ZoneNum = Inr zd \<and>
           at2 (MundtAirSurf t') (MundtZoneNum t') i = Inr x \<and>
           SurfTemp x = TempSurfIn h (SurfFirst zd + i - 1) \<and>
           Hc x = HConvIn h (SurfFirst zd + i - 1)"
    if "\<exists>zd x. at1 (ZoneData t) ZoneNum = Inr zd \<and>
           at2 (MundtAirSurf t) (MundtZoneNum t) i = Inr x \<and>
           SurfTemp x = TempSurfIn h (SurfFirst zd + i - 1) \<and>
           Hc x = HConvIn h (SurfFirst zd + i - 1)"
    using that zd by (auto simp: t' e)
qed

lemma GetSurfHBDataForMundtModel_values:
  assumes "GetSurfHBDataForMundtModel h ZoneNum st = Inr st'"
  shows "\<exists>zd. at1 (ZoneData st') ZoneNum = Inr zd \<and>
           (\<forall>SurfNum \<in> {1..NumOfSurfs zd}. \<exists>x.
              at2 (MundtAirSurf st') (MundtZoneNum st') SurfNum = Inr x \<and>
              SurfTemp x = TempSurfIn h (SurfFirst zd + SurfNum - 1) \<and>
              Hc x = HConvIn h (SurfFirst zd + SurfNum - 1))"
proof -
  from assms obtain st3 and zd :: DefineZoneData where zd3: "at1 (ZoneData st3) ZoneNum = Inr zd"
    and loop: "forE [1..NumOfSurfs zd] (GetSurf h ZoneNum) st3 = Inr st'"
    and z3: "ZoneData st3 = ZoneData st"
    by (auto simp: GetSurfHBDataForMundtModel_def bindE_eq_Inr Let_def split_beta
        split: if_splits)
  have zd': "at1 (ZoneData st') ZoneNum = Inr zd"
    using zd3 z3 GetSurfHBDataForMundtModel_fields(2) [OF assms] by simp
  have "\<forall>k \<in> set [1..NumOfSurfs zd]. \<exists>zd x. at1 (ZoneData st') ZoneNum = Inr zd \<and>
           at2 (MundtAirSurf st') (MundtZoneNum st') k = Inr x \<and>
           SurfTemp x = TempSurfIn h (SurfFirst zd + k - 1) \<and>
           Hc x = HConvIn h (SurfFirst zd + k - 1)"
    by (rule forE_each [OF loop]) (use GetSurf_value in blast)+
  with zd' show ?thesis by auto
qed

lemma surf_frame_NodeSurfIDs:
  assumes "st' = st\<lparr>MundtAirSurf := ms\<rparr>"
  shows "NodeSurfIDs st' j = NodeSurfIDs st j"
  by (simp add: assms NodeSurfIDs_def Node_of_def split: sum.split)

lemma CalcMundtModel_surf:
  assumes "CalcMundtModel h ZoneNum st = Inr st'"
  shows "(\<forall>z j. j \<notin> TMeanAirTargets st \<longrightarrow>
            at2 (MundtAirSurf st') z j = at2 (MundtAirSurf st) z j) \<and>
         map (map Area) (MundtAirSurf st') = map (map Area) (MundtAirSurf st) \<and>
         map (map SurfTemp) (MundtAirSurf st') = map (map SurfTemp) (MundtAirSurf st) \<and>
         map (map Hc) (MundtAirSurf st') = map (map Hc) (MundtAirSurf st)"
proof -
  from assms obtain L :: MundtLocals and st1 st2 st3 st4 st5 st6 st7 where
    s1: "SetNodeResult (SupplyNodeID st) (SupplyAirTemp st) st = Inr st1"
    and s2: "SetNodeResult (ReturnNodeID st1) (TLeaving L) st1 = Inr st2"
    and s3: "SetNodeResult (MundtCeilAirID st2) (TAirCeil L) st2 = Inr st3"
    and s4: "SetNodeResult (MundtFootAirID st3) (TAirFoot L) st3 = Inr st4"
    and s5: "SetNodeResult (TstatNodeID st4) (TControlPoint L) st4 = Inr st5"
    and s6: "SetFloorSurfaces (TAirFoot L) st5 = Inr st6"
    and s7: "SetNodeSurfaces (MundtCeilAirID st6) (TAirCeil L) st6 = Inr st7"
    and loop: "forE [1..NumRoomNodes st7] (SetRoomNode (TLeaving L) (Slope L)) st7 = Inr st'"
    unfolding CalcMundtModel_def bindE_eq_Inr by blast
  note n1 = SetNodeResult_NodeSurfIDs [OF s1] and n2 = SetNodeResult_NodeSurfIDs [OF s2]
    and n3 = SetNodeResult_NodeSurfIDs [OF s3] and n4 = SetNodeResult_NodeSurfIDs [OF s4]
    and n5 = SetNodeResult_NodeSurfIDs [OF s5]
  have five: "MundtAirSurf st5 = MundtAirSurf st" "RoomNodeIDs st5 = RoomNodeIDs st"
    "FloorSurfSetIDs st5 = FloorSurfSetIDs st" "MundtCeilAirID st5 = MundtCeilAirID st"
    "\<And>j. NodeSurfIDs st5 j = NodeSurfIDs st j"
    "NumRoomNodes st5 = NumRoomNodes st" "NumFloorSurfs st5 = NumFloorSurfs st"
    by (simp_all add: n1 n2 n3 n4 n5)
  from SetFloorSurfaces_Inr [OF s6] obtain ms6 where e6: "st6 = st5\<lparr>MundtAirSurf := ms6\<rparr>"
    by blast
  from SetNodeSurfaces_Inr [OF s7] obtain ids7 ms7 where
    e7: "st7 = st6\<lparr>TheseSurfIDs := ids7, MundtAirSurf := ms7\<rparr>" by blast
  have six: "RoomNodeIDs st6 = RoomNodeIDs st" "MundtCeilAirID st6 = MundtCeilAirID st"
    "\<And>j. NodeSurfIDs st6 j = NodeSurfIDs st j" "NumRoomNodes st6 = NumRoomNodes st"
    using five surf_frame_NodeSurfIDs [OF e6] by (simp_all add: e6)
  have seven: "RoomNodeIDs st7 = RoomNodeIDs st" "\<And>j. NodeSurfIDs st7 j = NodeSurfIDs st j"
    "NumRoomNodes st7 = NumRoomNodes st"
    using six surfaces_frame_NodeSurfIDs [OF e7] by (simp_all add: e7)
  note f = SetFloorSurfaces_surf [OF s6, unfolded five]
  note c = SetNodeSurfaces_surf [OF s7, unfolded six]
  note r = RoomLoop_surf [OF loop, unfolded seven]
  have "at2 (MundtAirSurf st') z j = at2 (MundtAirSurf st) z j"
    if "j \<notin> TMeanAirTargets st" for z j
  proof -
    from that have a: "j \<notin> set (take (nat (NumFloorSurfs st)) (FloorSurfSetIDs st))"
      and b: "j \<notin> NodeSurfIDs st (MundtCeilAirID st)"
      and d: "j \<notin> (\<Union>RoomID \<in> set (take (nat (NumRoomNodes st)) (RoomNodeIDs st)).
                     NodeSurfIDs st RoomID)"
      by (auto simp: TMeanAirTargets_def)
    from r d have "at2 (MundtAirSurf st') z j = at2 (MundtAirSurf st7) z j" by blast
    also from c b have "\<dots> = at2 (MundtAirSurf st6) z j" by blast
    also from f a have "\<dots> = at2 (MundtAirSurf st) z j" by blast
    finally show ?thesis .
  qed
  moreover have "map (map Area) (MundtAirSurf st') = map (map Area) (MundtAirSurf st)"
    using r c f by simp
  moreover have "map (map SurfTemp) (MundtAirSurf st') = map (map SurfTemp) (MundtAirSurf st)"
    using r c f by simp
  moreover have "map (map Hc) (MundtAirSurf st') = map (map Hc) (MundtAirSurf st)"
    using r c f by simp
  ultimately show ?thesis by blast
qed

lemma RoomLoop_NodeSurfIDs:
  assumes "forE js (SetRoomNode TLeav Slope2) st = Inr st'"
  shows "RoomNodeIDs st' = RoomNodeIDs st \<and> (\<forall>j. NodeSurfIDs st' j = NodeSurfIDs st j)"
proof (rule forE_invariant [OF assms,
      where P = "\<lambda>s. RoomNodeIDs s = RoomNodeIDs st \<and> (\<forall>j. NodeSurfIDs s j = NodeSurfIDs st j)"])
  fix k t t'
  assume "RoomNodeIDs t = RoomNodeIDs st \<and> (\<forall>j. NodeSurfIDs t j = NodeSurfIDs st j)"
    and "SetRoomNode TLeav Slope2 k t = Inr t'"
  then show "RoomNodeIDs t' = RoomNodeIDs st \<and> (\<forall>j. NodeSurfIDs t' j = NodeSurfIDs st j)"
    using SetRoomNode_surf [of TLeav Slope2 k t t' k] by simp
qed simp

lemma CalcMundtModel_targets:
  assumes "CalcMundtModel h ZoneNum st = Inr st'"
  shows "TMeanAirTargets st' = TMeanAirTargets st"
proof -
  from assms obtain L :: MundtLocals and st1 st2 st3 st4 st5 st6 st7 where
    s1: "SetNodeResult (SupplyNodeID st) (SupplyAirTemp st) st = Inr st1"
    and s2: "SetNodeResult (ReturnNodeID st1) (TLeaving L) st1 = Inr st2"
    and s3: "SetNodeResult (MundtCeilAirID st2) (TAirCeil L) st2 = Inr st3"
    and s4: "SetNodeResult (MundtFootAirID st3) (TAirFoot L) st3 = Inr st4"
    and s5: "SetNodeResult (TstatNodeID st4) (TControlPoint L) st4 = Inr st5"
    and s6: "SetFloorSurfaces (TAirFoot L) st5 = Inr st6"
    and s7: "SetNodeSurfaces (MundtCeilAirID st6) (TAirCeil L) st6 = Inr st7"
    and loop: "forE [1..NumRoomNodes st7] (SetRoomNode (TLeaving L) (Slope L)) st7 = Inr st'"
    unfolding CalcMundtModel_def bindE_eq_Inr by blast
  note n1 = SetNodeResult_NodeSurfIDs [OF s1] and n2 = SetNodeResult_NodeSurfIDs [OF s2]
    and n3 = SetNodeResult_NodeSurfIDs [OF s3] and n4 = SetNodeResult_NodeSurfIDs [OF s4]
    and n5 = SetNodeResult_NodeSurfIDs [OF s5]
  from SetFloorSurfaces_Inr [OF s6] obtain ms6 where e6: "st6 = st5\<lparr>MundtAirSurf := ms6\<rparr>"
    by blast
  from SetNodeSurfaces_Inr [OF s7] obtain ids7 ms7 where
    e7: "st7 = st6\<lparr>TheseSurfIDs := ids7, MundtAirSurf := ms7\<rparr>" by blast
  have seven: "RoomNodeIDs st7 = RoomNodeIDs st" "\<And>j. NodeSurfIDs st7 j = NodeSurfIDs st j"
    using surfaces_frame_NodeSurfIDs [OF e7] surf_frame_NodeSurfIDs [OF e6]
    by (simp_all add: e7 e6 n1 n2 n3 n4 n5)
  from CalcMundtModel_frame [OF assms]
  have "FloorSurfSetIDs st' = FloorSurfSetIDs st" "MundtCeilAirID st' = MundtCeilAirID st"
    "NumFloorSurfs st' = NumFloorSurfs st" "NumRoomNodes st' = NumRoomNodes st"
    by auto
  with RoomLoop_NodeSurfIDs [OF loop] seven show ?thesis
    by (simp add: TMeanAirTargets_def)
qed

lemma ManageInbound_values:
  assumes "ManageInbound ZoneNum (h, st) = Inr (h1, st2)"
  shows "\<exists>zd. at1 (ZoneData st2) ZoneNum = Inr zd \<and>
           (\<forall>SurfNum \<in> {1..NumOfSurfs zd}. \<exists>x.
              at2 (MundtAirSurf st2) (MundtZoneNum st2) SurfNum = Inr x \<and>
              SurfTemp x = TempSurfIn h1 (SurfFirst zd + SurfNum - 1) \<and>
              Hc x = HConvIn h1 (SurfFirst zd + SurfNum - 1))"
proof -
  from assms obtain st1 where
    "GetSurfHBDataForMundtModel h1 ZoneNum st1 = Inr st2"
    by (auto simp: ManageInbound_def bindE_eq_Inr split: if_splits)
  then show ?thesis by (rule GetSurfHBDataForMundtModel_values)
qed

lemmas ex_set_defs =
  SetSurfHBDataForMundtModel_def SetBulkDirect_def SetBulkIndirect_def SetBulkMixing_def
  SystemOn_def Temp_of_def Node_of_def at2_def at1_def inrange_def upto_from_1

lemma ex_set:
  "SetSurfHBDataForMundtModel 1 ex_st_solved ex_host = Inr ex_host_solved"
  by (simp add: ex_set_defs ex_st_solved_def ex_st_def ex_nodes_def ex_surf_def ex_host_def
      ex_host_solved_def)

lemma ex_manage: "ManageMundtModel 1 (ex_host, mundt0) = Inr (ex_host_solved, ex_st_solved)"
proof -
  have "SystemOn ex_st_in"
    by (simp add: SystemOn_def ex_st_in_def ex_st_def)
  then show ?thesis
    by (simp add: ManageMundtModel_def ex_inbound ex_run ex_set)
qed

lemma ex_inbound_idle:
  "ManageInbound 1 (ex_host_off, ex_st_solved) = Inr (ex_host_off, ex_st_idle)"
  by (simp add: ex_get_defs ex_host_off_def ex_host_def ex_st_idle_def ex_st_solved_def
      ex_st_def ex_surf_def upto_from_1 upd1_def upd2_def at1_def inrange_def Let_def)

lemma ex_manage_idle:
  "map_sum id snd (ManageMundtModel 1 (ex_host_off, ex_st_solved)) = Inr ex_st_idle"
  by (simp add: ManageMundtModel_def ex_inbound_idle)
    (simp add: ex_set_defs ex_st_idle_def ex_st_solved_def ex_st_def)

lemma ex_targets: "TMeanAirTargets ex_st_solved = {1, 2, 3}"
  by (auto simp: TMeanAirTargets_def NodeSurfIDs_def Node_of_def at2_def at1_def inrange_def
      pack_def ex_st_solved_def ex_st_def ex_nodes_def)

subsection \<open>The gate\<close>

lemma forE_total:
  assumes "\<And>j t. j \<in> set js \<Longrightarrow> \<exists>t'. body j t = Inr t'"
  shows "\<exists>s'. forE js body s = Inr s'"
  using assms
proof (induction js arbitrary: s)
  case Nil
  show ?case by simp
next
  case (Cons j js)
  from Cons.prems [of j s] obtain t where t: "body j s = Inr t"
    by auto
  have "\<exists>s'. forE js body t = Inr s'"
    by (rule Cons.IH) (simp add: Cons.prems)
  with t show ?case
    by simp
qed

lemma Temp_of_Height_of: "Height_of st i = Inr x \<Longrightarrow> \<exists>t. Temp_of st i = Inr t"
  by (auto simp: Height_of_def Temp_of_def bindE_eq_Inr)

text \<open>After the solve the temperatures of the four nodes that the transfer to the heat
  balance reads are there.\<close>

lemma CalcMundtModel_temps:
  assumes "CalcMundtModel h ZoneNum st = Inr st'"
  shows "\<exists>a b c d. Temp_of st' (MundtCeilAirID st') = Inr a \<and>
           Temp_of st' (MundtFootAirID st') = Inr b \<and>
           Temp_of st' (ReturnNodeID st') = Inr c \<and>
           Temp_of st' (TstatNodeID st') = Inr d"
proof -
  from CalcMundtModel_InrD [OF assms] obtain L st7 where
    L: "CalcMundtLocals h ZoneNum st = Inr L"
    and loop: "forE [1..NumRoomNodes st] (SetRoomNode (TLeaving L) (Slope L)) st7 = Inr st'"
    and H: "\<And>j. Height_of st7 j = Height_of st j"
    by blast
  from CalcMundtLocals_InrD [OF L] obtain HReturn HFoot HCeil HTstat where
    hs: "Height_of st (ReturnNodeID st) = Inr HReturn"
      "Height_of st (MundtFootAirID st) = Inr HFoot"
      "Height_of st (MundtCeilAirID st) = Inr HCeil"
      "Height_of st (TstatNodeID st) = Inr HTstat"
    by blast
  from CalcMundtModel_frame [OF assms] have ids: "MundtCeilAirID st' = MundtCeilAirID st"
    "MundtFootAirID st' = MundtFootAirID st" "ReturnNodeID st' = ReturnNodeID st"
    "TstatNodeID st' = TstatNodeID st"
    by auto
  have H': "Height_of st' j = Height_of st j" for j
    using RoomLoop_fields(2) [OF loop] H by simp
  from hs have "\<exists>a. Temp_of st' (MundtCeilAirID st) = Inr a"
    "\<exists>b. Temp_of st' (MundtFootAirID st) = Inr b"
    "\<exists>c. Temp_of st' (ReturnNodeID st) = Inr c"
    "\<exists>d. Temp_of st' (TstatNodeID st) = Inr d"
    by (simp_all add: Temp_of_Height_of [of st'] H')
  then show ?thesis
    unfolding ids by blast
qed

text \<open>With the system on, the transfer to the heat balance returns once the entries of
  the surfaces and the temperatures of the four nodes can be read.\<close>

lemma SetSurfHBDataForMundtModel_total:
  assumes zd: "at1 (ZoneData st) ZoneNum = Inr zd" and on: "SystemOn st"
    and surf: "\<forall>SurfNum \<in> {1..NumOfSurfs zd}. \<exists>x.
                 at2 (MundtAirSurf st) (MundtZoneNum st) SurfNum = Inr x"
    and temps: "Temp_of st (MundtCeilAirID st) = Inr a" "Temp_of st (MundtFootAirID st) = Inr b"
      "Temp_of st (ReturnNodeID st) = Inr c" "Temp_of st (TstatNodeID st) = Inr d"
  shows "\<exists>h'. SetSurfHBDataForMundtModel ZoneNum st h = Inr h' \<and> SimAirModel h' ZoneNum"
proof (cases "TempCoupleScheme h ZoneNum = DirectCoupling")
  case True
  have "\<exists>h1. forE [1..NumOfSurfs zd] (SetBulkDirect st (SurfFirst zd)) h = Inr h1"
  proof (rule forE_total)
    fix j t assume "j \<in> set [1..NumOfSurfs zd]"
    then have "j \<in> {1..NumOfSurfs zd}"
      by simp
    with surf obtain x where "at2 (MundtAirSurf st) (MundtZoneNum st) j = Inr x"
      by blast
    then show "\<exists>t'. SetBulkDirect st (SurfFirst zd) j t = Inr t'"
      by (simp add: SetBulkDirect_def)
  qed
  then obtain h1 where "forE [1..NumOfSurfs zd] (SetBulkDirect st (SurfFirst zd)) h = Inr h1"
    by blast
  then show ?thesis
    using zd on True temps by (simp add: SetSurfHBDataForMundtModel_def)
next
  case False
  have "\<exists>h1. forE [1..NumOfSurfs zd] (SetBulkIndirect st ZoneNum (SurfFirst zd)) h = Inr h1"
  proof (rule forE_total)
    fix j t assume "j \<in> set [1..NumOfSurfs zd]"
    then have "j \<in> {1..NumOfSurfs zd}"
      by simp
    with surf obtain x where "at2 (MundtAirSurf st) (MundtZoneNum st) j = Inr x"
      by blast
    then show "\<exists>t'. SetBulkIndirect st ZoneNum (SurfFirst zd) j t = Inr t'"
      using temps(4) by (simp add: SetBulkIndirect_def)
  qed
  then obtain h1 where
    "forE [1..NumOfSurfs zd] (SetBulkIndirect st ZoneNum (SurfFirst zd)) h = Inr h1"
    by blast
  then show ?thesis
    using zd on False temps by (simp add: SetSurfHBDataForMundtModel_def)
qed

text \<open>Claim C4. After the transfer of the heat-balance data, the set-up of the roles and
  the solve run exactly when the supply volume flow and the total cooling load both exceed
  0.0001: the call then fails where the two fail and otherwise returns with the state that
  the two leave, the flag of the model in use being set. When one of the thresholds
  fails, the call returns with the module's state as the transfer left it (no temperature
  of an air node and no effective air temperature of a surface is changed; on a call
  other than the first they are those from before the call), the bulk effective air
  temperature of every surface of the zone is the mean air temperature of the host with
  the reference mode of the zone mean air, and the flag of the model in use is false.\<close>

theorem ManageMundtModel_gate:
  assumes "ManageInbound ZoneNum (h, st) = Inr (h1, st2)"
  shows "(SystemOn st2 \<longleftrightarrow> SupplyAirVolumeRate st2 > 0.0001 \<and> QsysCoolTot st2 > 0.0001) \<and>
         (SystemOn st2 \<longrightarrow>
            (\<forall>e. RunMundtModel ZoneNum (h1, st2) = Inl e \<longrightarrow>
               ManageMundtModel ZoneNum (h, st) = Inl e) \<and>
            (\<forall>h3 st3. RunMundtModel ZoneNum (h1, st2) = Inr (h3, st3) \<longrightarrow>
               (\<exists>h'. ManageMundtModel ZoneNum (h, st) = Inr (h', st3) \<and>
                  SimAirModel h' ZoneNum)) \<and>
            (\<forall>h' st'. ManageMundtModel ZoneNum (h, st) = Inr (h', st') \<longrightarrow>
               (\<exists>h3. RunMundtModel ZoneNum (h1, st2) = Inr (h3, st')) \<and>
               SimAirModel h' ZoneNum)) \<and>
         (\<not> SystemOn st2 \<longrightarrow>
            (\<exists>h' zd. ManageMundtModel ZoneNum (h, st) = Inr (h', st2) \<and>
               at1 (ZoneData st2) ZoneNum = Inr zd \<and>
               (\<forall>SurfNum \<in> {1..NumOfSurfs zd}.
                  TempEffBulkAir h' (SurfFirst zd + SurfNum - 1) = MAT h1 ZoneNum \<and>
                  TAirRef h' (SurfFirst zd + SurfNum - 1) = ZoneMeanAirTemp) \<and>
               \<not> SimAirModel h' ZoneNum \<and>
               (\<not> FirstTimeFlag st \<longrightarrow>
                  LineNode st2 = LineNode st \<and>
                  map (map TMeanAir) (MundtAirSurf st2) = map (map TMeanAir) (MundtAirSurf st))))"
proof -
  have gate: "SystemOn st2 \<longleftrightarrow> SupplyAirVolumeRate st2 > 0.0001 \<and> QsysCoolTot st2 > 0.0001"
    by (simp add: SystemOn_def)
  have fails: "ManageMundtModel ZoneNum (h, st) = Inl e"
    if "SystemOn st2" and "RunMundtModel ZoneNum (h1, st2) = Inl e" for e
    using that assms by (simp add: ManageMundtModel_def)
  have runs: "\<exists>h'. ManageMundtModel ZoneNum (h, st) = Inr (h', st3) \<and> SimAirModel h' ZoneNum"
    if on: "SystemOn st2" and run: "RunMundtModel ZoneNum (h1, st2) = Inr (h3, st3)" for h3 st3
  proof -
    note f = RunMundtModel_fields [OF run]
    have on3: "SystemOn st3"
      using on f(1,2) by (simp add: SystemOn_def)
    from run obtain st1 where
      su: "SetupMundtModel ZoneNum (h1, st2, False) = Inr (h3, st1, False)"
      and calc: "CalcMundtModel h3 ZoneNum st1 = Inr st3"
      by (auto simp: RunMundtModel_def bindE_eq_Inr split: if_splits)
    note k = SetupMundtModel_fields(1) [OF su, unfolded SetupKeeps_def]
    note c = CalcMundtModel_surf [OF calc]
    from ManageInbound_values [OF assms] obtain zd where
      zd: "at1 (ZoneData st2) ZoneNum = Inr zd"
      and vals: "\<forall>SurfNum \<in> {1..NumOfSurfs zd}. \<exists>x.
              at2 (MundtAirSurf st2) (MundtZoneNum st2) SurfNum = Inr x \<and>
              SurfTemp x = TempSurfIn h1 (SurfFirst zd + SurfNum - 1) \<and>
              Hc x = HConvIn h1 (SurfFirst zd + SurfNum - 1)"
      by blast
    have zd3: "at1 (ZoneData st3) ZoneNum = Inr zd"
      using zd f(3) by simp
    have T: "map (map SurfTemp) (MundtAirSurf st2) = map (map SurfTemp) (MundtAirSurf st3)"
      using k c by simp
    have surf3: "\<forall>SurfNum \<in> {1..NumOfSurfs zd}. \<exists>y.
                 at2 (MundtAirSurf st3) (MundtZoneNum st3) SurfNum = Inr y"
    proof
      fix SurfNum assume "SurfNum \<in> {1..NumOfSurfs zd}"
      with vals obtain x where "at2 (MundtAirSurf st2) (MundtZoneNum st2) SurfNum = Inr x"
        by blast
      from at2_map_eq [OF T this] show "\<exists>y. at2 (MundtAirSurf st3) (MundtZoneNum st3) SurfNum = Inr y"
        by (auto simp: f(4))
    qed
    from CalcMundtModel_temps [OF calc] obtain a b c d where
      temps: "Temp_of st3 (MundtCeilAirID st3) = Inr a" "Temp_of st3 (MundtFootAirID st3) = Inr b"
        "Temp_of st3 (ReturnNodeID st3) = Inr c" "Temp_of st3 (TstatNodeID st3) = Inr d"
      by blast
    from SetSurfHBDataForMundtModel_total [OF zd3 on3 surf3 temps, of h3] obtain h' where
      set: "SetSurfHBDataForMundtModel ZoneNum st3 h3 = Inr h'" and flag: "SimAirModel h' ZoneNum"
      by blast
    have "ManageMundtModel ZoneNum (h, st) = Inr (h', st3)"
      using assms on run set by (simp add: ManageMundtModel_def)
    with flag show ?thesis
      by blast
  qed
  have on: "(\<exists>h3. RunMundtModel ZoneNum (h1, st2) = Inr (h3, st')) \<and> SimAirModel h' ZoneNum"
    if "SystemOn st2" and "ManageMundtModel ZoneNum (h, st) = Inr (h', st')" for h' st'
  proof -
    from that assms obtain h3 where run: "RunMundtModel ZoneNum (h1, st2) = Inr (h3, st')"
      and set: "SetSurfHBDataForMundtModel ZoneNum st' h3 = Inr h'"
      by (auto simp: ManageMundtModel_def bindE_eq_Inr)
    have "SystemOn st'"
      using that(1) RunMundtModel_fields(1,2) [OF run] by (simp add: SystemOn_def)
    from SetSurfHBDataForMundtModel_on [OF set this] run show ?thesis by blast
  qed
  have off: "\<exists>h' zd. ManageMundtModel ZoneNum (h, st) = Inr (h', st2) \<and>
               at1 (ZoneData st2) ZoneNum = Inr zd \<and>
               (\<forall>SurfNum \<in> {1..NumOfSurfs zd}.
                  TempEffBulkAir h' (SurfFirst zd + SurfNum - 1) = MAT h1 ZoneNum \<and>
                  TAirRef h' (SurfFirst zd + SurfNum - 1) = ZoneMeanAirTemp) \<and>
               \<not> SimAirModel h' ZoneNum \<and>
               (\<not> FirstTimeFlag st \<longrightarrow>
                  LineNode st2 = LineNode st \<and>
                  map (map TMeanAir) (MundtAirSurf st2) = map (map TMeanAir) (MundtAirSurf st))"
    if "\<not> SystemOn st2"
  proof -
    from ManageInbound_fields(1) [OF assms] obtain zd where
      zd: "at1 (ZoneData st2) ZoneNum = Inr zd" by blast
    from SetSurfHBDataForMundtModel_off [OF zd that, of h1] obtain h' where
      set: "SetSurfHBDataForMundtModel ZoneNum st2 h1 = Inr h'"
      and bulk: "\<forall>SurfNum \<in> {1..NumOfSurfs zd}.
              TempEffBulkAir h' (SurfFirst zd + SurfNum - 1) = MAT h1 ZoneNum \<and>
              TAirRef h' (SurfFirst zd + SurfNum - 1) = ZoneMeanAirTemp"
      and flag: "\<not> SimAirModel h' ZoneNum"
      by blast
    have "ManageMundtModel ZoneNum (h, st) = Inr (h', st2)"
      using assms that set by (simp add: ManageMundtModel_def)
    with zd bulk flag ManageInbound_fields(2) [OF assms] show ?thesis
      by blast
  qed
  from gate fails runs on off show ?thesis by blast
qed

theorem ManageMundtModel_gate_witness:
  "ManageInbound 1 (ex_host_off, mundt0) = Inr (ex_host_off, ex_st_in_off) \<and>
   \<not> SystemOn ex_st_in_off \<and>
   at1 (ZoneData ex_st_in_off) 1 = Inr \<lparr>SurfFirst = 1, NumOfSurfs = 4, MundtZoneIndex = 1\<rparr> \<and>
   MAT ex_host_off 1 = 18 \<and>
   (\<exists>h'. ManageMundtModel 1 (ex_host_off, mundt0) = Inr (h', ex_st_in_off) \<and>
      map (TempEffBulkAir h') [1, 2, 3, 4] = [18, 18, 18, 18] \<and>
      map (TAirRef h') [1, 2, 3, 4] =
        [ZoneMeanAirTemp, ZoneMeanAirTemp, ZoneMeanAirTemp, ZoneMeanAirTemp] \<and>
      \<not> SimAirModel h' 1) \<and>
   ManageInbound 1 (ex_host, mundt0) = Inr (ex_host, ex_st_in) \<and> SystemOn ex_st_in \<and>
   RunMundtModel 1 (ex_host, ex_st_in) = Inr (ex_host, ex_st_solved) \<and>
   (\<exists>h'. ManageMundtModel 1 (ex_host, mundt0) = Inr (h', ex_st_solved) \<and> SimAirModel h' 1)"
proof -
  have off: "\<not> SystemOn ex_st_in_off"
    by (simp add: SystemOn_def ex_st_in_off_def)
  have zd: "at1 (ZoneData ex_st_in_off) 1 = Inr \<lparr>SurfFirst = 1, NumOfSurfs = 4, MundtZoneIndex = 1\<rparr>"
    by (simp add: at1_def inrange_def ex_st_in_off_def ex_st_in_def ex_st_def)
  have mat: "MAT ex_host_off 1 = 18"
    by (simp add: ex_host_off_def ex_host_def)
  from ManageMundtModel_gate [OF ex_inbound_off, THEN conjunct2, THEN conjunct2, rule_format, OF off]
  obtain h' zd' where m: "ManageMundtModel 1 (ex_host_off, mundt0) = Inr (h', ex_st_in_off)"
    and zd': "at1 (ZoneData ex_st_in_off) 1 = Inr zd'"
    and bulk': "\<forall>SurfNum \<in> {1..NumOfSurfs zd'}.
          TempEffBulkAir h' (SurfFirst zd' + SurfNum - 1) = MAT ex_host_off 1 \<and>
          TAirRef h' (SurfFirst zd' + SurfNum - 1) = ZoneMeanAirTemp"
    and flag: "\<not> SimAirModel h' 1"
    by blast
  have "zd' = \<lparr>SurfFirst = 1, NumOfSurfs = 4, MundtZoneIndex = 1\<rparr>"
    using zd zd' by simp
  with bulk' have bulk: "\<forall>SurfNum \<in> set [1..4].
          TempEffBulkAir h' (1 + SurfNum - 1) = MAT ex_host_off 1 \<and>
          TAirRef h' (1 + SurfNum - 1) = ZoneMeanAirTemp"
    by simp
  have "map (TempEffBulkAir h') [1, 2, 3, 4] = [18, 18, 18, 18] \<and>
      map (TAirRef h') [1, 2, 3, 4] =
        [ZoneMeanAirTemp, ZoneMeanAirTemp, ZoneMeanAirTemp, ZoneMeanAirTemp]"
    using bulk mat by (simp add: upto_from_1 del: set_upto)
  with m flag have "\<exists>h'. ManageMundtModel 1 (ex_host_off, mundt0) = Inr (h', ex_st_in_off) \<and>
      map (TempEffBulkAir h') [1, 2, 3, 4] = [18, 18, 18, 18] \<and>
      map (TAirRef h') [1, 2, 3, 4] =
        [ZoneMeanAirTemp, ZoneMeanAirTemp, ZoneMeanAirTemp, ZoneMeanAirTemp] \<and>
      \<not> SimAirModel h' 1"
    by (intro exI [of _ h']) simp
  moreover have on: "SystemOn ex_st_in"
    by (simp add: SystemOn_def ex_st_in_def ex_st_def)
  moreover from ManageMundtModel_gate [OF ex_inbound, THEN conjunct2, THEN conjunct1,
      rule_format, OF on, THEN conjunct2, THEN conjunct1, rule_format, OF ex_run]
  have "\<exists>h'. ManageMundtModel 1 (ex_host, mundt0) = Inr (h', ex_st_solved) \<and> SimAirModel h' 1" .
  ultimately show ?thesis
    using ex_inbound_off off zd mat ex_inbound ex_run by simp
qed

subsection \<open>The unmatched air nodes in the build of the topology\<close>

lemma NodeMatches_ErrLog [simp]: "NodeMatches (h\<lparr>ErrLog := lg\<rparr>) = NodeMatches h"
  by (simp add: fun_eq_iff NodeMatches_def)

lemma UnmatchedFrom_ErrLog [simp]:
  "UnmatchedFrom (h\<lparr>ErrLog := lg\<rparr>) z c ns = UnmatchedFrom h z c ns"
  by (induction ns arbitrary: c) (simp_all split: option.split)

lemma UnmatchedNodes_ErrLog [simp]:
  "UnmatchedNodes (h\<lparr>ErrLog := lg\<rparr>) z = UnmatchedNodes h z"
  by (simp add: UnmatchedNodes_def)

lemma NotFoundMessage_ErrLog [simp]: "NotFoundMessage (h\<lparr>ErrLog := lg\<rparr>) z = NotFoundMessage h z"
  by (simp add: NotFoundMessage_def)

text \<open>One air node of the scan.\<close>

lemma InitNode_step:
  assumes "InitNode z MZI NodeNum (h, st, l) = Inr (h', st', l')"
  shows "\<exists>c. c = (if NodeNum = 1 then 1 else AirNodeBeginNum l) \<and> c \<le> TotNumOfAirNodes h \<and>
           (case find (NodeMatches h z) [c..TotNumOfAirNodes h] of
              None \<Rightarrow> h' = h\<lparr>ErrLog := ErrLog h @ [NotFoundMessage h z]\<rparr> \<and>
                       AirNodeBeginNum l' = c \<and> ErrorsFound l' \<and> \<not> AirNodeFoundFlag l'
            | Some a \<Rightarrow> h' = h \<and> AirNodeBeginNum l' = a + 1 \<and>
                       ErrorsFound l' = ErrorsFound l \<and> AirNodeFoundFlag l') \<and>
           ZoneData st' = ZoneData st"
proof -
  from assms obtain zd :: DefineZoneData and ln where
    r: "(let st1 = st\<lparr>LineNode := ln\<rparr>;
           l1 = (if NodeNum = 1 then l\<lparr>AirNodeBeginNum := NodeNum\<rparr> else l)
       in
       if AirNodeBeginNum l1 > TotNumOfAirNodes h then
         Inl (FatalError
           ''An array bound exceeded. Error in InitMundtModel subroutine of MundtSimMgr.'')
       else
         (case find (\<lambda>AirNodeNum.
                       SameString (AN_ZoneName (AirNode h AirNodeNum)) (ZoneName h z))
                 [AirNodeBeginNum l1..TotNumOfAirNodes h] of
            None \<Rightarrow>
              Inr (ShowSevereError
                     (''InitMundtModel: Air Node in Zone='' @ [CHR 0x22] @ ZoneName h z
                        @ [CHR 0x22] @ '' is not found.'') h,
                   st1, l1\<lparr>AirNodeFoundFlag := False, ErrorsFound := True\<rparr>)
          | Some AirNodeNum \<Rightarrow>
              bindE (upd2 (LineNode st1) MZI NodeNum
                       (\<lambda>n. n\<lparr>ClassType := AN_ClassType (AirNode h AirNodeNum),
                               AirNodeName := AN_Name (AirNode h AirNodeNum),
                               Height := AN_Height (AirNode h AirNodeNum),
                               SurfMask := AN_SurfMask (AirNode h AirNodeNum)\<rparr>)) (\<lambda>ln2.
              (let l2 = l1\<lparr>AirNodeBeginNum := AirNodeNum + 1, AirNodeFoundFlag := True\<rparr>;
                   l3 = (if AN_ClassType (AirNode h AirNodeNum) = MundtRoomAirNode
                         then l2\<lparr>RoomNodesCount := RoomNodesCount l2 + 1\<rparr> else l2);
                   l4 = (if AN_ClassType (AirNode h AirNodeNum) = FloorAirNode
                         then l3\<lparr>FloorSurfCount :=
                                   FloorSurfCount l3 + count (AN_SurfMask (AirNode h AirNodeNum))\<rparr>
                         else l3)
               in Inr (h, st1\<lparr>LineNode := ln2\<rparr>, l4))))) = Inr (h', st', l')"
    by (auto simp: InitNode_def bindE_eq_Inr)
  let ?c = "if NodeNum = 1 then 1 else AirNodeBeginNum l"
  have c: "?c \<le> TotNumOfAirNodes h"
    using r by (auto simp: Let_def split: if_splits)
  have "case find (NodeMatches h z) [?c..TotNumOfAirNodes h] of
              None \<Rightarrow> h' = h\<lparr>ErrLog := ErrLog h @ [NotFoundMessage h z]\<rparr> \<and>
                       AirNodeBeginNum l' = ?c \<and> ErrorsFound l' \<and> \<not> AirNodeFoundFlag l'
            | Some a \<Rightarrow> h' = h \<and> AirNodeBeginNum l' = a + 1 \<and>
                       ErrorsFound l' = ErrorsFound l \<and> AirNodeFoundFlag l'"
    using r c
    by (auto simp: Let_def bindE_eq_Inr NodeMatches_def [abs_def] ShowSevereError_def
        NotFoundMessage_def split: if_splits option.splits)
  moreover have "ZoneData st' = ZoneData st"
    using r c
    by (auto simp: Let_def bindE_eq_Inr split: if_splits option.splits)
  ultimately show ?thesis using c by blast
qed

lemma InitNodeLoop:
  assumes "forE ns (InitNode z MZI) (h, st, l) = Inr (h', st', l')" and "1 \<notin> set ns"
  shows "h' = h\<lparr>ErrLog := ErrLog h @
                 replicate (UnmatchedFrom h z (AirNodeBeginNum l) ns) (NotFoundMessage h z)\<rparr> \<and>
         (ErrorsFound l' \<longleftrightarrow> ErrorsFound l \<or> 0 < UnmatchedFrom h z (AirNodeBeginNum l) ns) \<and>
         ZoneData st' = ZoneData st"
  using assms
proof (induction ns arbitrary: h st l)
  case Nil
  then show ?case by simp
next
  case (Cons n ns)
  from Cons.prems(1) obtain h1 st1 l1 where
    step: "InitNode z MZI n (h, st, l) = Inr (h1, st1, l1)"
    and rest: "forE ns (InitNode z MZI) (h1, st1, l1) = Inr (h', st', l')"
    by (auto simp: bindE_eq_Inr)
  from Cons.prems(2) have n: "n \<noteq> 1" and ns: "1 \<notin> set ns"
    by auto
  note IH = Cons.IH [OF rest ns]
  from InitNode_step [OF step] n have
    s: "case find (NodeMatches h z) [AirNodeBeginNum l..TotNumOfAirNodes h] of
          None \<Rightarrow> h1 = h\<lparr>ErrLog := ErrLog h @ [NotFoundMessage h z]\<rparr> \<and>
                   AirNodeBeginNum l1 = AirNodeBeginNum l \<and> ErrorsFound l1 \<and>
                   \<not> AirNodeFoundFlag l1
        | Some a \<Rightarrow> h1 = h \<and> AirNodeBeginNum l1 = a + 1 \<and>
                   ErrorsFound l1 = ErrorsFound l \<and> AirNodeFoundFlag l1"
    and k: "ZoneData st1 = ZoneData st"
    by auto
  show ?case
  proof (cases "find (NodeMatches h z) [AirNodeBeginNum l..TotNumOfAirNodes h]")
    case None
    with s have "h1 = h\<lparr>ErrLog := ErrLog h @ [NotFoundMessage h z]\<rparr>"
      "AirNodeBeginNum l1 = AirNodeBeginNum l" "ErrorsFound l1"
      by auto
    with IH k None show ?thesis
      by auto
  next
    case (Some a)
    with s have "h1 = h" "AirNodeBeginNum l1 = a + 1" "ErrorsFound l1 = ErrorsFound l"
      by auto
    with IH k Some show ?thesis
      by auto
  qed
qed

lemma InitNodeLoop_zone:
  assumes "forE [1..TotNumOfZoneAirNodes h z] (InitNode z MZI) (h, st, l) = Inr (h', st', l')"
  shows "h' = h\<lparr>ErrLog := ErrLog h @
                 replicate (UnmatchedNodes h z) (NotFoundMessage h z)\<rparr> \<and>
         (ErrorsFound l' \<longleftrightarrow> ErrorsFound l \<or> 0 < UnmatchedNodes h z) \<and>
         ZoneData st' = ZoneData st"
proof (cases "1 \<le> TotNumOfZoneAirNodes h z")
  case False
  with assms show ?thesis
    by (simp add: UnmatchedNodes_def)
next
  case True
  then have up: "[1..TotNumOfZoneAirNodes h z] = 1 # [2..TotNumOfZoneAirNodes h z]"
    by (simp add: upto_rec1)
  from assms obtain h1 st1 l1 where
    step: "InitNode z MZI 1 (h, st, l) = Inr (h1, st1, l1)"
    and rest: "forE [2..TotNumOfZoneAirNodes h z] (InitNode z MZI) (h1, st1, l1) =
                 Inr (h', st', l')"
    unfolding up by (auto simp: bindE_eq_Inr)
  have ns: "1 \<notin> set [2..TotNumOfZoneAirNodes h z]"
    by simp
  note L = InitNodeLoop [OF rest ns]
  from InitNode_step [OF step] have
    s: "case find (NodeMatches h z) [1..TotNumOfAirNodes h] of
          None \<Rightarrow> h1 = h\<lparr>ErrLog := ErrLog h @ [NotFoundMessage h z]\<rparr> \<and>
                   AirNodeBeginNum l1 = 1 \<and> ErrorsFound l1 \<and> \<not> AirNodeFoundFlag l1
        | Some a \<Rightarrow> h1 = h \<and> AirNodeBeginNum l1 = a + 1 \<and>
                   ErrorsFound l1 = ErrorsFound l \<and> AirNodeFoundFlag l1"
    and k: "ZoneData st1 = ZoneData st"
    by auto
  show ?thesis
  proof (cases "find (NodeMatches h z) [1..TotNumOfAirNodes h]")
    case None
    with s have "h1 = h\<lparr>ErrLog := ErrLog h @ [NotFoundMessage h z]\<rparr>"
      "AirNodeBeginNum l1 = 1" "ErrorsFound l1"
      by auto
    with L k None show ?thesis
      unfolding UnmatchedNodes_def up by auto
  next
    case (Some a)
    with s have "h1 = h" "AirNodeBeginNum l1 = a + 1" "ErrorsFound l1 = ErrorsFound l"
      by auto
    with L k Some show ?thesis
      unfolding UnmatchedNodes_def up by auto
  qed
qed

lemma InitSurfLoop:
  assumes "forE js (InitSurf z MZI) (h, st, l) = Inr (h', st', l')"
  shows "h' = h \<and> l' = l \<and> ZoneData st' = ZoneData st"
proof -
  have "(\<lambda>(h1, st1, l1). h1 = h \<and> l1 = l \<and> ZoneData st1 = ZoneData st) (h', st', l')"
    by (rule forE_invariant [OF assms]) (auto simp: InitSurf_def bindE_eq_Inr)
  then show ?thesis
    by simp
qed

lemma InitZoneLoop_skip:
  assumes "InitZoneLoop MZI zs s = Inr s'"
    and "\<forall>z\<in>set zs. \<forall>zd. at1 (ZoneData (fst (snd s))) z = Inr zd \<longrightarrow> MundtZoneIndex zd \<noteq> MZI"
  shows "s' = s"
  using assms
proof (induction zs)
  case Nil
  then show ?case by simp
next
  case (Cons z zs)
  from Cons.prems(1) obtain zd :: DefineZoneData where
    zd: "at1 (ZoneData (fst (snd s))) z = Inr zd"
    and r: "(if MundtZoneIndex zd = MZI
             then bindE (forE [1..NumOfSurfs zd] (InitSurf z MZI) s)
                    (\<lambda>(h1, st1, l1).
                       bindE (forE [1..TotNumOfZoneAirNodes h1 z] (InitNode z MZI)
                                (h1, st1, l1\<lparr>RoomNodesCount := 0, FloorSurfCount := 0\<rparr>))
                         (\<lambda>s2. if AirNodeFoundFlag (snd (snd s2)) then Inr s2
                                else InitZoneLoop MZI zs s2))
             else InitZoneLoop MZI zs s) = Inr s'"
    by (auto simp: bindE_eq_Inr)
  from Cons.prems(2) zd have "MundtZoneIndex zd \<noteq> MZI"
    by simp
  with r have "InitZoneLoop MZI zs s = Inr s'"
    by simp
  with Cons.IH Cons.prems(2) show ?case
    by simp
qed

lemma InitZoneLoop_scan:
  assumes "InitZoneLoop MZI zs s = Inr s'"
    and "zk \<in> set zs" and "distinct zs"
    and "at1 (ZoneData (fst (snd s))) zk = Inr zd" and "MundtZoneIndex zd = MZI"
    and "\<forall>z\<in>set zs. \<forall>zd'. at1 (ZoneData (fst (snd s))) z = Inr zd' \<longrightarrow>
           MundtZoneIndex zd' = MZI \<longrightarrow> z = zk"
  shows "\<exists>st1. forE [1..NumOfSurfs zd] (InitSurf zk MZI) s = Inr (fst s, st1, snd (snd s)) \<and>
           ZoneData st1 = ZoneData (fst (snd s)) \<and>
           forE [1..TotNumOfZoneAirNodes (fst s) zk] (InitNode zk MZI)
             (fst s, st1, (snd (snd s))\<lparr>RoomNodesCount := 0, FloorSurfCount := 0\<rparr>) = Inr s'"
  using assms(1,2,3,6)
proof (induction zs)
  case Nil
  then show ?case by simp
next
  case (Cons z zs)
  obtain h st l where s: "s = (h, st, l)"
    by (cases s) auto
  show ?case
  proof (cases "z = zk")
    case True
    from Cons.prems(1) True assms(4,5) obtain h1 st1 l1 s2 where
      surf: "forE [1..NumOfSurfs zd] (InitSurf zk MZI) s = Inr (h1, st1, l1)"
      and node: "forE [1..TotNumOfZoneAirNodes h1 zk] (InitNode zk MZI)
                   (h1, st1, l1\<lparr>RoomNodesCount := 0, FloorSurfCount := 0\<rparr>) = Inr s2"
      and fin: "(if AirNodeFoundFlag (snd (snd s2)) then Inr s2 else InitZoneLoop MZI zs s2) =
                  Inr s'"
      by (auto simp: bindE_eq_Inr)
    from InitSurfLoop [OF surf [unfolded s]] have
      e: "h1 = h" "l1 = l" "ZoneData st1 = ZoneData st"
      by auto
    obtain h2 st2 l2 where s2: "s2 = (h2, st2, l2)"
      by (cases s2) auto
    from InitNodeLoop_zone [OF node [unfolded s2 e(1,2)]] have "ZoneData st2 = ZoneData st1"
      by simp
    with e have zd2: "ZoneData st2 = ZoneData st"
      by simp
    have "s' = s2"
    proof (cases "AirNodeFoundFlag (snd (snd s2))")
      case True
      with fin show ?thesis by simp
    next
      case False
      with fin have loop: "InitZoneLoop MZI zs s2 = Inr s'"
        by simp
      show ?thesis
      proof (rule InitZoneLoop_skip [OF loop])
        show "\<forall>y\<in>set zs. \<forall>yd. at1 (ZoneData (fst (snd s2))) y = Inr yd \<longrightarrow>
                MundtZoneIndex yd \<noteq> MZI"
        proof (intro ballI allI impI notI)
          fix y and yd :: DefineZoneData
          assume y: "y \<in> set zs" and a: "at1 (ZoneData (fst (snd s2))) y = Inr yd"
            and m: "MundtZoneIndex yd = MZI"
          from a have "at1 (ZoneData (fst (snd s))) y = Inr yd"
            by (simp add: s s2 zd2)
          with Cons.prems(4) y m have "y = zk"
            by simp
          with y Cons.prems(3) \<open>z = zk\<close> show False
            by simp
        qed
      qed
    qed
    with surf node e show ?thesis
      by (intro exI [of _ st1]) (simp add: s)
  next
    case False
    from Cons.prems(1) obtain zd' :: DefineZoneData where
      zd': "at1 (ZoneData (fst (snd s))) z = Inr zd'"
      and r: "(if MundtZoneIndex zd' = MZI
               then bindE (forE [1..NumOfSurfs zd'] (InitSurf z MZI) s)
                      (\<lambda>(h1, st1, l1).
                         bindE (forE [1..TotNumOfZoneAirNodes h1 z] (InitNode z MZI)
                                  (h1, st1, l1\<lparr>RoomNodesCount := 0, FloorSurfCount := 0\<rparr>))
                           (\<lambda>s2. if AirNodeFoundFlag (snd (snd s2)) then Inr s2
                                  else InitZoneLoop MZI zs s2))
               else InitZoneLoop MZI zs s) = Inr s'"
      by (auto simp: bindE_eq_Inr)
    from Cons.prems(4) zd' False have "MundtZoneIndex zd' \<noteq> MZI"
      by auto
    with r have loop: "InitZoneLoop MZI zs s = Inr s'"
      by simp
    from Cons.prems(2) False have "zk \<in> set zs"
      by simp
    with Cons.IH [OF loop] Cons.prems(3,4) show ?thesis
      by simp
  qed
qed

lemma InitZoneLoop_hit:
  assumes "InitZoneLoop MZI zs (h, st, l) = Inr (h', st', l')"
    and "zk \<in> set zs" and "distinct zs"
    and "at1 (ZoneData st) zk = Inr zd" and "MundtZoneIndex zd = MZI"
    and "\<forall>z\<in>set zs. \<forall>zd'. at1 (ZoneData st) z = Inr zd' \<longrightarrow> MundtZoneIndex zd' = MZI \<longrightarrow> z = zk"
  shows "h' = h\<lparr>ErrLog := ErrLog h @
                 replicate (UnmatchedNodes h zk) (NotFoundMessage h zk)\<rparr>"
    and "ErrorsFound l' \<longleftrightarrow> ErrorsFound l \<or> 0 < UnmatchedNodes h zk"
    and "ZoneData st' = ZoneData st"
proof -
  have "\<exists>st1. forE [1..NumOfSurfs zd] (InitSurf zk MZI) (h, st, l) =
                 Inr (fst (h, st, l), st1, snd (snd (h, st, l))) \<and>
           ZoneData st1 = ZoneData (fst (snd (h, st, l))) \<and>
           forE [1..TotNumOfZoneAirNodes (fst (h, st, l)) zk] (InitNode zk MZI)
             (fst (h, st, l), st1,
              (snd (snd (h, st, l)))\<lparr>RoomNodesCount := 0, FloorSurfCount := 0\<rparr>) =
             Inr (h', st', l')"
    by (rule InitZoneLoop_scan [OF assms(1,2,3)]) (simp_all add: assms(4,5,6))
  then obtain st1 where z1: "ZoneData st1 = ZoneData st"
    and node: "forE [1..TotNumOfZoneAirNodes h zk] (InitNode zk MZI)
                 (h, st1, l\<lparr>RoomNodesCount := 0, FloorSurfCount := 0\<rparr>) = Inr (h', st', l')"
    by auto
  note N = InitNodeLoop_zone [OF node]
  from N show "h' = h\<lparr>ErrLog := ErrLog h @
                 replicate (UnmatchedNodes h zk) (NotFoundMessage h zk)\<rparr>"
    by (rule conjunct1)
  from N show "ErrorsFound l' \<longleftrightarrow> ErrorsFound l \<or> 0 < UnmatchedNodes h zk"
    by simp
  from N z1 show "ZoneData st' = ZoneData st"
    by simp
qed

lemma forE_append: "forE (xs @ ys) body s = bindE (forE xs body s) (forE ys body)"
proof (induction xs arbitrary: s)
  case Nil
  show ?case by simp
next
  case (Cons x xs)
  show ?case
    by (cases "body x s") (simp_all add: Cons.IH)
qed

lemma InitZoneData_step:
  assumes "InitZoneData h z (st, l) = Inr (st', l')"
  shows "ErrorsFound l' = ErrorsFound l \<and>
         (if AirModelType h z = RoomAirModel_Mundt
          then inrange (ZoneData st) z \<and>
               length (ZoneData st') = length (ZoneData st) \<and>
               MundtIndexOf (ZoneData st') z = NumOfMundtZones l + 1 \<and>
               (\<forall>y. y \<noteq> z \<longrightarrow> 1 \<le> y \<longrightarrow>
                  MundtIndexOf (ZoneData st') y = MundtIndexOf (ZoneData st) y) \<and>
               NumOfMundtZones l' = NumOfMundtZones l + 1
          else ZoneData st' = ZoneData st \<and> NumOfMundtZones l' = NumOfMundtZones l)"
  using assms
  by (auto simp: InitZoneData_def Let_def bindE_eq_Inr upd1_Inr inrange_def MundtIndexOf_def
      nth_list_update split: if_splits)

text \<open>The first loop numbers the Mundt zones in the order of the zones.\<close>

lemma InitZoneData_loop:
  assumes "forE [1..int m] (InitZoneData h) (st0, l0) = Inr (st, l)"
    and "ZoneData st0 =
           replicate (nat (NumOfZones h)) \<lparr>SurfFirst = 0, NumOfSurfs = 0, MundtZoneIndex = 0\<rparr>"
    and "NumOfMundtZones l0 = 0"
  shows "length (ZoneData st) = nat (NumOfZones h) \<and>
         ErrorsFound l = ErrorsFound l0 \<and>
         NumOfMundtZones l =
           int (length (filter (\<lambda>z. AirModelType h z = RoomAirModel_Mundt) [1..int m])) \<and>
         map (MundtIndexOf (ZoneData st))
           (filter (\<lambda>z. AirModelType h z = RoomAirModel_Mundt) [1..int m]) =
           [1..NumOfMundtZones l] \<and>
         (\<forall>z. 1 \<le> z \<longrightarrow> z \<le> NumOfZones h \<longrightarrow>
            \<not> (AirModelType h z = RoomAirModel_Mundt \<and> z \<le> int m) \<longrightarrow>
            MundtIndexOf (ZoneData st) z = 0)"
  using assms(1)
proof (induction m arbitrary: st l)
  case 0
  then have "st = st0" "l = l0"
    by simp_all
  with assms(2,3) show ?case
    by (simp add: MundtIndexOf_def)
next
  case (Suc m)
  let ?P = "\<lambda>z. AirModelType h z = RoomAirModel_Mundt"
  have up: "[1..int (Suc m)] = [1..int m] @ [int m + 1]"
    using upto_rec2 [of 1 "int m + 1"] by (simp add: add.commute)
  from Suc.prems(1) obtain st1 l1 where
    pre: "forE [1..int m] (InitZoneData h) (st0, l0) = Inr (st1, l1)"
    and step: "InitZoneData h (int m + 1) (st1, l1) = Inr (st, l)"
    unfolding up forE_append by (auto simp: bindE_eq_Inr)
  note IH = Suc.IH [OF pre]
  note S = InitZoneData_step [OF step]
  show ?case
  proof (cases "?P (int m + 1)")
    case False
    then have f: "filter ?P [1..int (Suc m)] = filter ?P [1..int m]"
      unfolding up by simp
    from False S have e: "ZoneData st = ZoneData st1" "NumOfMundtZones l = NumOfMundtZones l1"
      "ErrorsFound l = ErrorsFound l1"
      by simp_all
    have "\<forall>z. 1 \<le> z \<longrightarrow> z \<le> NumOfZones h \<longrightarrow> \<not> (?P z \<and> z \<le> int (Suc m)) \<longrightarrow>
            MundtIndexOf (ZoneData st1) z = 0"
    proof (intro allI impI)
      fix z assume z: "1 \<le> z" "z \<le> NumOfZones h" "\<not> (?P z \<and> z \<le> int (Suc m))"
      with False have "\<not> (?P z \<and> z \<le> int m)"
        by auto
      with IH z show "MundtIndexOf (ZoneData st1) z = 0"
        by simp
    qed
    with IH show ?thesis
      unfolding f e by simp
  next
    case True
    then have f: "filter ?P [1..int (Suc m)] = filter ?P [1..int m] @ [int m + 1]"
      unfolding up by simp
    from True S have len: "length (ZoneData st) = length (ZoneData st1)"
      and new: "MundtIndexOf (ZoneData st) (int m + 1) = NumOfMundtZones l1 + 1"
      and old: "\<And>y. y \<noteq> int m + 1 \<Longrightarrow> 1 \<le> y \<Longrightarrow>
                  MundtIndexOf (ZoneData st) y = MundtIndexOf (ZoneData st1) y"
      and n: "NumOfMundtZones l = NumOfMundtZones l1 + 1"
      and e: "ErrorsFound l = ErrorsFound l1"
      by simp_all
    from IH have n1: "0 \<le> NumOfMundtZones l1"
      by simp
    have up2: "[1..NumOfMundtZones l1 + 1] = [1..NumOfMundtZones l1] @ [NumOfMundtZones l1 + 1]"
      using upto_rec2 [of 1 "NumOfMundtZones l1 + 1"] n1 by simp
    have "map (MundtIndexOf (ZoneData st)) (filter ?P [1..int m]) =
            map (MundtIndexOf (ZoneData st1)) (filter ?P [1..int m])"
      by (rule map_cong [OF refl]) (simp add: old)
    with IH new have mp: "map (MundtIndexOf (ZoneData st)) (filter ?P [1..int (Suc m)]) =
            [1..NumOfMundtZones l]"
      unfolding f n up2 by simp
    have "\<forall>z. 1 \<le> z \<longrightarrow> z \<le> NumOfZones h \<longrightarrow> \<not> (?P z \<and> z \<le> int (Suc m)) \<longrightarrow>
            MundtIndexOf (ZoneData st) z = 0"
    proof (intro allI impI)
      fix z assume z: "1 \<le> z" "z \<le> NumOfZones h" "\<not> (?P z \<and> z \<le> int (Suc m))"
      with True have ne: "z \<noteq> int m + 1" and "\<not> (?P z \<and> z \<le> int m)"
        by auto
      with IH z have "MundtIndexOf (ZoneData st1) z = 0"
        by simp
      with old [OF ne z(1)] show "MundtIndexOf (ZoneData st) z = 0"
        by simp
    qed
    with IH mp len n e show ?thesis
      unfolding f by simp
  qed
qed

lemma InitMundtZone_step:
  assumes "InitMundtZone k (h, st, l) = Inr (h', st', l')"
    and "1 \<le> zk" and "zk \<le> NumOfZones h"
    and "length (ZoneData st) = nat (NumOfZones h)"
    and "MundtIndexOf (ZoneData st) zk = k"
    and "\<forall>y. 1 \<le> y \<longrightarrow> y \<le> NumOfZones h \<longrightarrow> MundtIndexOf (ZoneData st) y = k \<longrightarrow> y = zk"
  shows "h' = h\<lparr>ErrLog := ErrLog h @
                 replicate (UnmatchedNodes h zk) (NotFoundMessage h zk)\<rparr>"
    and "ErrorsFound l' \<longleftrightarrow> ErrorsFound l \<or> 0 < UnmatchedNodes h zk"
    and "ZoneData st' = ZoneData st"
proof -
  from assms(1) obtain la where
    loop: "InitZoneLoop k [1..NumOfZones h] (h, st, l) = Inr (h', st', la)"
    and l': "l' = la\<lparr>MaxNumOfRoomNodes := max (MaxNumOfRoomNodes la) (RoomNodesCount la),
                     MaxNumOfFloorSurfs := max (MaxNumOfFloorSurfs la) (FloorSurfCount la)\<rparr>"
    by (auto simp: InitMundtZone_def bindE_eq_Inr)
  have mem: "zk \<in> set [1..NumOfZones h]"
    using assms(2,3) by simp
  have at: "at1 (ZoneData st) zk = Inr (ZoneData st ! nat (zk - 1))"
    using assms(2,3,4) by (simp add: at1_def inrange_def)
  have ix: "MundtZoneIndex (ZoneData st ! nat (zk - 1)) = k"
    using assms(5) by (simp add: MundtIndexOf_def)
  have un: "\<forall>z\<in>set [1..NumOfZones h]. \<forall>zd'. at1 (ZoneData st) z = Inr zd' \<longrightarrow>
              MundtZoneIndex zd' = k \<longrightarrow> z = zk"
    using assms(6) by (auto simp: at1_Inr MundtIndexOf_def)
  note H = InitZoneLoop_hit [OF loop mem distinct_upto at ix un]
  from H(1) show "h' = h\<lparr>ErrLog := ErrLog h @
                 replicate (UnmatchedNodes h zk) (NotFoundMessage h zk)\<rparr>" .
  from H(2) l' show "ErrorsFound l' \<longleftrightarrow> ErrorsFound l \<or> 0 < UnmatchedNodes h zk"
    by simp
  from H(3) show "ZoneData st' = ZoneData st" .
qed

lemma NotFoundMessages_ErrLog [simp]:
  "NotFoundMessages (h\<lparr>ErrLog := lg\<rparr>) zs = NotFoundMessages h zs"
  by (simp add: NotFoundMessages_def)

lemma InitMundtZone_loop:
  assumes "forE ks InitMundtZone s = Inr s'"
    and "map (MundtIndexOf (ZoneData (fst (snd s)))) zs = ks" and "distinct ks"
    and "\<forall>z\<in>set zs. 1 \<le> z \<and> z \<le> NumOfZones (fst s)"
    and "length (ZoneData (fst (snd s))) = nat (NumOfZones (fst s))"
    and "\<forall>y. 1 \<le> y \<longrightarrow> y \<le> NumOfZones (fst s) \<longrightarrow>
           MundtIndexOf (ZoneData (fst (snd s))) y \<in> set ks \<longrightarrow> y \<in> set zs"
  shows "ErrLog (fst s') = ErrLog (fst s) @ NotFoundMessages (fst s) zs \<and>
         (ErrorsFound (snd (snd s')) \<longleftrightarrow>
            ErrorsFound (snd (snd s)) \<or> (\<exists>z\<in>set zs. 0 < UnmatchedNodes (fst s) z))"
  using assms
proof (induction ks arbitrary: zs s)
  case Nil
  then show ?case
    by (simp add: NotFoundMessages_def)
next
  case (Cons k ks)
  obtain h st l where s: "s = (h, st, l)"
    by (cases s) auto
  from Cons.prems(2) obtain z zs' where zs: "zs = z # zs'"
    and k: "MundtIndexOf (ZoneData st) z = k"
    and ks: "map (MundtIndexOf (ZoneData st)) zs' = ks"
    by (auto simp: s)
  from Cons.prems(1) obtain h1 st1 l1 where
    step: "InitMundtZone k (h, st, l) = Inr (h1, st1, l1)"
    and rest: "forE ks InitMundtZone (h1, st1, l1) = Inr s'"
    by (auto simp: s bindE_eq_Inr)
  from Cons.prems(3) have kn: "k \<notin> set ks" and dk: "distinct ks"
    by simp_all
  from Cons.prems(4) have z: "1 \<le> z" "z \<le> NumOfZones h"
    and zr: "\<forall>z\<in>set zs'. 1 \<le> z \<and> z \<le> NumOfZones h"
    by (simp_all add: s zs)
  from Cons.prems(5) have len: "length (ZoneData st) = nat (NumOfZones h)"
    by (simp add: s)
  from Cons.prems(6) have cov: "\<forall>y. 1 \<le> y \<longrightarrow> y \<le> NumOfZones h \<longrightarrow>
           MundtIndexOf (ZoneData st) y \<in> set (k # ks) \<longrightarrow> y \<in> set (z # zs')"
    by (simp add: s zs)
  have un: "\<forall>y. 1 \<le> y \<longrightarrow> y \<le> NumOfZones h \<longrightarrow> MundtIndexOf (ZoneData st) y = k \<longrightarrow> y = z"
  proof (intro allI impI)
    fix y assume y: "1 \<le> y" "y \<le> NumOfZones h" "MundtIndexOf (ZoneData st) y = k"
    with cov have "y \<in> set (z # zs')"
      by simp
    moreover have "y \<notin> set zs'"
    proof
      assume "y \<in> set zs'"
      then have "MundtIndexOf (ZoneData st) y \<in> set (map (MundtIndexOf (ZoneData st)) zs')"
        by simp
      with ks y(3) kn show False
        by simp
    qed
    ultimately show "y = z"
      by simp
  qed
  note M = InitMundtZone_step [OF step z len k un]
  have h1: "NumOfZones h1 = NumOfZones h"
    by (simp add: M(1))
  have e1: "ErrLog h1 = ErrLog h @ replicate (UnmatchedNodes h z) (NotFoundMessage h z)"
    by (simp add: M(1))
  have U: "UnmatchedNodes h1 = UnmatchedNodes h"
    by (simp add: M(1) fun_eq_iff)
  have NF: "NotFoundMessages h1 zs' = NotFoundMessages h zs'"
    by (simp add: M(1))
  have cov': "\<forall>y. 1 \<le> y \<longrightarrow> y \<le> NumOfZones h \<longrightarrow>
           MundtIndexOf (ZoneData st) y \<in> set ks \<longrightarrow> y \<in> set zs'"
  proof (intro allI impI)
    fix y assume y: "1 \<le> y" "y \<le> NumOfZones h" "MundtIndexOf (ZoneData st) y \<in> set ks"
    with cov have "y \<in> set (z # zs')"
      by simp
    moreover from y(3) kn k have "y \<noteq> z"
      by auto
    ultimately show "y \<in> set zs'"
      by simp
  qed
  have "ErrLog (fst s') = ErrLog (fst (h1, st1, l1)) @ NotFoundMessages (fst (h1, st1, l1)) zs' \<and>
         (ErrorsFound (snd (snd s')) \<longleftrightarrow>
            ErrorsFound (snd (snd (h1, st1, l1))) \<or>
            (\<exists>z\<in>set zs'. 0 < UnmatchedNodes (fst (h1, st1, l1)) z))"
    by (rule Cons.IH [OF rest _ dk]) (simp_all add: M(3) ks zr len cov' h1)
  with e1 U NF M(2) show ?case
    by (auto simp: s zs NotFoundMessages_def)
qed

lemma InitScan_log:
  assumes "InitScan h st = Inr (h1, st1, l1)"
  shows "ErrLog h1 = ErrLog h @ NotFoundMessages h (MundtZones h)"
    and "ErrorsFound l1 \<longleftrightarrow> (\<exists>z\<in>set (MundtZones h). 0 < UnmatchedNodes h z)"
proof -
  let ?P = "\<lambda>z. AirModelType h z = RoomAirModel_Mundt"
  let ?st0 = "st\<lparr>ZoneData := replicate (nat (NumOfZones h))
                 \<lparr>SurfFirst = 0, NumOfSurfs = 0, MundtZoneIndex = 0\<rparr>\<rparr>"
  have up: "[1..NumOfZones h] = [1..int (nat (NumOfZones h))]"
    by (cases "0 \<le> NumOfZones h") simp_all
  from assms obtain sta la where
    one: "forE [1..int (nat (NumOfZones h))] (InitZoneData h) (?st0, InitLocals0) = Inr (sta, la)"
    and two: "forE [1..NumOfMundtZones la] InitMundtZone (h, InitAllocate la sta, la) =
                Inr (h1, st1, l1)"
    unfolding InitScan_def up [symmetric] by (auto simp: bindE_eq_Inr)
  have mz: "MundtZones h = filter ?P [1..int (nat (NumOfZones h))]"
    by (simp add: MundtZones_def up [symmetric])
  have "ZoneData ?st0 =
          replicate (nat (NumOfZones h)) \<lparr>SurfFirst = 0, NumOfSurfs = 0, MundtZoneIndex = 0\<rparr>"
    by simp
  from InitZoneData_loop [OF one this] have
    len: "length (ZoneData sta) = nat (NumOfZones h)"
    and ef: "\<not> ErrorsFound la"
    and mp: "map (MundtIndexOf (ZoneData sta)) (MundtZones h) = [1..NumOfMundtZones la]"
    and zero: "\<forall>z. 1 \<le> z \<longrightarrow> z \<le> NumOfZones h \<longrightarrow>
                 \<not> (?P z \<and> z \<le> int (nat (NumOfZones h))) \<longrightarrow>
                 MundtIndexOf (ZoneData sta) z = 0"
    by (simp_all add: mz InitLocals0_def)
  have za: "ZoneData (InitAllocate la sta) = ZoneData sta"
    by (simp add: InitAllocate_def)
  have cov: "\<forall>y. 1 \<le> y \<longrightarrow> y \<le> NumOfZones h \<longrightarrow>
           MundtIndexOf (ZoneData sta) y \<in> set [1..NumOfMundtZones la] \<longrightarrow>
           y \<in> set (MundtZones h)"
  proof (intro allI impI)
    fix y assume y: "1 \<le> y" "y \<le> NumOfZones h"
      "MundtIndexOf (ZoneData sta) y \<in> set [1..NumOfMundtZones la]"
    then have "MundtIndexOf (ZoneData sta) y \<noteq> 0"
      by auto
    with zero y have "?P y"
      by blast
    with y show "y \<in> set (MundtZones h)"
      by (simp add: MundtZones_def)
  qed
  have "ErrLog (fst (h1, st1, l1)) =
          ErrLog (fst (h, InitAllocate la sta, la)) @
            NotFoundMessages (fst (h, InitAllocate la sta, la)) (MundtZones h) \<and>
        (ErrorsFound (snd (snd (h1, st1, l1))) \<longleftrightarrow>
           ErrorsFound (snd (snd (h, InitAllocate la sta, la))) \<or>
           (\<exists>z\<in>set (MundtZones h). 0 < UnmatchedNodes (fst (h, InitAllocate la sta, la)) z))"
    by (rule InitMundtZone_loop [OF two])
      (simp_all add: za mp len cov, simp add: MundtZones_def)
  with ef show "ErrLog h1 = ErrLog h @ NotFoundMessages h (MundtZones h)"
    and "ErrorsFound l1 \<longleftrightarrow> (\<exists>z\<in>set (MundtZones h). 0 < UnmatchedNodes h z)"
    by simp_all
qed

lemma ManageMundtModel_first_Inl:
  assumes "FirstTimeFlag st" and "InitMundtModel h st = Inl e"
  shows "ManageMundtModel ZoneNum (h, st) = Inl e"
  using assms by (simp add: ManageMundtModel_def ManageInbound_def)

text \<open>The build never leaves the range of its arrays: they are allocated for the
  largest zone. So the scan of a zone either ends in the check of the array bound or
  returns.\<close>

lemma ScanExceeds_ErrLog [simp]:
  "ScanExceeds (h\<lparr>ErrLog := lg\<rparr>) z c ns = ScanExceeds h z c ns"
  by (induction ns arbitrary: c) (simp_all split: option.split)

lemma BoundExceeded_ErrLog [simp]: "BoundExceeded (h\<lparr>ErrLog := lg\<rparr>) z = BoundExceeded h z"
  by (simp add: BoundExceeded_def)

lemma upd1_length: "upd1 xs i f = Inr ys \<Longrightarrow> length ys = length xs"
  by (auto simp: upd1_Inr)

lemma upd2_dims:
  assumes "upd2 xss i j f = Inr yss" and "HasDims xss r c"
  shows "HasDims yss r c"
proof -
  from assms(1) obtain row row' where row: "at1 xss i = Inr row"
    and row': "upd1 row j f = Inr row'" and yss: "upd1 xss i (\<lambda>_. row') = Inr yss"
    by (auto simp: upd2_def bindE_eq_Inr)
  from row have "row \<in> set xss"
    by (rule at1_in_set)
  with assms(2) have "length row = c"
    by (simp add: HasDims_def list_all_iff)
  with row' have l: "length row' = c"
    by (simp add: upd1_length)
  from yss have y: "yss = xss[nat (i - 1) := row']"
    by (simp add: upd1_Inr)
  have "set yss \<subseteq> insert row' (set xss)"
    unfolding y by (rule set_update_subset_insert)
  with assms(2) l show ?thesis
    by (auto simp: HasDims_def list_all_iff y)
qed

lemma upd2_total:
  assumes "HasDims xss r c" and "1 \<le> i" and "i \<le> int r" and "1 \<le> j" and "j \<le> int c"
  shows "\<exists>yss. upd2 xss i j f = Inr yss"
proof -
  from assms(1,2,3) have i: "inrange xss i"
    by (simp add: HasDims_def inrange_def)
  then have "xss ! nat (i - 1) \<in> set xss"
    by (auto simp: inrange_def intro!: nth_mem)
  with assms(1) have "length (xss ! nat (i - 1)) = c"
    by (simp add: HasDims_def list_all_iff)
  with assms(4,5) have "inrange (xss ! nat (i - 1)) j"
    by (simp add: inrange_def)
  with i show ?thesis
    by (simp add: upd2_def at1_def upd1_def)
qed

lemma HasDims_replicate: "HasDims (replicate r (replicate c x)) r c"
  by (simp add: HasDims_def list_all_iff)

lemma forE_total_inv:
  assumes "P s" and "\<And>j t. j \<in> set js \<Longrightarrow> P t \<Longrightarrow> \<exists>t'. body j t = Inr t' \<and> P t'"
  shows "\<exists>s'. forE js body s = Inr s' \<and> P s'"
  using assms
proof (induction js arbitrary: s)
  case Nil
  then show ?case by simp
next
  case (Cons j js)
  from Cons.prems(2) [of j s] Cons.prems(1) obtain t where t: "body j s = Inr t" and P: "P t"
    by auto
  have "\<exists>s'. forE js body t = Inr s' \<and> P s'"
    by (rule Cons.IH [OF P]) (simp add: Cons.prems(2))
  with t show ?case
    by simp
qed

text \<open>The loop over the surfaces of a zone.\<close>

lemma InitSurf_step:
  assumes "InitSurf z k j (h, st, l) = Inr (h', st', l')"
  shows "h' = h" and "l' = l" and "ZoneData st' = ZoneData st" and "LineNode st' = LineNode st"
    and "HasDims (MundtAirSurf st) r c \<Longrightarrow> HasDims (MundtAirSurf st') r c"
    and "\<exists>zd x. at1 (ZoneData st) z = Inr zd \<and> at2 (MundtAirSurf st) k j = Inr x \<and>
           (\<forall>i' j'. at2 (MundtAirSurf st') i' j' =
              (if i' = k \<and> j' = j
               then Inr (x\<lparr>Area := SurfaceArea h (SurfFirst zd + j - 1)\<rparr>)
               else at2 (MundtAirSurf st) i' j'))"
proof -
  from assms obtain zd :: DefineZoneData and a where zd: "at1 (ZoneData st) z = Inr zd"
    and u: "upd2 (MundtAirSurf st) k j
              (\<lambda>ms. ms\<lparr>Area := SurfaceArea h (SurfFirst zd + j - 1)\<rparr>) = Inr a"
    and e: "h' = h" "l' = l" "st' = st\<lparr>MundtAirSurf := a\<rparr>"
    by (auto simp: InitSurf_def bindE_eq_Inr)
  show "h' = h" "l' = l" by (rule e)+
  show "ZoneData st' = ZoneData st" "LineNode st' = LineNode st"
    by (simp_all add: e)
  show "HasDims (MundtAirSurf st') r c" if "HasDims (MundtAirSurf st) r c"
    using upd2_dims [OF u that] by (simp add: e)
  from at2_upd2 [OF u] zd show "\<exists>zd x. at1 (ZoneData st) z = Inr zd \<and>
           at2 (MundtAirSurf st) k j = Inr x \<and>
           (\<forall>i' j'. at2 (MundtAirSurf st') i' j' =
              (if i' = k \<and> j' = j
               then Inr (x\<lparr>Area := SurfaceArea h (SurfFirst zd + j - 1)\<rparr>)
               else at2 (MundtAirSurf st) i' j'))"
    by (auto simp: e)
qed

lemma InitSurfLoop_total:
  assumes zd: "at1 (ZoneData st) z = Inr zd"
    and dims: "HasDims (MundtAirSurf st) r c" and k: "1 \<le> k" "k \<le> int r" and S: "S \<le> int c"
  shows "\<exists>st'. forE [1..S] (InitSurf z k) (h, st, l) = Inr (h, st', l) \<and>
           HasDims (MundtAirSurf st') r c \<and> LineNode st' = LineNode st \<and>
           ZoneData st' = ZoneData st"
proof -
  let ?P = "\<lambda>(h', st' :: mundt, l'). h' = h \<and> l' = l \<and> HasDims (MundtAirSurf st') r c \<and>
              LineNode st' = LineNode st \<and> ZoneData st' = ZoneData st"
  have "\<exists>s'. forE [1..S] (InitSurf z k) (h, st, l) = Inr s' \<and> ?P s'"
  proof (rule forE_total_inv)
    show "?P (h, st, l)"
      using dims by simp
  next
    fix j t assume j: "j \<in> set [1..S]" and t: "?P t"
    obtain h1 st1 l1 where t1: "t = (h1, st1, l1)"
      by (cases t) auto
    from t have e: "h1 = h" "l1 = l" and d1: "HasDims (MundtAirSurf st1) r c"
      and k1: "LineNode st1 = LineNode st" "ZoneData st1 = ZoneData st"
      by (simp_all add: t1)
    from j S have "1 \<le> j" "j \<le> int c"
      by simp_all
    from upd2_total [OF d1 k this] obtain a where
      "upd2 (MundtAirSurf st1) k j
         (\<lambda>ms. ms\<lparr>Area := SurfaceArea h (SurfFirst zd + j - 1)\<rparr>) = Inr a"
      by blast
    then have r: "InitSurf z k j t = Inr (h, st1\<lparr>MundtAirSurf := a\<rparr>, l)"
      using zd by (simp add: InitSurf_def t1 e k1)
    from InitSurf_step(5) [OF r [unfolded t1 e], OF d1] k1
    have "?P (h, st1\<lparr>MundtAirSurf := a\<rparr>, l)"
      by simp
    with r show "\<exists>t'. InitSurf z k j t = Inr t' \<and> ?P t'"
      by blast
  qed
  then show ?thesis
    by auto
qed

lemma InitNode_frame:
  assumes "InitNode z MZI NodeNum (h, st, l) = Inr (h', st', l')"
  shows "MundtAirSurf st' = MundtAirSurf st"
    and "HasDims (LineNode st) r c \<Longrightarrow> HasDims (LineNode st') r c"
proof -
  from assms obtain zd :: DefineZoneData and ln where
    u: "upd2 (LineNode st) MZI NodeNum
          (\<lambda>n. n\<lparr>SurfMask := replicate (nat (NumOfSurfs zd)) False\<rparr>) = Inr ln"
    and r: "(let st1 = st\<lparr>LineNode := ln\<rparr>;
           l1 = (if NodeNum = 1 then l\<lparr>AirNodeBeginNum := NodeNum\<rparr> else l)
       in
       if AirNodeBeginNum l1 > TotNumOfAirNodes h then
         Inl (FatalError
           ''An array bound exceeded. Error in InitMundtModel subroutine of MundtSimMgr.'')
       else
         (case find (\<lambda>AirNodeNum.
                       SameString (AN_ZoneName (AirNode h AirNodeNum)) (ZoneName h z))
                 [AirNodeBeginNum l1..TotNumOfAirNodes h] of
            None \<Rightarrow>
              Inr (ShowSevereError
                     (''InitMundtModel: Air Node in Zone='' @ [CHR 0x22] @ ZoneName h z
                        @ [CHR 0x22] @ '' is not found.'') h,
                   st1, l1\<lparr>AirNodeFoundFlag := False, ErrorsFound := True\<rparr>)
          | Some AirNodeNum \<Rightarrow>
              bindE (upd2 (LineNode st1) MZI NodeNum
                       (\<lambda>n. n\<lparr>ClassType := AN_ClassType (AirNode h AirNodeNum),
                               AirNodeName := AN_Name (AirNode h AirNodeNum),
                               Height := AN_Height (AirNode h AirNodeNum),
                               SurfMask := AN_SurfMask (AirNode h AirNodeNum)\<rparr>)) (\<lambda>ln2.
              (let l2 = l1\<lparr>AirNodeBeginNum := AirNodeNum + 1, AirNodeFoundFlag := True\<rparr>;
                   l3 = (if AN_ClassType (AirNode h AirNodeNum) = MundtRoomAirNode
                         then l2\<lparr>RoomNodesCount := RoomNodesCount l2 + 1\<rparr> else l2);
                   l4 = (if AN_ClassType (AirNode h AirNodeNum) = FloorAirNode
                         then l3\<lparr>FloorSurfCount :=
                                   FloorSurfCount l3 + count (AN_SurfMask (AirNode h AirNodeNum))\<rparr>
                         else l3)
               in Inr (h, st1\<lparr>LineNode := ln2\<rparr>, l4))))) = Inr (h', st', l')"
    by (auto simp: InitNode_def bindE_eq_Inr)
  from r have "MundtAirSurf st' = MundtAirSurf st \<and>
      (LineNode st' = ln \<or> (\<exists>f. upd2 ln MZI NodeNum f = Inr (LineNode st')))"
    by (auto simp: Let_def bindE_eq_Inr split: if_splits option.splits)
  then have m: "MundtAirSurf st' = MundtAirSurf st"
    and d: "LineNode st' = ln \<or> (\<exists>f. upd2 ln MZI NodeNum f = Inr (LineNode st'))"
    by simp_all
  show "MundtAirSurf st' = MundtAirSurf st" by (rule m)
  show "HasDims (LineNode st') r c" if "HasDims (LineNode st) r c"
  proof -
    from upd2_dims [OF u that] have "HasDims ln r c" .
    with d show ?thesis
      by (auto dest: upd2_dims)
  qed
qed

text \<open>One air node of the scan: it ends the run when the scan stands beyond the last
  definition, and returns otherwise.\<close>

lemma InitNode_outcome:
  assumes zd: "at1 (ZoneData st) z = Inr zd" and dims: "HasDims (LineNode st) r c"
    and k: "1 \<le> k" "k \<le> int r" and n: "1 \<le> n" "n \<le> int c"
  shows "(TotNumOfAirNodes h < (if n = 1 then 1 else AirNodeBeginNum l) \<longrightarrow>
            InitNode z k n (h, st, l) = Inl ArrayBoundFatal) \<and>
         (\<not> TotNumOfAirNodes h < (if n = 1 then 1 else AirNodeBeginNum l) \<longrightarrow>
            (\<exists>s'. InitNode z k n (h, st, l) = Inr s'))"
proof -
  from upd2_total [OF dims k n] obtain ln where
    ln: "upd2 (LineNode st) k n
           (\<lambda>nd. nd\<lparr>SurfMask := replicate (nat (NumOfSurfs zd)) False\<rparr>) = Inr ln"
    by blast
  have dl: "HasDims ln r c"
    by (rule upd2_dims [OF ln dims])
  have second: "\<exists>ln2. upd2 ln k n f = Inr ln2" for f
    using upd2_total [OF dl k n] by blast
  let ?c = "if n = 1 then 1 else AirNodeBeginNum l"
  let ?m = "\<lambda>AirNodeNum. SameString (AN_ZoneName (AirNode h AirNodeNum)) (ZoneName h z)"
  show ?thesis
  proof (cases "TotNumOfAirNodes h < ?c")
    case True
    then show ?thesis
      using zd ln by (cases "n = 1") (simp_all add: InitNode_def ArrayBoundFatal_def)
  next
    case False
    show ?thesis
    proof (cases "find ?m [?c..TotNumOfAirNodes h]")
      case None
      with False show ?thesis
        using zd ln by (cases "n = 1") (simp_all add: InitNode_def)
    next
      case (Some a)
      from second obtain ln2 where
        "upd2 ln k n (\<lambda>nd. nd\<lparr>ClassType := AN_ClassType (AirNode h a),
                               AirNodeName := AN_Name (AirNode h a),
                               Height := AN_Height (AirNode h a),
                               SurfMask := AN_SurfMask (AirNode h a)\<rparr>) = Inr ln2"
        by blast
      with False Some show ?thesis
        using zd ln by (cases "n = 1") (simp_all add: InitNode_def Let_def)
    qed
  qed
qed

lemma InitNodeLoop_outcome:
  assumes "at1 (ZoneData st) z = Inr zd" and "HasDims (LineNode st) r c"
    and "1 \<le> k" and "k \<le> int r" and "\<forall>n \<in> set ns. 1 \<le> n \<and> n \<le> int c" and "1 \<notin> set ns"
  shows "(ScanExceeds h z (AirNodeBeginNum l) ns \<longrightarrow>
            forE ns (InitNode z k) (h, st, l) = Inl ArrayBoundFatal) \<and>
         (\<not> ScanExceeds h z (AirNodeBeginNum l) ns \<longrightarrow>
            (\<exists>s'. forE ns (InitNode z k) (h, st, l) = Inr s'))"
  using assms
proof (induction ns arbitrary: h st l)
  case Nil
  show ?case by simp
next
  case (Cons n ns)
  from Cons.prems(5,6) have n: "1 \<le> n" "n \<le> int c" "n \<noteq> 1"
    and ns: "\<forall>n \<in> set ns. 1 \<le> n \<and> n \<le> int c" "1 \<notin> set ns"
    by auto
  note O = InitNode_outcome [OF Cons.prems(1,2,3,4) n(1,2), of h l]
  show ?case
  proof (cases "TotNumOfAirNodes h < AirNodeBeginNum l")
    case True
    with O n(3) have "InitNode z k n (h, st, l) = Inl ArrayBoundFatal"
      by simp
    with True show ?thesis
      by simp
  next
    case False
    with O n(3) obtain h1 st1 l1 where step: "InitNode z k n (h, st, l) = Inr (h1, st1, l1)"
      by (cases "InitNode z k n (h, st, l)") auto
    from InitNode_step [OF step] n(3) have
      s: "case find (NodeMatches h z) [AirNodeBeginNum l..TotNumOfAirNodes h] of
            None \<Rightarrow> h1 = h\<lparr>ErrLog := ErrLog h @ [NotFoundMessage h z]\<rparr> \<and>
                     AirNodeBeginNum l1 = AirNodeBeginNum l \<and> ErrorsFound l1 \<and>
                     \<not> AirNodeFoundFlag l1
          | Some a \<Rightarrow> h1 = h \<and> AirNodeBeginNum l1 = a + 1 \<and>
                     ErrorsFound l1 = ErrorsFound l \<and> AirNodeFoundFlag l1"
      and z1: "ZoneData st1 = ZoneData st"
      by auto
    have d1: "HasDims (LineNode st1) r c"
      using InitNode_frame(2) [OF step Cons.prems(2)] .
    have zd1: "at1 (ZoneData st1) z = Inr zd"
      using Cons.prems(1) z1 by simp
    note IH = Cons.IH [OF zd1 d1 Cons.prems(3,4) ns, of h1 l1]
    have e: "ScanExceeds h1 z (AirNodeBeginNum l1) ns =
               ScanExceeds h z (AirNodeBeginNum l) (n # ns)"
      using s False
      by (cases "find (NodeMatches h z) [AirNodeBeginNum l..TotNumOfAirNodes h]") auto
    from IH show ?thesis
      unfolding e using step by simp
  qed
qed

lemma InitNodeLoop_zone_outcome:
  assumes "at1 (ZoneData st) z = Inr zd" and "HasDims (LineNode st) r c"
    and "1 \<le> k" and "k \<le> int r" and "TotNumOfZoneAirNodes h z \<le> int c"
  shows "(BoundExceeded h z \<longrightarrow>
            forE [1..TotNumOfZoneAirNodes h z] (InitNode z k) (h, st, l) = Inl ArrayBoundFatal) \<and>
         (\<not> BoundExceeded h z \<longrightarrow>
            (\<exists>s'. forE [1..TotNumOfZoneAirNodes h z] (InitNode z k) (h, st, l) = Inr s'))"
proof (cases "1 \<le> TotNumOfZoneAirNodes h z")
  case False
  then show ?thesis
    by (simp add: BoundExceeded_def)
next
  case True
  then have up: "[1..TotNumOfZoneAirNodes h z] = 1 # [2..TotNumOfZoneAirNodes h z]"
    by (simp add: upto_rec1)
  from True assms(5) have c1: "(1 :: int) \<le> 1" "1 \<le> int c"
    by simp_all
  note O = InitNode_outcome [OF assms(1,2,3,4) c1, of h l]
  show ?thesis
  proof (cases "TotNumOfAirNodes h < 1")
    case True
    with O have "InitNode z k 1 (h, st, l) = Inl ArrayBoundFatal"
      by simp
    with True show ?thesis
      unfolding BoundExceeded_def up by simp
  next
    case False
    with O obtain h1 st1 l1 where step: "InitNode z k 1 (h, st, l) = Inr (h1, st1, l1)"
      by (cases "InitNode z k 1 (h, st, l)") auto
    from InitNode_step [OF step] have
      s: "case find (NodeMatches h z) [1..TotNumOfAirNodes h] of
            None \<Rightarrow> h1 = h\<lparr>ErrLog := ErrLog h @ [NotFoundMessage h z]\<rparr> \<and>
                     AirNodeBeginNum l1 = 1 \<and> ErrorsFound l1 \<and> \<not> AirNodeFoundFlag l1
          | Some a \<Rightarrow> h1 = h \<and> AirNodeBeginNum l1 = a + 1 \<and>
                     ErrorsFound l1 = ErrorsFound l \<and> AirNodeFoundFlag l1"
      and z1: "ZoneData st1 = ZoneData st"
      by auto
    have d1: "HasDims (LineNode st1) r c"
      using InitNode_frame(2) [OF step assms(2)] .
    have zd1: "at1 (ZoneData st1) z = Inr zd"
      using assms(1) z1 by simp
    have ns: "\<forall>n \<in> set [2..TotNumOfZoneAirNodes h z]. 1 \<le> n \<and> n \<le> int c"
      "1 \<notin> set [2..TotNumOfZoneAirNodes h z]"
      using assms(5) by auto
    note L = InitNodeLoop_outcome [OF zd1 d1 assms(3,4) ns, of h1 l1]
    have e: "ScanExceeds h1 z (AirNodeBeginNum l1) [2..TotNumOfZoneAirNodes h z] =
               BoundExceeded h z"
      unfolding BoundExceeded_def up using s False
      by (cases "find (NodeMatches h z) [1..TotNumOfAirNodes h]") auto
    from L show ?thesis
      unfolding e up using step by simp
  qed
qed

lemma InitZoneLoop_skip_eq:
  assumes "\<forall>z \<in> set zs. \<exists>zd. at1 (ZoneData (fst (snd s))) z = Inr zd \<and> MundtZoneIndex zd \<noteq> k"
  shows "InitZoneLoop k zs s = Inr s"
  using assms by (induction zs) auto

text \<open>The loop over the zones for one index of a Mundt zone is the scan of the zone with
  that index.\<close>

lemma InitZoneLoop_eq:
  assumes "zk \<in> set zs" and "distinct zs"
    and "\<forall>z \<in> set zs. inrange (ZoneData (fst (snd s))) z"
    and "at1 (ZoneData (fst (snd s))) zk = Inr zd" and "MundtZoneIndex zd = k"
    and "\<forall>z \<in> set zs. \<forall>zd'. at1 (ZoneData (fst (snd s))) z = Inr zd' \<longrightarrow>
           MundtZoneIndex zd' = k \<longrightarrow> z = zk"
  shows "InitZoneLoop k zs s =
           bindE (forE [1..NumOfSurfs zd] (InitSurf zk k) s) (\<lambda>(h1, st1, l1).
             forE [1..TotNumOfZoneAirNodes h1 zk] (InitNode zk k)
               (h1, st1, l1\<lparr>RoomNodesCount := 0, FloorSurfCount := 0\<rparr>))"
  using assms(1,2,3,6)
proof (induction zs)
  case Nil
  then show ?case by simp
next
  case (Cons z zs)
  obtain h st l where s: "s = (h, st, l)"
    by (cases s) auto
  show ?case
  proof (cases "z = zk")
    case True
    have skip: "InitZoneLoop k zs s2 = Inr s2" if "ZoneData (fst (snd s2)) = ZoneData st" for s2
    proof (rule InitZoneLoop_skip_eq, rule ballI)
      fix y assume y: "y \<in> set zs"
      with Cons.prems(3) have "inrange (ZoneData st) y"
        by (simp add: s)
      then obtain yd where yd: "at1 (ZoneData st) y = Inr yd"
        by (auto simp: at1_def)
      from y Cons.prems(2) True have "y \<noteq> zk"
        by auto
      with Cons.prems(4) y yd have "MundtZoneIndex yd \<noteq> k"
        by (auto simp: s)
      with yd that show "\<exists>zd. at1 (ZoneData (fst (snd s2))) y = Inr zd \<and> MundtZoneIndex zd \<noteq> k"
        by simp
    qed
    show ?thesis
    proof (cases "forE [1..NumOfSurfs zd] (InitSurf zk k) s")
      case (Inl e)
      then show ?thesis
        using True assms(4,5) by simp
    next
      case (Inr s1)
      obtain h1 st1 l1 where s1: "s1 = (h1, st1, l1)"
        by (cases s1) auto
      from InitSurfLoop [OF Inr [unfolded s s1]] have e: "h1 = h" "l1 = l"
        "ZoneData st1 = ZoneData st"
        by auto
      show ?thesis
      proof (cases "forE [1..TotNumOfZoneAirNodes h1 zk] (InitNode zk k)
                      (h1, st1, l1\<lparr>RoomNodesCount := 0, FloorSurfCount := 0\<rparr>)")
        case (Inl e')
        then show ?thesis
          using True assms(4,5) Inr s1 by simp
      next
        case node: (Inr s2)
        obtain h2 st2 l2 where s2: "s2 = (h2, st2, l2)"
          by (cases s2) auto
        from InitNodeLoop_zone [OF node [unfolded s2 e(1,2)]] e have
          "ZoneData st2 = ZoneData st"
          by simp
        then have "InitZoneLoop k zs s2 = Inr s2"
          by (intro skip) (simp add: s2)
        then show ?thesis
          using True assms(4,5) Inr s1 node by simp
      qed
    qed
  next
    case False
    from Cons.prems(3) have "inrange (ZoneData (fst (snd s))) z"
      by simp
    then obtain zd' where zd': "at1 (ZoneData (fst (snd s))) z = Inr zd'"
      by (auto simp: at1_def)
    with Cons.prems(4) False have "MundtZoneIndex zd' \<noteq> k"
      by auto
    with zd' have "InitZoneLoop k (z # zs) s = InitZoneLoop k zs s"
      by simp
    moreover from Cons.prems(1) False have "zk \<in> set zs"
      by simp
    ultimately show ?thesis
      using Cons.IH Cons.prems(2,3,4) by simp
  qed
qed

text \<open>The first loop returns; the sizes of the arrays cover every Mundt zone, and the
  zones that are not Mundt zones keep the initial zone data.\<close>

lemma InitZoneData_step2:
  assumes "InitZoneData h z (st, l) = Inr (st', l')"
  shows "if AirModelType h z = RoomAirModel_Mundt
         then NumOfSurfs (ZoneData st' ! nat (z - 1)) \<le> MaxNumOfSurfs l' \<and>
              TotNumOfZoneAirNodes h z \<le> MaxNumOfAirNodes l' \<and>
              MaxNumOfSurfs l \<le> MaxNumOfSurfs l' \<and> MaxNumOfAirNodes l \<le> MaxNumOfAirNodes l' \<and>
              (\<forall>y. y \<noteq> z \<longrightarrow> 1 \<le> y \<longrightarrow>
                 ZoneData st' ! nat (y - 1) = ZoneData st ! nat (y - 1))
         else ZoneData st' = ZoneData st \<and> MaxNumOfSurfs l' = MaxNumOfSurfs l \<and>
              MaxNumOfAirNodes l' = MaxNumOfAirNodes l"
  using assms
  by (auto simp: InitZoneData_def Let_def bindE_eq_Inr upd1_Inr inrange_def nth_list_update
      split: if_splits)

lemma InitZoneData_total:
  assumes "length (ZoneData st0) = nat (NumOfZones h)"
  shows "\<exists>st l. forE [1..NumOfZones h] (InitZoneData h) (st0, l0) = Inr (st, l)"
proof -
  let ?P = "\<lambda>(st :: mundt, l :: InitLocals). length (ZoneData st) = nat (NumOfZones h)"
  have "\<exists>s'. forE [1..NumOfZones h] (InitZoneData h) (st0, l0) = Inr s' \<and> ?P s'"
  proof (rule forE_total_inv)
    show "?P (st0, l0)"
      using assms by simp
  next
    fix j t assume j: "j \<in> set [1..NumOfZones h]" and t: "?P t"
    obtain st l where t1: "t = (st, l)"
      by (cases t) auto
    from t j have "inrange (ZoneData st) j"
      by (simp add: t1 inrange_def)
    then show "\<exists>t'. InitZoneData h j t = Inr t' \<and> ?P t'"
      using t by (simp add: InitZoneData_def t1 upd1_def Let_def)
  qed
  then show ?thesis
    by auto
qed

lemma InitZoneData_loop2:
  assumes "forE [1..int m] (InitZoneData h) (st0, l0) = Inr (st, l)"
    and "ZoneData st0 =
           replicate (nat (NumOfZones h)) \<lparr>SurfFirst = 0, NumOfSurfs = 0, MundtZoneIndex = 0\<rparr>"
  shows "(\<forall>z. 1 \<le> z \<longrightarrow> z \<le> int m \<longrightarrow> AirModelType h z = RoomAirModel_Mundt \<longrightarrow>
            NumOfSurfs (ZoneData st ! nat (z - 1)) \<le> MaxNumOfSurfs l \<and>
            TotNumOfZoneAirNodes h z \<le> MaxNumOfAirNodes l) \<and>
         (\<forall>z. 1 \<le> z \<longrightarrow> z \<le> NumOfZones h \<longrightarrow>
            \<not> (AirModelType h z = RoomAirModel_Mundt \<and> z \<le> int m) \<longrightarrow>
            NumOfSurfs (ZoneData st ! nat (z - 1)) = 0)"
  using assms(1)
proof (induction m arbitrary: st l)
  case 0
  then have "st = st0" "l = l0"
    by simp_all
  with assms(2) show ?case
    by simp
next
  case (Suc m)
  let ?P = "\<lambda>z. AirModelType h z = RoomAirModel_Mundt"
  have up: "[1..int (Suc m)] = [1..int m] @ [int m + 1]"
    using upto_rec2 [of 1 "int m + 1"] by (simp add: add.commute)
  from Suc.prems(1) obtain st1 l1 where
    pre: "forE [1..int m] (InitZoneData h) (st0, l0) = Inr (st1, l1)"
    and step: "InitZoneData h (int m + 1) (st1, l1) = Inr (st, l)"
    unfolding up forE_append by (auto simp: bindE_eq_Inr)
  note IH = Suc.IH [OF pre]
  note S = InitZoneData_step2 [OF step]
  show ?case
  proof (cases "?P (int m + 1)")
    case False
    with S have e: "ZoneData st = ZoneData st1" "MaxNumOfSurfs l = MaxNumOfSurfs l1"
      "MaxNumOfAirNodes l = MaxNumOfAirNodes l1"
      by simp_all
    have a: "NumOfSurfs (ZoneData st1 ! nat (z - 1)) \<le> MaxNumOfSurfs l1 \<and>
            TotNumOfZoneAirNodes h z \<le> MaxNumOfAirNodes l1"
      if "1 \<le> z" "z \<le> int (Suc m)" "?P z" for z
    proof -
      from that False have "z \<le> int m"
        by (cases "z = int m + 1") auto
      with IH that show ?thesis
        by blast
    qed
    have b: "NumOfSurfs (ZoneData st1 ! nat (z - 1)) = 0"
      if "1 \<le> z" "z \<le> NumOfZones h" "\<not> (?P z \<and> z \<le> int (Suc m))" for z
    proof -
      from that False have "\<not> (?P z \<and> z \<le> int m)"
        by auto
      with IH that show ?thesis
        by blast
    qed
    from a b show ?thesis
      unfolding e by blast
  next
    case True
    with S have new: "NumOfSurfs (ZoneData st ! nat (int m + 1 - 1)) \<le> MaxNumOfSurfs l"
      "TotNumOfZoneAirNodes h (int m + 1) \<le> MaxNumOfAirNodes l"
      and mono: "MaxNumOfSurfs l1 \<le> MaxNumOfSurfs l" "MaxNumOfAirNodes l1 \<le> MaxNumOfAirNodes l"
      and old: "\<And>y. y \<noteq> int m + 1 \<Longrightarrow> 1 \<le> y \<Longrightarrow>
                  ZoneData st ! nat (y - 1) = ZoneData st1 ! nat (y - 1)"
      by simp_all
    have a: "NumOfSurfs (ZoneData st ! nat (z - 1)) \<le> MaxNumOfSurfs l \<and>
            TotNumOfZoneAirNodes h z \<le> MaxNumOfAirNodes l"
      if "1 \<le> z" "z \<le> int (Suc m)" "?P z" for z
    proof (cases "z = int m + 1")
      case True
      with new show ?thesis by simp
    next
      case False
      with that have "z \<le> int m" by simp
      with IH that have "NumOfSurfs (ZoneData st1 ! nat (z - 1)) \<le> MaxNumOfSurfs l1 \<and>
            TotNumOfZoneAirNodes h z \<le> MaxNumOfAirNodes l1"
        by blast
      with old [OF False that(1)] mono show ?thesis
        by simp
    qed
    have b: "NumOfSurfs (ZoneData st ! nat (z - 1)) = 0"
      if "1 \<le> z" "z \<le> NumOfZones h" "\<not> (?P z \<and> z \<le> int (Suc m))" for z
    proof -
      from that True have ne: "z \<noteq> int m + 1" and "\<not> (?P z \<and> z \<le> int m)"
        by auto
      with IH that have "NumOfSurfs (ZoneData st1 ! nat (z - 1)) = 0"
        by blast
      with old [OF ne that(1)] show ?thesis
        by simp
    qed
    from a b show ?thesis
      by blast
  qed
qed

text \<open>What every step on the surfaces and on the air nodes keeps, the scan keeps.\<close>

lemma InitZoneLoop_invariant:
  assumes "InitZoneLoop k zs s = Inr s'" and "P (fst (snd s))"
    and "\<And>z j t t'. P (fst (snd t)) \<Longrightarrow> InitSurf z k j t = Inr t' \<Longrightarrow> P (fst (snd t'))"
    and "\<And>z n t t'. P (fst (snd t)) \<Longrightarrow> InitNode z k n t = Inr t' \<Longrightarrow> P (fst (snd t'))"
  shows "P (fst (snd s'))"
  using assms(1,2)
proof (induction zs arbitrary: s)
  case Nil
  then show ?case by simp
next
  case (Cons z zs)
  from Cons.prems(1) obtain zd :: DefineZoneData where
    r: "(if MundtZoneIndex zd = k
         then bindE (forE [1..NumOfSurfs zd] (InitSurf z k) s)
                (\<lambda>(h1, st1, l1).
                   bindE (forE [1..TotNumOfZoneAirNodes h1 z] (InitNode z k)
                            (h1, st1, l1\<lparr>RoomNodesCount := 0, FloorSurfCount := 0\<rparr>))
                     (\<lambda>s2. if AirNodeFoundFlag (snd (snd s2)) then Inr s2
                            else InitZoneLoop k zs s2))
         else InitZoneLoop k zs s) = Inr s'"
    by (auto simp: bindE_eq_Inr)
  show ?case
  proof (cases "MundtZoneIndex zd = k")
    case False
    with r have "InitZoneLoop k zs s = Inr s'"
      by simp
    from Cons.IH [OF this Cons.prems(2)] show ?thesis .
  next
    case True
    with r obtain h1 st1 l1 s2 where
      surf: "forE [1..NumOfSurfs zd] (InitSurf z k) s = Inr (h1, st1, l1)"
      and node: "forE [1..TotNumOfZoneAirNodes h1 z] (InitNode z k)
                   (h1, st1, l1\<lparr>RoomNodesCount := 0, FloorSurfCount := 0\<rparr>) = Inr s2"
      and fin: "(if AirNodeFoundFlag (snd (snd s2)) then Inr s2 else InitZoneLoop k zs s2) =
                  Inr s'"
      by (auto simp: bindE_eq_Inr)
    have "P (fst (snd (h1, st1, l1)))"
      by (rule forE_invariant [OF surf, where P = "\<lambda>t. P (fst (snd t))"])
        (simp_all add: Cons.prems(2) assms(3))
    then have "P (fst (snd (h1, st1, l1\<lparr>RoomNodesCount := 0, FloorSurfCount := 0\<rparr>)))"
      by simp
    then have P2: "P (fst (snd s2))"
      by (rule forE_invariant [OF node, where P = "\<lambda>t. P (fst (snd t))"])
        (simp_all add: assms(4))
    show ?thesis
    proof (cases "AirNodeFoundFlag (snd (snd s2))")
      case True
      with fin P2 show ?thesis by simp
    next
      case False
      with fin have "InitZoneLoop k zs s2 = Inr s'"
        by simp
      from Cons.IH [OF this P2] show ?thesis .
    qed
  qed
qed

lemma InitMundtZone_invariant:
  assumes "InitMundtZone k s = Inr s'" and "P (fst (snd s))"
    and "\<And>z j t t'. P (fst (snd t)) \<Longrightarrow> InitSurf z k j t = Inr t' \<Longrightarrow> P (fst (snd t'))"
    and "\<And>z n t t'. P (fst (snd t)) \<Longrightarrow> InitNode z k n t = Inr t' \<Longrightarrow> P (fst (snd t'))"
  shows "P (fst (snd s'))"
proof -
  from assms(1) obtain s1 where loop: "InitZoneLoop k [1..NumOfZones (fst s)] s = Inr s1"
    and e: "fst (snd s') = fst (snd s1)"
    by (auto simp: InitMundtZone_def bindE_eq_Inr split_beta)
  have "P (fst (snd s1))"
    by (rule InitZoneLoop_invariant [where P = P, OF loop assms(2)])
      (erule (1) assms(3), erule (1) assms(4))
  with e show ?thesis
    by simp
qed

lemma InitMundtZones_invariant:
  assumes "forE ks InitMundtZone s = Inr s'" and "P (fst (snd s))"
    and "\<And>k z j t t'. k \<in> set ks \<Longrightarrow> P (fst (snd t)) \<Longrightarrow> InitSurf z k j t = Inr t' \<Longrightarrow>
           P (fst (snd t'))"
    and "\<And>k z n t t'. k \<in> set ks \<Longrightarrow> P (fst (snd t)) \<Longrightarrow> InitNode z k n t = Inr t' \<Longrightarrow>
           P (fst (snd t'))"
  shows "P (fst (snd s'))"
proof (rule forE_invariant [OF assms(1), where P = "\<lambda>t. P (fst (snd t))"])
  show "P (fst (snd s))" by (rule assms(2))
next
  fix k t t'
  assume k: "k \<in> set ks" and t: "P (fst (snd t))" and step: "InitMundtZone k t = Inr t'"
  show "P (fst (snd t'))"
    by (rule InitMundtZone_invariant [where P = P, OF step t])
      (erule (1) assms(3) [OF k], erule (1) assms(4) [OF k])
qed

lemma InitSurf_mundt:
  assumes "InitSurf z k j t = Inr t'"
  shows "HasDims (LineNode (fst (snd t))) r c \<Longrightarrow> HasDims (LineNode (fst (snd t'))) r c"
    and "HasDims (MundtAirSurf (fst (snd t))) r c \<Longrightarrow>
           HasDims (MundtAirSurf (fst (snd t'))) r c"
    and "ZoneData (fst (snd t')) = ZoneData (fst (snd t))"
proof -
  obtain h st l h' st' l' where t: "t = (h, st, l)" and t': "t' = (h', st', l')"
    by (cases t, cases t') auto
  note S = InitSurf_step [OF assms [unfolded t t']]
  show "HasDims (LineNode (fst (snd t'))) r c" if "HasDims (LineNode (fst (snd t))) r c"
    using that S(4) by (simp add: t t')
  show "HasDims (MundtAirSurf (fst (snd t'))) r c"
    if "HasDims (MundtAirSurf (fst (snd t))) r c"
    using that S(5) by (simp add: t t')
  show "ZoneData (fst (snd t')) = ZoneData (fst (snd t))"
    using S(3) by (simp add: t t')
qed

lemma InitNode_mundt:
  assumes "InitNode z k n t = Inr t'"
  shows "HasDims (LineNode (fst (snd t))) r c \<Longrightarrow> HasDims (LineNode (fst (snd t'))) r c"
    and "MundtAirSurf (fst (snd t')) = MundtAirSurf (fst (snd t))"
    and "ZoneData (fst (snd t')) = ZoneData (fst (snd t))"
proof -
  obtain h st l h' st' l' where t: "t = (h, st, l)" and t': "t' = (h', st', l')"
    by (cases t, cases t') auto
  note F = InitNode_frame [OF assms [unfolded t t']]
  show "HasDims (LineNode (fst (snd t'))) r c" if "HasDims (LineNode (fst (snd t))) r c"
    using that F(2) by (simp add: t t')
  show "MundtAirSurf (fst (snd t')) = MundtAirSurf (fst (snd t))"
    using F(1) by (simp add: t t')
  from InitNode_step [OF assms [unfolded t t']] show
    "ZoneData (fst (snd t')) = ZoneData (fst (snd t))"
    by (auto simp: t t')
qed

text \<open>One index of a Mundt zone: the scan of its zone ends the run when it goes beyond
  the last definition, and returns otherwise.\<close>

lemma InitMundtZone_outcome:
  assumes "1 \<le> zk" and "zk \<le> NumOfZones h"
    and "length (ZoneData st) = nat (NumOfZones h)"
    and "MundtIndexOf (ZoneData st) zk = k"
    and "\<forall>y. 1 \<le> y \<longrightarrow> y \<le> NumOfZones h \<longrightarrow> MundtIndexOf (ZoneData st) y = k \<longrightarrow> y = zk"
    and "HasDims (LineNode st) r cN" and "HasDims (MundtAirSurf st) r cS"
    and "1 \<le> k" and "k \<le> int r"
    and "NumOfSurfs (ZoneData st ! nat (zk - 1)) \<le> int cS"
    and "TotNumOfZoneAirNodes h zk \<le> int cN"
  shows "(BoundExceeded h zk \<longrightarrow> InitMundtZone k (h, st, l) = Inl ArrayBoundFatal) \<and>
         (\<not> BoundExceeded h zk \<longrightarrow> (\<exists>s'. InitMundtZone k (h, st, l) = Inr s'))"
proof -
  let ?zd = "ZoneData st ! nat (zk - 1)"
  have mem: "zk \<in> set [1..NumOfZones h]"
    using assms(1,2) by simp
  have rng: "\<forall>z \<in> set [1..NumOfZones (fst (h, st, l))].
               inrange (ZoneData (fst (snd (h, st, l)))) z"
    using assms(3) by (simp add: inrange_def)
  have at: "at1 (ZoneData (fst (snd (h, st, l)))) zk = Inr ?zd"
    using assms(1,2,3) by (simp add: at1_def inrange_def)
  have ix: "MundtZoneIndex ?zd = k"
    using assms(4) by (simp add: MundtIndexOf_def)
  have un: "\<forall>z \<in> set [1..NumOfZones (fst (h, st, l))]. \<forall>zd'.
              at1 (ZoneData (fst (snd (h, st, l)))) z = Inr zd' \<longrightarrow>
              MundtZoneIndex zd' = k \<longrightarrow> z = zk"
    using assms(5) by (auto simp: at1_Inr MundtIndexOf_def)
  have mem': "zk \<in> set [1..NumOfZones (fst (h, st, l))]"
    using mem by simp
  note E = InitZoneLoop_eq [OF mem' distinct_upto rng at ix un]
  from InitSurfLoop_total [where h = h and l = l, OF at [simplified] assms(7,8,9,10)]
  obtain st1 where
    surf: "forE [1..NumOfSurfs ?zd] (InitSurf zk k) (h, st, l) = Inr (h, st1, l)"
    and l1: "LineNode st1 = LineNode st" and z1: "ZoneData st1 = ZoneData st"
    by blast
  have at1': "at1 (ZoneData st1) zk = Inr ?zd"
    using at z1 by simp
  have d1: "HasDims (LineNode st1) r cN"
    using assms(6) l1 by simp
  note N = InitNodeLoop_zone_outcome [OF at1' d1 assms(8,9,11),
      of "l\<lparr>RoomNodesCount := 0, FloorSurfCount := 0\<rparr>"]
  have loop: "InitZoneLoop k [1..NumOfZones h] (h, st, l) =
      forE [1..TotNumOfZoneAirNodes h zk] (InitNode zk k)
        (h, st1, l\<lparr>RoomNodesCount := 0, FloorSurfCount := 0\<rparr>)"
    using E surf by simp
  show ?thesis
  proof (cases "BoundExceeded h zk")
    case True
    with N loop show ?thesis
      by (simp add: InitMundtZone_def)
  next
    case False
    with N loop obtain s2 where "InitZoneLoop k [1..NumOfZones h] (h, st, l) = Inr s2"
      by auto
    with False show ?thesis
      by (cases s2) (simp add: InitMundtZone_def)
  qed
qed

lemma InitMundtZone_loop_outcome:
  assumes "map (MundtIndexOf (ZoneData (fst (snd s)))) zs = ks" and "distinct ks"
    and "\<forall>z \<in> set zs. 1 \<le> z \<and> z \<le> NumOfZones (fst s)"
    and "length (ZoneData (fst (snd s))) = nat (NumOfZones (fst s))"
    and "\<forall>y. 1 \<le> y \<longrightarrow> y \<le> NumOfZones (fst s) \<longrightarrow>
           MundtIndexOf (ZoneData (fst (snd s))) y \<in> set ks \<longrightarrow> y \<in> set zs"
    and "HasDims (LineNode (fst (snd s))) r cN" and "HasDims (MundtAirSurf (fst (snd s))) r cS"
    and "\<forall>k \<in> set ks. 1 \<le> k \<and> k \<le> int r"
    and "\<forall>z \<in> set zs. NumOfSurfs (ZoneData (fst (snd s)) ! nat (z - 1)) \<le> int cS \<and>
           TotNumOfZoneAirNodes (fst s) z \<le> int cN"
  shows "((\<exists>z \<in> set zs. BoundExceeded (fst s) z) \<longrightarrow>
            forE ks InitMundtZone s = Inl ArrayBoundFatal) \<and>
         (\<not> (\<exists>z \<in> set zs. BoundExceeded (fst s) z) \<longrightarrow>
            (\<exists>s'. forE ks InitMundtZone s = Inr s'))"
  using assms
proof (induction ks arbitrary: zs s)
  case Nil
  then have "zs = []"
    by simp
  then show ?case
    by (cases s) simp
next
  case (Cons k ks)
  obtain h st l where s: "s = (h, st, l)"
    by (cases s) auto
  from Cons.prems(1) obtain z zs' where zs: "zs = z # zs'"
    and k: "MundtIndexOf (ZoneData st) z = k"
    and ks: "map (MundtIndexOf (ZoneData st)) zs' = ks"
    by (auto simp: s)
  from Cons.prems(2) have kn: "k \<notin> set ks" and dk: "distinct ks"
    by simp_all
  from Cons.prems(3) have z: "1 \<le> z" "z \<le> NumOfZones h"
    and zr: "\<forall>z \<in> set zs'. 1 \<le> z \<and> z \<le> NumOfZones h"
    by (simp_all add: s zs)
  from Cons.prems(4) have len: "length (ZoneData st) = nat (NumOfZones h)"
    by (simp add: s)
  from Cons.prems(5) have cov: "\<forall>y. 1 \<le> y \<longrightarrow> y \<le> NumOfZones h \<longrightarrow>
           MundtIndexOf (ZoneData st) y \<in> set (k # ks) \<longrightarrow> y \<in> set (z # zs')"
    by (simp add: s zs)
  have un: "\<forall>y. 1 \<le> y \<longrightarrow> y \<le> NumOfZones h \<longrightarrow> MundtIndexOf (ZoneData st) y = k \<longrightarrow> y = z"
  proof (intro allI impI)
    fix y assume y: "1 \<le> y" "y \<le> NumOfZones h" "MundtIndexOf (ZoneData st) y = k"
    with cov have "y \<in> set (z # zs')"
      by simp
    moreover have "y \<notin> set zs'"
    proof
      assume "y \<in> set zs'"
      then have "MundtIndexOf (ZoneData st) y \<in> set (map (MundtIndexOf (ZoneData st)) zs')"
        by simp
      with ks y(3) kn show False
        by simp
    qed
    ultimately show "y = z"
      by simp
  qed
  have cov': "\<forall>y. 1 \<le> y \<longrightarrow> y \<le> NumOfZones h \<longrightarrow>
           MundtIndexOf (ZoneData st) y \<in> set ks \<longrightarrow> y \<in> set zs'"
  proof (intro allI impI)
    fix y assume y: "1 \<le> y" "y \<le> NumOfZones h" "MundtIndexOf (ZoneData st) y \<in> set ks"
    with cov have "y \<in> set (z # zs')"
      by simp
    moreover from y(3) kn k have "y \<noteq> z"
      by auto
    ultimately show "y \<in> set zs'"
      by simp
  qed
  from Cons.prems(6,7) have dN: "HasDims (LineNode st) r cN"
    and dS: "HasDims (MundtAirSurf st) r cS"
    by (simp_all add: s)
  from Cons.prems(8) have kr: "1 \<le> k" "k \<le> int r" and ksr: "\<forall>k \<in> set ks. 1 \<le> k \<and> k \<le> int r"
    by simp_all
  from Cons.prems(9) have sz: "NumOfSurfs (ZoneData st ! nat (z - 1)) \<le> int cS"
    "TotNumOfZoneAirNodes h z \<le> int cN"
    and szr: "\<forall>z \<in> set zs'. NumOfSurfs (ZoneData st ! nat (z - 1)) \<le> int cS \<and>
           TotNumOfZoneAirNodes h z \<le> int cN"
    by (simp_all add: s zs)
  note O = InitMundtZone_outcome [OF z len k un dN dS kr sz, of l]
  show ?case
  proof (cases "BoundExceeded h z")
    case True
    with O have "InitMundtZone k (h, st, l) = Inl ArrayBoundFatal"
      by simp
    with True show ?thesis
      by (simp add: s zs)
  next
    case False
    with O obtain s1 where step: "InitMundtZone k (h, st, l) = Inr s1"
      by auto
    obtain h1 st1 l1 where s1: "s1 = (h1, st1, l1)"
      by (cases s1) auto
    note M = InitMundtZone_step [OF step [unfolded s1] z len k un]
    have h1: "NumOfZones h1 = NumOfZones h" "TotNumOfZoneAirNodes h1 = TotNumOfZoneAirNodes h"
      by (simp_all add: M(1))
    have B: "BoundExceeded h1 = BoundExceeded h"
      by (simp add: M(1) fun_eq_iff)
    have dN1: "HasDims (LineNode (fst (snd s1))) r cN"
      by (rule InitMundtZone_invariant [OF step, where P = "\<lambda>m. HasDims (LineNode m) r cN"])
        (simp_all add: dN InitSurf_mundt(1) InitNode_mundt(1))
    have dS1: "HasDims (MundtAirSurf (fst (snd s1))) r cS"
      by (rule InitMundtZone_invariant [OF step, where P = "\<lambda>m. HasDims (MundtAirSurf m) r cS"])
        (simp_all add: dS InitSurf_mundt(2) InitNode_mundt(2))
    have IH: "((\<exists>z \<in> set zs'. BoundExceeded (fst s1) z) \<longrightarrow>
            forE ks InitMundtZone s1 = Inl ArrayBoundFatal) \<and>
         (\<not> (\<exists>z \<in> set zs'. BoundExceeded (fst s1) z) \<longrightarrow>
            (\<exists>s'. forE ks InitMundtZone s1 = Inr s'))"
      by (rule Cons.IH [OF _ dk _ _ _ dN1 dS1 ksr])
        (simp_all add: s1 M(3) ks zr len cov' h1 szr)
    from IH False show ?thesis
      using step by (simp add: s zs s1 B)
  qed
qed

lemma InitScan_zones:
  "\<exists>sta la.
     InitScan h st = forE [1..NumOfMundtZones la] InitMundtZone (h, InitAllocate la sta, la) \<and>
     length (ZoneData sta) = nat (NumOfZones h) \<and>
     map (MundtIndexOf (ZoneData sta)) (MundtZones h) = [1..NumOfMundtZones la] \<and>
     (\<forall>y. 1 \<le> y \<longrightarrow> y \<le> NumOfZones h \<longrightarrow>
        MundtIndexOf (ZoneData sta) y \<in> set [1..NumOfMundtZones la] \<longrightarrow>
        y \<in> set (MundtZones h)) \<and>
     (\<forall>z \<in> set (MundtZones h).
        NumOfSurfs (ZoneData sta ! nat (z - 1)) \<le> int (nat (MaxNumOfSurfs la)) \<and>
        TotNumOfZoneAirNodes h z \<le> int (nat (MaxNumOfAirNodes la))) \<and>
     (\<forall>z. 1 \<le> z \<longrightarrow> z \<le> NumOfZones h \<longrightarrow> z \<notin> set (MundtZones h) \<longrightarrow>
        NumOfSurfs (ZoneData sta ! nat (z - 1)) = 0)"
proof -
  let ?P = "\<lambda>z. AirModelType h z = RoomAirModel_Mundt"
  let ?zero = "\<lparr>SurfFirst = 0, NumOfSurfs = 0, MundtZoneIndex = 0\<rparr>"
  let ?st0 = "st\<lparr>ZoneData := replicate (nat (NumOfZones h)) ?zero\<rparr>"
  have up: "[1..NumOfZones h] = [1..int (nat (NumOfZones h))]"
    by (cases "0 \<le> NumOfZones h") simp_all
  have z0: "ZoneData ?st0 = replicate (nat (NumOfZones h)) ?zero"
    by simp
  have "length (ZoneData ?st0) = nat (NumOfZones h)"
    by simp
  from InitZoneData_total [OF this, of InitLocals0] obtain sta la where
    one: "forE [1..NumOfZones h] (InitZoneData h) (?st0, InitLocals0) = Inr (sta, la)"
    by blast
  then have one': "forE [1..int (nat (NumOfZones h))] (InitZoneData h) (?st0, InitLocals0) =
      Inr (sta, la)"
    using up by simp
  have mz: "MundtZones h = filter ?P [1..int (nat (NumOfZones h))]"
    by (simp add: MundtZones_def up [symmetric])
  from InitZoneData_loop [OF one' z0] have
    len: "length (ZoneData sta) = nat (NumOfZones h)"
    and mp: "map (MundtIndexOf (ZoneData sta)) (MundtZones h) = [1..NumOfMundtZones la]"
    and zero: "\<forall>z. 1 \<le> z \<longrightarrow> z \<le> NumOfZones h \<longrightarrow>
                 \<not> (?P z \<and> z \<le> int (nat (NumOfZones h))) \<longrightarrow>
                 MundtIndexOf (ZoneData sta) z = 0"
    by (simp_all add: mz InitLocals0_def)
  from InitZoneData_loop2 [OF one' z0] have
    size: "\<forall>z. 1 \<le> z \<longrightarrow> z \<le> int (nat (NumOfZones h)) \<longrightarrow> ?P z \<longrightarrow>
            NumOfSurfs (ZoneData sta ! nat (z - 1)) \<le> MaxNumOfSurfs la \<and>
            TotNumOfZoneAirNodes h z \<le> MaxNumOfAirNodes la"
    and none: "\<forall>z. 1 \<le> z \<longrightarrow> z \<le> NumOfZones h \<longrightarrow>
            \<not> (?P z \<and> z \<le> int (nat (NumOfZones h))) \<longrightarrow>
            NumOfSurfs (ZoneData sta ! nat (z - 1)) = 0"
    by blast+
  have cov: "\<forall>y. 1 \<le> y \<longrightarrow> y \<le> NumOfZones h \<longrightarrow>
           MundtIndexOf (ZoneData sta) y \<in> set [1..NumOfMundtZones la] \<longrightarrow>
           y \<in> set (MundtZones h)"
  proof (intro allI impI)
    fix y assume y: "1 \<le> y" "y \<le> NumOfZones h"
      "MundtIndexOf (ZoneData sta) y \<in> set [1..NumOfMundtZones la]"
    then have "MundtIndexOf (ZoneData sta) y \<noteq> 0"
      by auto
    with zero y have "?P y"
      by blast
    with y show "y \<in> set (MundtZones h)"
      by (simp add: MundtZones_def)
  qed
  have sz: "\<forall>z \<in> set (MundtZones h).
              NumOfSurfs (ZoneData sta ! nat (z - 1)) \<le> int (nat (MaxNumOfSurfs la)) \<and>
              TotNumOfZoneAirNodes h z \<le> int (nat (MaxNumOfAirNodes la))"
  proof
    fix z assume "z \<in> set (MundtZones h)"
    then have "1 \<le> z" "z \<le> int (nat (NumOfZones h))" "?P z"
      by (simp_all add: MundtZones_def)
    with size have "NumOfSurfs (ZoneData sta ! nat (z - 1)) \<le> MaxNumOfSurfs la \<and>
            TotNumOfZoneAirNodes h z \<le> MaxNumOfAirNodes la"
      by blast
    then show "NumOfSurfs (ZoneData sta ! nat (z - 1)) \<le> int (nat (MaxNumOfSurfs la)) \<and>
              TotNumOfZoneAirNodes h z \<le> int (nat (MaxNumOfAirNodes la))"
      by simp
  qed
  have nm: "\<forall>z. 1 \<le> z \<longrightarrow> z \<le> NumOfZones h \<longrightarrow> z \<notin> set (MundtZones h) \<longrightarrow>
        NumOfSurfs (ZoneData sta ! nat (z - 1)) = 0"
  proof (intro allI impI)
    fix z assume z: "1 \<le> z" "z \<le> NumOfZones h" "z \<notin> set (MundtZones h)"
    then have "\<not> ?P z"
      by (simp add: MundtZones_def)
    with none z show "NumOfSurfs (ZoneData sta ! nat (z - 1)) = 0"
      by blast
  qed
  have scan: "InitScan h st = forE [1..NumOfMundtZones la] InitMundtZone (h, InitAllocate la sta, la)"
    using one by (simp add: InitScan_def)
  from scan len mp cov sz nm show ?thesis
    by blast
qed

lemma InitScan_outcome:
  "((\<exists>z \<in> set (MundtZones h). BoundExceeded h z) \<longrightarrow> InitScan h st = Inl ArrayBoundFatal) \<and>
   (\<not> (\<exists>z \<in> set (MundtZones h). BoundExceeded h z) \<longrightarrow>
      (\<exists>h1 st1 l1. InitScan h st = Inr (h1, st1, l1)))"
proof -
  from InitScan_zones [of h st] obtain sta la where
    scan: "InitScan h st = forE [1..NumOfMundtZones la] InitMundtZone (h, InitAllocate la sta, la)"
    and len: "length (ZoneData sta) = nat (NumOfZones h)"
    and mp: "map (MundtIndexOf (ZoneData sta)) (MundtZones h) = [1..NumOfMundtZones la]"
    and cov: "\<forall>y. 1 \<le> y \<longrightarrow> y \<le> NumOfZones h \<longrightarrow>
        MundtIndexOf (ZoneData sta) y \<in> set [1..NumOfMundtZones la] \<longrightarrow>
        y \<in> set (MundtZones h)"
    and sz: "\<forall>z \<in> set (MundtZones h).
        NumOfSurfs (ZoneData sta ! nat (z - 1)) \<le> int (nat (MaxNumOfSurfs la)) \<and>
        TotNumOfZoneAirNodes h z \<le> int (nat (MaxNumOfAirNodes la))"
    by blast
  let ?s = "(h, InitAllocate la sta, la)"
  have za: "ZoneData (InitAllocate la sta) = ZoneData sta"
    by (simp add: InitAllocate_def)
  have dN: "HasDims (LineNode (fst (snd ?s))) (nat (NumOfMundtZones la))
              (nat (MaxNumOfAirNodes la))"
    by (simp add: InitAllocate_def HasDims_replicate)
  have dS: "HasDims (MundtAirSurf (fst (snd ?s))) (nat (NumOfMundtZones la))
              (nat (MaxNumOfSurfs la))"
    by (simp add: InitAllocate_def HasDims_replicate)
  have a1: "map (MundtIndexOf (ZoneData (fst (snd ?s)))) (MundtZones h) = [1..NumOfMundtZones la]"
    using mp by (simp add: za)
  have a2: "distinct [1..NumOfMundtZones la]"
    by simp
  have a3: "\<forall>z \<in> set (MundtZones h). 1 \<le> z \<and> z \<le> NumOfZones (fst ?s)"
    by (simp add: MundtZones_def)
  have a4: "length (ZoneData (fst (snd ?s))) = nat (NumOfZones (fst ?s))"
    using len by (simp add: za)
  have a5: "\<forall>y. 1 \<le> y \<longrightarrow> y \<le> NumOfZones (fst ?s) \<longrightarrow>
           MundtIndexOf (ZoneData (fst (snd ?s))) y \<in> set [1..NumOfMundtZones la] \<longrightarrow>
           y \<in> set (MundtZones h)"
    using cov by (simp add: za)
  have a8: "\<forall>k \<in> set [1..NumOfMundtZones la]. 1 \<le> k \<and> k \<le> int (nat (NumOfMundtZones la))"
    by simp
  have a9: "\<forall>z \<in> set (MundtZones h).
              NumOfSurfs (ZoneData (fst (snd ?s)) ! nat (z - 1)) \<le> int (nat (MaxNumOfSurfs la)) \<and>
              TotNumOfZoneAirNodes (fst ?s) z \<le> int (nat (MaxNumOfAirNodes la))"
    using sz by (simp add: za)
  have L: "((\<exists>z \<in> set (MundtZones h). BoundExceeded (fst ?s) z) \<longrightarrow>
            forE [1..NumOfMundtZones la] InitMundtZone ?s = Inl ArrayBoundFatal) \<and>
         (\<not> (\<exists>z \<in> set (MundtZones h). BoundExceeded (fst ?s) z) \<longrightarrow>
            (\<exists>s'. forE [1..NumOfMundtZones la] InitMundtZone ?s = Inr s'))"
    by (rule InitMundtZone_loop_outcome [OF a1 a2 a3 a4 a5 dN dS a8 a9])
  from L show ?thesis
    unfolding scan by auto
qed

text \<open>Claim C7, as amended. On the first call the topology is built by
  \<^verbatim>\<open>InitMundtModel\<close>, and what becomes of the build is settled by the data of the host.
  When, for one Mundt zone, an air node is reached with the scan position beyond the
  last definition, the build ends at once in the fatal error
  \<^verbatim>\<open>An array bound exceeded.\<close>, whatever the other zones hold. Otherwise the scan of
  the Mundt zones runs to its end: the log of severe errors has grown by exactly one
  message \<^verbatim>\<open>Air Node in Zone=... is not found.\<close> for every air node of every Mundt
  zone for which the forward scan finds no definition, zone after zone in the order
  of the zones; the fatal abort \<^verbatim>\<open>Preceding condition(s) cause termination.\<close> is issued
  after that scan exactly when one Mundt zone has such a node, and otherwise
  \<^verbatim>\<open>InitMundtModel\<close> returns. Whenever the build fails, the first call of
  \<^verbatim>\<open>ManageMundtModel\<close> fails with the same error, so that no zone is solved.\<close>

theorem InitMundtModel_unmatched_nodes:
  assumes "FirstTimeFlag st"
  shows "if \<exists>z \<in> set (MundtZones h). BoundExceeded h z
         then InitMundtModel h st =
                Inl (FatalError
                  ''An array bound exceeded. Error in InitMundtModel subroutine of MundtSimMgr.'') \<and>
              ManageMundtModel ZoneNum (h, st) =
                Inl (FatalError
                  ''An array bound exceeded. Error in InitMundtModel subroutine of MundtSimMgr.'')
         else \<exists>h1 st1 l1. InitScan h st = Inr (h1, st1, l1) \<and>
                ErrLog h1 = ErrLog h @ NotFoundMessages h (MundtZones h) \<and>
                (if \<exists>z \<in> set (MundtZones h). 0 < UnmatchedNodes h z
                 then InitMundtModel h st =
                        Inl (FatalError
                          ''InitMundtModel: Preceding condition(s) cause termination.'') \<and>
                      ManageMundtModel ZoneNum (h, st) =
                        Inl (FatalError
                          ''InitMundtModel: Preceding condition(s) cause termination.'')
                 else (\<exists>st2. InitMundtModel h st = Inr (h1, st2)))"
proof (cases "\<exists>z \<in> set (MundtZones h). BoundExceeded h z")
  case True
  with InitScan_outcome [of h st] have "InitScan h st = Inl ArrayBoundFatal"
    by blast
  then have i: "InitMundtModel h st = Inl ArrayBoundFatal"
    by (simp add: InitMundtModel_def)
  from True i ManageMundtModel_first_Inl [OF assms i] show ?thesis
    by (simp add: ArrayBoundFatal_def)
next
  case False
  with InitScan_outcome [of h st] obtain h1 st1 l1 where
    scan: "InitScan h st = Inr (h1, st1, l1)"
    by blast
  note L = InitScan_log [OF scan]
  show ?thesis
  proof (cases "\<exists>z \<in> set (MundtZones h). 0 < UnmatchedNodes h z")
    case True
    with L(2) have "ErrorsFound l1"
      by simp
    with scan have i: "InitMundtModel h st =
        Inl (FatalError ''InitMundtModel: Preceding condition(s) cause termination.'')"
      by (simp add: InitMundtModel_def)
    from scan L(1) True \<open>\<not> (\<exists>z \<in> set (MundtZones h). BoundExceeded h z)\<close> i
      ManageMundtModel_first_Inl [OF assms i]
    show ?thesis
      by simp
  next
    case no: False
    with L(2) have "\<not> ErrorsFound l1"
      by simp
    with scan have "\<exists>st2. InitMundtModel h st = Inr (h1, st2)"
      by (simp add: InitMundtModel_def)
    with scan L(1) no False show ?thesis
      by simp
  qed
qed

lemmas ex_scan_defs =
  MundtZones_def UnmatchedNodes_def BoundExceeded_def NodeMatches_def NotFoundMessages_def NotFoundMessage_def
  ex_host_lost_def ex_host_short_def ex_host_def SameString_def upper_char_def ex_AirNode_def
  upto_from_1

lemma ex_lost_zones: "MundtZones ex_host_lost = [1, 2]"
  by (simp add: ex_scan_defs)

lemma ex_lost_unmatched: "UnmatchedNodes ex_host_lost 1 = 1 \<and> UnmatchedNodes ex_host_lost 2 = 1"
  by (simp add: ex_scan_defs)

lemma ex_lost_bound: "\<not> BoundExceeded ex_host_lost 1 \<and> \<not> BoundExceeded ex_host_lost 2"
  by (simp add: ex_scan_defs)

text \<open>Two Mundt zones, each with one air node without a definition and the table of
  the definitions long enough: both messages are in the log when the build is
  aborted.\<close>

theorem InitMundtModel_unmatched_nodes_witness:
  "FirstTimeFlag mundt0 \<and>
   MundtZones ex_host_lost = [1, 2] \<and>
   \<not> BoundExceeded ex_host_lost 1 \<and> \<not> BoundExceeded ex_host_lost 2 \<and>
   UnmatchedNodes ex_host_lost 1 = 1 \<and> UnmatchedNodes ex_host_lost 2 = 1 \<and>
   (\<exists>h1 st1 l1. InitScan ex_host_lost mundt0 = Inr (h1, st1, l1) \<and>
      ErrLog h1 = [NotFoundMessage ex_host_lost 1, NotFoundMessage ex_host_lost 2]) \<and>
   InitMundtModel ex_host_lost mundt0 =
     Inl (FatalError ''InitMundtModel: Preceding condition(s) cause termination.'') \<and>
   ManageMundtModel 1 (ex_host_lost, mundt0) =
     Inl (FatalError ''InitMundtModel: Preceding condition(s) cause termination.'')"
proof -
  have f: "FirstTimeFlag mundt0"
    by (simp add: mundt0_def)
  have e: "ErrLog ex_host_lost = []"
    by (simp add: ex_host_lost_def ex_host_def)
  from InitMundtModel_unmatched_nodes [OF f, of ex_host_lost 1] ex_lost_zones ex_lost_bound
    ex_lost_unmatched e f
  show ?thesis
    by (auto simp: NotFoundMessages_def)
qed

text \<open>The claim C7 as stated fails where the table of the definitions ends before the
  air nodes of a zone do: the sixth air node of the first zone then has no definition,
  but the build is aborted at once by the check of the array bound, with no severe
  error and before the second Mundt zone (which has an unmatched air node, too) is
  scanned.\<close>

theorem InitMundtModel_unmatched_nodes_counterexample:
  "MundtZones ex_host_short = [1, 2] \<and>
   UnmatchedNodes ex_host_short 1 = 1 \<and> UnmatchedNodes ex_host_short 2 = 1 \<and>
   BoundExceeded ex_host_short 1 \<and>
   InitMundtModel ex_host_short mundt0 =
     Inl (FatalError
       ''An array bound exceeded. Error in InitMundtModel subroutine of MundtSimMgr.'')"
  by (simp add: ex_scan_defs ex_init_defs mundt0_def
      upd1_def upd2_def at1_def inrange_def count_def Let_def replicate_numeral_Cons
      list_update_numeral_Cons ShowSevereError_def)

subsection \<open>The entries of the surfaces in one call\<close>

lemma forE_each_inv:
  assumes "forE js body s = Inr s'" and "P s"
    and "\<And>j t t'. j \<in> set js \<Longrightarrow> P t \<Longrightarrow> body j t = Inr t' \<Longrightarrow> P t' \<and> Q j t'"
    and "\<And>j k t t'. j \<in> set js \<Longrightarrow> P t \<Longrightarrow> Q k t \<Longrightarrow> body j t = Inr t' \<Longrightarrow> Q k t'"
  shows "P s' \<and> (\<forall>k \<in> set js. Q k s')"
  using assms
proof (induction js arbitrary: s)
  case Nil
  from Nil.prems(1,2) show ?case by simp
next
  case (Cons j js)
  from Cons.prems(1) obtain t where t: "body j s = Inr t" and rest: "forE js body t = Inr s'"
    by (auto simp: bindE_eq_Inr)
  have j0: "j \<in> set (j # js)"
    by simp
  have Pt: "P t \<and> Q j t"
    by (rule Cons.prems(3) [OF j0 Cons.prems(2) t])
  then have P0: "P t" and Q0: "Q j t"
    by simp_all
  have "P s' \<and> Q j s'"
  proof (rule forE_invariant [where P = "\<lambda>u. P u \<and> Q j u", OF rest Pt])
    fix i u u'
    assume i: "i \<in> set js" and u: "P u \<and> Q j u" and b: "body i u = Inr u'"
    from i have i': "i \<in> set (j # js)"
      by simp
    from u have Pu: "P u" and Qu: "Q j u"
      by simp_all
    from Cons.prems(3) [OF i' Pu b] have "P u'"
      by simp
    moreover have "Q j u'"
      by (rule Cons.prems(4) [OF i' Pu Qu b])
    ultimately show "P u' \<and> Q j u'"
      by simp
  qed
  moreover have "P s' \<and> (\<forall>k \<in> set js. Q k s')"
  proof (rule Cons.IH [OF rest P0])
    fix i u u'
    assume i: "i \<in> set js" and Pu: "P u" and b: "body i u = Inr u'"
    from i have i': "i \<in> set (j # js)"
      by simp
    show "P u' \<and> Q i u'"
      by (rule Cons.prems(3) [OF i' Pu b])
  next
    fix i k u u'
    assume i: "i \<in> set js" and Pu: "P u" and Qu: "Q k u" and b: "body i u = Inr u'"
    from i have i': "i \<in> set (j # js)"
      by simp
    show "Q k u'"
      by (rule Cons.prems(4) [OF i' Pu Qu b])
  qed
  ultimately show ?case by simp
qed

text \<open>The areas that the loop over the surfaces of a zone sets.\<close>

lemma InitSurfLoop_area:
  assumes loop: "forE [1..S] (InitSurf z k) (h, st, l) = Inr (h', st', l')"
    and zd: "at1 (ZoneData st) z = Inr zd"
  shows "\<forall>j \<in> {1..S}. \<exists>x. at2 (MundtAirSurf st') k j = Inr x \<and>
           Area x = SurfaceArea h (SurfFirst zd + j - 1)"
    and "\<forall>i j. i \<noteq> k \<longrightarrow> at2 (MundtAirSurf st') i j = at2 (MundtAirSurf st) i j"
    and "map (map TMeanAir) (MundtAirSurf st') = map (map TMeanAir) (MundtAirSurf st)"
proof -
  let ?P = "\<lambda>t :: host \<times> mundt \<times> InitLocals. fst t = h \<and> ZoneData (fst (snd t)) = ZoneData st \<and>
      (\<forall>i j. i \<noteq> k \<longrightarrow> at2 (MundtAirSurf (fst (snd t))) i j = at2 (MundtAirSurf st) i j) \<and>
      map (map TMeanAir) (MundtAirSurf (fst (snd t))) = map (map TMeanAir) (MundtAirSurf st)"
  let ?Q = "\<lambda>j (t :: host \<times> mundt \<times> InitLocals).
      \<exists>x. at2 (MundtAirSurf (fst (snd t))) k j = Inr x \<and>
          Area x = SurfaceArea h (SurfFirst zd + j - 1)"
  have "?P (h', st', l') \<and> (\<forall>j \<in> set [1..S]. ?Q j (h', st', l'))"
  proof (rule forE_each_inv [OF loop, where P = ?P and Q = ?Q])
    show "?P (h, st, l)"
      by simp
  next
    fix j t t'
    assume P: "?P t" and b: "InitSurf z k j t = Inr t'"
    obtain h1 st1 l1 where t: "t = (h1, st1, l1)"
      by (cases t) auto
    obtain h2 st2 l2 where t': "t' = (h2, st2, l2)"
      by (cases t') auto
    from P have h1: "h1 = h" and z1: "ZoneData st1 = ZoneData st"
      and o1: "\<forall>i j. i \<noteq> k \<longrightarrow> at2 (MundtAirSurf st1) i j = at2 (MundtAirSurf st) i j"
      and m1: "map (map TMeanAir) (MundtAirSurf st1) = map (map TMeanAir) (MundtAirSurf st)"
      by (simp_all add: t)
    note b' = b [unfolded t t']
    note I = InitSurf_step [OF b']
    from I(6) zd obtain x where
      e: "\<forall>i' j'. at2 (MundtAirSurf st2) i' j' =
              (if i' = k \<and> j' = j
               then Inr (x\<lparr>Area := SurfaceArea h1 (SurfFirst zd + j - 1)\<rparr>)
               else at2 (MundtAirSurf st1) i' j')"
      by (auto simp: z1)
    from b' obtain zd' :: DefineZoneData and a where
      u: "upd2 (MundtAirSurf st1) k j
              (\<lambda>ms. ms\<lparr>Area := SurfaceArea h1 (SurfFirst zd' + j - 1)\<rparr>) = Inr a"
      and st2: "st2 = st1\<lparr>MundtAirSurf := a\<rparr>"
      by (auto simp: InitSurf_def bindE_eq_Inr)
    have m2: "map (map TMeanAir) (MundtAirSurf st2) = map (map TMeanAir) (MundtAirSurf st1)"
      using upd2_map_same [OF u, of TMeanAir] by (simp add: st2)
    have "?P t'"
      using I(1,3) h1 z1 o1 m1 m2 e by (simp add: t')
    moreover have "?Q j t'"
      using e h1 by (simp add: t')
    ultimately show "?P t' \<and> ?Q j t'"
      by simp
  next
    fix j i t t'
    assume P: "?P t" and Q: "?Q i t" and b: "InitSurf z k j t = Inr t'"
    obtain h1 st1 l1 where t: "t = (h1, st1, l1)"
      by (cases t) auto
    obtain h2 st2 l2 where t': "t' = (h2, st2, l2)"
      by (cases t') auto
    note b' = b [unfolded t t']
    from InitSurf_step(6) [OF b'] obtain zd' x where
      e: "\<forall>i' j'. at2 (MundtAirSurf st2) i' j' =
              (if i' = k \<and> j' = j
               then Inr (x\<lparr>Area := SurfaceArea h1 (SurfFirst zd' + j - 1)\<rparr>)
               else at2 (MundtAirSurf st1) i' j')"
      and zd': "at1 (ZoneData st1) z = Inr zd'"
      by blast
    from P zd zd' have "zd' = zd" "h1 = h"
      by (simp_all add: t)
    with Q e show "?Q i t'"
      by (auto simp: t t')
  qed
  then show "\<forall>j \<in> {1..S}. \<exists>x. at2 (MundtAirSurf st') k j = Inr x \<and>
           Area x = SurfaceArea h (SurfFirst zd + j - 1)"
    and "\<forall>i j. i \<noteq> k \<longrightarrow> at2 (MundtAirSurf st') i j = at2 (MundtAirSurf st) i j"
    and "map (map TMeanAir) (MundtAirSurf st') = map (map TMeanAir) (MundtAirSurf st)"
    by simp_all
qed

lemma InitNodeLoop_surf:
  assumes "forE ns (InitNode z k) s = Inr s'"
  shows "MundtAirSurf (fst (snd s')) = MundtAirSurf (fst (snd s))"
  by (rule forE_invariant [OF assms,
        where P = "\<lambda>t. MundtAirSurf (fst (snd t)) = MundtAirSurf (fst (snd s))"])
    (simp_all add: InitNode_mundt(2))

text \<open>One Mundt zone: the areas of its surfaces are set, the other rows are left.\<close>

lemma InitMundtZone_area:
  assumes "InitMundtZone k (h, st, l) = Inr (h', st', l')"
    and "1 \<le> zk" and "zk \<le> NumOfZones h"
    and "length (ZoneData st) = nat (NumOfZones h)"
    and "MundtIndexOf (ZoneData st) zk = k"
    and "\<forall>y. 1 \<le> y \<longrightarrow> y \<le> NumOfZones h \<longrightarrow> MundtIndexOf (ZoneData st) y = k \<longrightarrow> y = zk"
  shows "\<forall>j \<in> {1..NumOfSurfs (ZoneData st ! nat (zk - 1))}. \<exists>x.
           at2 (MundtAirSurf st') k j = Inr x \<and>
           Area x = SurfaceArea h (SurfFirst (ZoneData st ! nat (zk - 1)) + j - 1)"
    and "\<forall>i j. i \<noteq> k \<longrightarrow> at2 (MundtAirSurf st') i j = at2 (MundtAirSurf st) i j"
    and "map (map TMeanAir) (MundtAirSurf st') = map (map TMeanAir) (MundtAirSurf st)"
proof -
  let ?zd = "ZoneData st ! nat (zk - 1)"
  from assms(1) obtain la where
    loop: "InitZoneLoop k [1..NumOfZones h] (h, st, l) = Inr (h', st', la)"
    by (auto simp: InitMundtZone_def bindE_eq_Inr)
  have mem: "zk \<in> set [1..NumOfZones h]"
    using assms(2,3) by simp
  have at: "at1 (ZoneData st) zk = Inr ?zd"
    using assms(2,3,4) by (simp add: at1_def inrange_def)
  have at': "at1 (ZoneData (fst (snd (h, st, l)))) zk = Inr ?zd"
    using at by simp
  have ix: "MundtZoneIndex ?zd = k"
    using assms(5) by (simp add: MundtIndexOf_def)
  have un: "\<forall>z\<in>set [1..NumOfZones h]. \<forall>zd'. at1 (ZoneData (fst (snd (h, st, l)))) z = Inr zd' \<longrightarrow>
              MundtZoneIndex zd' = k \<longrightarrow> z = zk"
    using assms(6) by (auto simp: at1_Inr MundtIndexOf_def)
  from InitZoneLoop_scan [OF loop mem distinct_upto at' ix un] obtain st1 where
    surf: "forE [1..NumOfSurfs ?zd] (InitSurf zk k) (h, st, l) = Inr (h, st1, l)"
    and node: "forE [1..TotNumOfZoneAirNodes h zk] (InitNode zk k)
                 (h, st1, l\<lparr>RoomNodesCount := 0, FloorSurfCount := 0\<rparr>) = Inr (h', st', la)"
    by auto
  from InitNodeLoop_surf [OF node] have e: "MundtAirSurf st' = MundtAirSurf st1"
    by simp
  note A = InitSurfLoop_area [OF surf at]
  from A(1) show "\<forall>j \<in> {1..NumOfSurfs ?zd}. \<exists>x.
           at2 (MundtAirSurf st') k j = Inr x \<and>
           Area x = SurfaceArea h (SurfFirst ?zd + j - 1)"
    by (simp add: e)
  from A(2) show "\<forall>i j. i \<noteq> k \<longrightarrow> at2 (MundtAirSurf st') i j = at2 (MundtAirSurf st) i j"
    by (simp add: e)
  from A(3) show "map (map TMeanAir) (MundtAirSurf st') = map (map TMeanAir) (MundtAirSurf st)"
    by (simp add: e)
qed

text \<open>The loop over the Mundt zones: the areas of the surfaces of every Mundt zone.\<close>

lemma InitMundtZone_loop_area:
  assumes loop: "forE ks InitMundtZone s = Inr s'"
    and mp: "map (MundtIndexOf (ZoneData (fst (snd s)))) zs = ks" and dk: "distinct ks"
    and rng: "\<forall>z\<in>set zs. 1 \<le> z \<and> z \<le> NumOfZones (fst s)"
    and len: "length (ZoneData (fst (snd s))) = nat (NumOfZones (fst s))"
    and cov: "\<forall>y. 1 \<le> y \<longrightarrow> y \<le> NumOfZones (fst s) \<longrightarrow>
           MundtIndexOf (ZoneData (fst (snd s))) y \<in> set ks \<longrightarrow> y \<in> set zs"
  shows "ZoneData (fst (snd s')) = ZoneData (fst (snd s))"
    and "map (map TMeanAir) (MundtAirSurf (fst (snd s'))) =
           map (map TMeanAir) (MundtAirSurf (fst (snd s)))"
    and "\<forall>z \<in> set zs. \<forall>j \<in> {1..NumOfSurfs (ZoneData (fst (snd s)) ! nat (z - 1))}. \<exists>x.
           at2 (MundtAirSurf (fst (snd s'))) (MundtIndexOf (ZoneData (fst (snd s))) z) j = Inr x \<and>
           Area x = SurfaceArea (fst s) (SurfFirst (ZoneData (fst (snd s)) ! nat (z - 1)) + j - 1)"
proof -
  let ?ZD = "ZoneData (fst (snd s))"
  let ?P = "\<lambda>t :: host \<times> mundt \<times> InitLocals.
      SurfaceArea (fst t) = SurfaceArea (fst s) \<and> NumOfZones (fst t) = NumOfZones (fst s) \<and>
      ZoneData (fst (snd t)) = ?ZD \<and>
      map (map TMeanAir) (MundtAirSurf (fst (snd t))) =
        map (map TMeanAir) (MundtAirSurf (fst (snd s)))"
  let ?Q = "\<lambda>k (t :: host \<times> mundt \<times> InitLocals).
      \<forall>z \<in> set zs. MundtIndexOf ?ZD z = k \<longrightarrow>
        (\<forall>j \<in> {1..NumOfSurfs (?ZD ! nat (z - 1))}. \<exists>x.
           at2 (MundtAirSurf (fst (snd t))) k j = Inr x \<and>
           Area x = SurfaceArea (fst s) (SurfFirst (?ZD ! nat (z - 1)) + j - 1))"
  from dk mp have "distinct (map (MundtIndexOf ?ZD) zs)"
    by simp
  then have inj: "inj_on (MundtIndexOf ?ZD) (set zs)"
    by (simp add: distinct_map)
  have step: "?P t' \<and> ?Q k t' \<and>
      (\<forall>i j. i \<noteq> k \<longrightarrow> at2 (MundtAirSurf (fst (snd t'))) i j =
                          at2 (MundtAirSurf (fst (snd t))) i j)"
    if k: "k \<in> set ks" and P: "?P t" and b: "InitMundtZone k t = Inr t'" for k t t'
  proof -
    obtain h1 st1 l1 where t: "t = (h1, st1, l1)"
      by (cases t) auto
    obtain h2 st2 l2 where t': "t' = (h2, st2, l2)"
      by (cases t') auto
    from P have a1: "SurfaceArea h1 = SurfaceArea (fst s)" and n1: "NumOfZones h1 = NumOfZones (fst s)"
      and z1: "ZoneData st1 = ?ZD"
      and m1: "map (map TMeanAir) (MundtAirSurf st1) = map (map TMeanAir) (MundtAirSurf (fst (snd s)))"
      by (simp_all add: t)
    from k mp obtain zk where zk: "zk \<in> set zs" and ik: "MundtIndexOf ?ZD zk = k"
      by auto
    from zk rng have r: "1 \<le> zk" "zk \<le> NumOfZones h1"
      by (simp_all add: n1)
    have l: "length (ZoneData st1) = nat (NumOfZones h1)"
      using len by (simp add: z1 n1)
    have ik': "MundtIndexOf (ZoneData st1) zk = k"
      using ik by (simp add: z1)
    have un: "\<forall>y. 1 \<le> y \<longrightarrow> y \<le> NumOfZones h1 \<longrightarrow>
                MundtIndexOf (ZoneData st1) y = k \<longrightarrow> y = zk"
    proof (intro allI impI)
      fix y assume y: "1 \<le> y" "y \<le> NumOfZones h1" "MundtIndexOf (ZoneData st1) y = k"
      with cov k have "y \<in> set zs"
        by (simp add: z1 n1)
      with inj zk ik y(3) show "y = zk"
        by (simp add: inj_on_def z1)
    qed
    note b' = b [unfolded t t']
    note S = InitMundtZone_step [OF b' r l ik' un]
    note A = InitMundtZone_area [OF b' r l ik' un]
    have a2: "SurfaceArea h2 = SurfaceArea (fst s)" and n2: "NumOfZones h2 = NumOfZones (fst s)"
      using a1 n1 by (simp_all add: S(1))
    have "?P t'"
      using a2 n2 S(3) z1 A(3) m1 by (simp add: t')
    moreover have "?Q k t'"
    proof (intro ballI impI)
      fix z j assume z: "z \<in> set zs" and iz: "MundtIndexOf ?ZD z = k"
        and j: "j \<in> {1..NumOfSurfs (?ZD ! nat (z - 1))}"
      from inj z zk iz ik have "z = zk"
        by (simp add: inj_on_def)
      with A(1) j show "\<exists>x. at2 (MundtAirSurf (fst (snd t'))) k j = Inr x \<and>
           Area x = SurfaceArea (fst s) (SurfFirst (?ZD ! nat (z - 1)) + j - 1)"
        by (simp add: t' z1 a1)
    qed
    moreover have "\<forall>i j. i \<noteq> k \<longrightarrow> at2 (MundtAirSurf (fst (snd t'))) i j =
                          at2 (MundtAirSurf (fst (snd t))) i j"
      using A(2) by (simp add: t t')
    ultimately show ?thesis
      by blast
  qed
  have "?P s' \<and> (\<forall>k \<in> set ks. ?Q k s')"
  proof (rule forE_each_inv [OF loop, where P = ?P and Q = ?Q])
    show "?P s"
      by simp
  next
    fix j t t'
    assume "j \<in> set ks" and "?P t" and "InitMundtZone j t = Inr t'"
    from step [OF this] show "?P t' \<and> ?Q j t'"
      by blast
  next
    fix j k t t'
    assume j: "j \<in> set ks" and P: "?P t" and Q: "?Q k t" and b: "InitMundtZone j t = Inr t'"
    note T = step [OF j P b]
    show "?Q k t'"
    proof (cases "k = j")
      case True
      with T show ?thesis by blast
    next
      case False
      with T have "\<forall>jj. at2 (MundtAirSurf (fst (snd t'))) k jj =
                          at2 (MundtAirSurf (fst (snd t))) k jj"
        by blast
      with Q show ?thesis
        by simp
    qed
  qed
  then have P': "?P s'" and Q': "\<forall>k \<in> set ks. ?Q k s'"
    by blast+
  from P' show "ZoneData (fst (snd s')) = ZoneData (fst (snd s))"
    and "map (map TMeanAir) (MundtAirSurf (fst (snd s'))) =
           map (map TMeanAir) (MundtAirSurf (fst (snd s)))"
    by blast+
  show "\<forall>z \<in> set zs. \<forall>j \<in> {1..NumOfSurfs (?ZD ! nat (z - 1))}. \<exists>x.
           at2 (MundtAirSurf (fst (snd s'))) (MundtIndexOf ?ZD z) j = Inr x \<and>
           Area x = SurfaceArea (fst s) (SurfFirst (?ZD ! nat (z - 1)) + j - 1)"
  proof (intro ballI)
    fix z j assume z: "z \<in> set zs" and j: "j \<in> {1..NumOfSurfs (?ZD ! nat (z - 1))}"
    from z mp have "MundtIndexOf ?ZD z \<in> set ks"
      by auto
    with Q' have "?Q (MundtIndexOf ?ZD z) s'"
      by blast
    with z j show "\<exists>x.
           at2 (MundtAirSurf (fst (snd s'))) (MundtIndexOf ?ZD z) j = Inr x \<and>
           Area x = SurfaceArea (fst s) (SurfFirst (?ZD ! nat (z - 1)) + j - 1)"
      by blast
  qed
qed

lemma at2_replicate:
  assumes "at2 (replicate r (replicate c d)) i j = Inr x"
  shows "x = d"
  using assms by (auto simp: at2_def bindE_eq_Inr at1_Inr inrange_def)

text \<open>The scan of \<^verbatim>\<open>InitMundtModel\<close>: the zone data, the areas and the mean effective
  air temperatures that it leaves.\<close>

lemma InitScan_area:
  assumes "InitScan h st = Inr (h1, st1, l1)"
  shows "length (ZoneData st1) = nat (NumOfZones h)"
    and "\<forall>z \<in> set (MundtZones h). \<forall>j \<in> {1..NumOfSurfs (ZoneData st1 ! nat (z - 1))}. \<exists>x.
           at2 (MundtAirSurf st1) (MundtIndexOf (ZoneData st1) z) j = Inr x \<and>
           Area x = SurfaceArea h (SurfFirst (ZoneData st1 ! nat (z - 1)) + j - 1)"
    and "\<forall>i j x. at2 (MundtAirSurf st1) i j = Inr x \<longrightarrow> TMeanAir x = TMeanAir DefaultSurf"
    and "\<forall>z. 1 \<le> z \<longrightarrow> z \<le> NumOfZones h \<longrightarrow> z \<notin> set (MundtZones h) \<longrightarrow>
           NumOfSurfs (ZoneData st1 ! nat (z - 1)) = 0"
proof -
  from InitScan_zones [of h st] obtain sta la where
    scan: "InitScan h st = forE [1..NumOfMundtZones la] InitMundtZone (h, InitAllocate la sta, la)"
    and len: "length (ZoneData sta) = nat (NumOfZones h)"
    and mp: "map (MundtIndexOf (ZoneData sta)) (MundtZones h) = [1..NumOfMundtZones la]"
    and cov: "\<forall>y. 1 \<le> y \<longrightarrow> y \<le> NumOfZones h \<longrightarrow>
        MundtIndexOf (ZoneData sta) y \<in> set [1..NumOfMundtZones la] \<longrightarrow>
        y \<in> set (MundtZones h)"
    and nm: "\<forall>z. 1 \<le> z \<longrightarrow> z \<le> NumOfZones h \<longrightarrow> z \<notin> set (MundtZones h) \<longrightarrow>
        NumOfSurfs (ZoneData sta ! nat (z - 1)) = 0"
    by blast
  let ?s = "(h, InitAllocate la sta, la)"
  have za: "ZoneData (InitAllocate la sta) = ZoneData sta"
    by (simp add: InitAllocate_def)
  have loop: "forE [1..NumOfMundtZones la] InitMundtZone ?s = Inr (h1, st1, l1)"
    using assms scan by simp
  have a1: "map (MundtIndexOf (ZoneData (fst (snd ?s)))) (MundtZones h) = [1..NumOfMundtZones la]"
    using mp by (simp add: za)
  have a2: "distinct [1..NumOfMundtZones la]"
    by simp
  have a3: "\<forall>z \<in> set (MundtZones h). 1 \<le> z \<and> z \<le> NumOfZones (fst ?s)"
    by (simp add: MundtZones_def)
  have a4: "length (ZoneData (fst (snd ?s))) = nat (NumOfZones (fst ?s))"
    using len by (simp add: za)
  have a5: "\<forall>y. 1 \<le> y \<longrightarrow> y \<le> NumOfZones (fst ?s) \<longrightarrow>
           MundtIndexOf (ZoneData (fst (snd ?s))) y \<in> set [1..NumOfMundtZones la] \<longrightarrow>
           y \<in> set (MundtZones h)"
    using cov by (simp add: za)
  note L = InitMundtZone_loop_area [OF loop a1 a2 a3 a4 a5]
  from L(1) have zd: "ZoneData st1 = ZoneData sta"
    by (simp add: za)
  from len show "length (ZoneData st1) = nat (NumOfZones h)"
    by (simp add: zd)
  from L(3) show "\<forall>z \<in> set (MundtZones h).
         \<forall>j \<in> {1..NumOfSurfs (ZoneData st1 ! nat (z - 1))}. \<exists>x.
           at2 (MundtAirSurf st1) (MundtIndexOf (ZoneData st1) z) j = Inr x \<and>
           Area x = SurfaceArea h (SurfFirst (ZoneData st1 ! nat (z - 1)) + j - 1)"
    by (simp add: za zd)
  from nm show "\<forall>z. 1 \<le> z \<longrightarrow> z \<le> NumOfZones h \<longrightarrow> z \<notin> set (MundtZones h) \<longrightarrow>
           NumOfSurfs (ZoneData st1 ! nat (z - 1)) = 0"
    by (simp add: zd)
  from L(2) have m: "map (map TMeanAir) (MundtAirSurf st1) =
      map (map TMeanAir)
        (replicate (nat (NumOfMundtZones la)) (replicate (nat (MaxNumOfSurfs la)) DefaultSurf))"
    by (simp add: InitAllocate_def)
  show "\<forall>i j x. at2 (MundtAirSurf st1) i j = Inr x \<longrightarrow> TMeanAir x = TMeanAir DefaultSurf"
  proof (intro allI impI)
    fix i j x assume "at2 (MundtAirSurf st1) i j = Inr x"
    from at2_map_eq [OF m this] obtain y where
      y: "at2 (replicate (nat (NumOfMundtZones la)) (replicate (nat (MaxNumOfSurfs la)) DefaultSurf))
            i j = Inr y"
      and e: "TMeanAir y = TMeanAir x"
      by blast
    from at2_replicate [OF y] e show "TMeanAir x = TMeanAir DefaultSurf"
      by simp
  qed
qed

text \<open>The first call up to the transfer of the data of the heat balance.\<close>

lemma ManageInbound_first:
  assumes "FirstTimeFlag st" and "ManageInbound ZoneNum (h, st) = Inr (h1, st2)"
  shows "\<forall>z \<in> set (MundtZones h). \<exists>zd. at1 (ZoneData st2) z = Inr zd \<and>
           (\<forall>j \<in> {1..NumOfSurfs zd}. \<exists>x.
              at2 (MundtAirSurf st2) (MundtZoneIndex zd) j = Inr x \<and>
              Area x = SurfaceArea h (SurfFirst zd + j - 1))"
    and "\<forall>i j x. at2 (MundtAirSurf st2) i j = Inr x \<longrightarrow> TMeanAir x = TMeanAir DefaultSurf"
    and "\<forall>zd. at1 (ZoneData st2) ZoneNum = Inr zd \<longrightarrow>
           ZoneNum \<in> set (MundtZones h) \<or> NumOfSurfs zd = 0"
proof -
  from assms obtain h0 st0 and zd0 :: DefineZoneData where
    init: "InitMundtModel h st = Inr (h0, st0)"
    and get: "GetSurfHBDataForMundtModel h1 ZoneNum
                (st0\<lparr>FirstTimeFlag := False, MundtZoneNum := MundtZoneIndex zd0\<rparr>) = Inr st2"
    by (auto simp: ManageInbound_def bindE_eq_Inr)
  from init obtain sti li where scan: "InitScan h st = Inr (h0, sti, li)"
    and z0: "ZoneData st0 = ZoneData sti" and m0: "MundtAirSurf st0 = MundtAirSurf sti"
    by (auto simp: InitMundtModel_def bindE_eq_Inr split: if_splits)
  note G = GetSurfHBDataForMundtModel_fields [OF get]
  from G(2) z0 have zd: "ZoneData st2 = ZoneData sti"
    by simp
  from G(4) m0 have mt: "map (map TMeanAir) (MundtAirSurf st2) = map (map TMeanAir) (MundtAirSurf sti)"
    by simp
  from G(5) m0 have ma: "map (map Area) (MundtAirSurf sti) = map (map Area) (MundtAirSurf st2)"
    by simp
  note S = InitScan_area [OF scan]
  show "\<forall>z \<in> set (MundtZones h). \<exists>zd. at1 (ZoneData st2) z = Inr zd \<and>
           (\<forall>j \<in> {1..NumOfSurfs zd}. \<exists>x.
              at2 (MundtAirSurf st2) (MundtZoneIndex zd) j = Inr x \<and>
              Area x = SurfaceArea h (SurfFirst zd + j - 1))"
  proof
    fix z assume z: "z \<in> set (MundtZones h)"
    then have "1 \<le> z" "z \<le> NumOfZones h"
      by (simp_all add: MundtZones_def)
    with S(1) have at: "at1 (ZoneData st2) z = Inr (ZoneData sti ! nat (z - 1))"
      by (simp add: zd at1_def inrange_def)
    have "\<exists>x. at2 (MundtAirSurf st2) (MundtZoneIndex (ZoneData sti ! nat (z - 1))) j = Inr x \<and>
              Area x = SurfaceArea h (SurfFirst (ZoneData sti ! nat (z - 1)) + j - 1)"
      if "j \<in> {1..NumOfSurfs (ZoneData sti ! nat (z - 1))}" for j
    proof -
      from S(2) z that obtain x where
        x: "at2 (MundtAirSurf sti) (MundtIndexOf (ZoneData sti) z) j = Inr x"
        and a: "Area x = SurfaceArea h (SurfFirst (ZoneData sti ! nat (z - 1)) + j - 1)"
        by blast
      from at2_map_eq [OF ma x] a show ?thesis
        by (auto simp: MundtIndexOf_def)
    qed
    with at show "\<exists>zd. at1 (ZoneData st2) z = Inr zd \<and>
           (\<forall>j \<in> {1..NumOfSurfs zd}. \<exists>x.
              at2 (MundtAirSurf st2) (MundtZoneIndex zd) j = Inr x \<and>
              Area x = SurfaceArea h (SurfFirst zd + j - 1))"
      by blast
  qed
  show "\<forall>i j x. at2 (MundtAirSurf st2) i j = Inr x \<longrightarrow> TMeanAir x = TMeanAir DefaultSurf"
  proof (intro allI impI)
    fix i j x assume "at2 (MundtAirSurf st2) i j = Inr x"
    from at2_map_eq [OF mt this] S(3) show "TMeanAir x = TMeanAir DefaultSurf"
      by auto
  qed
  show "\<forall>zd. at1 (ZoneData st2) ZoneNum = Inr zd \<longrightarrow>
           ZoneNum \<in> set (MundtZones h) \<or> NumOfSurfs zd = 0"
  proof (intro allI impI)
    fix zd' assume "at1 (ZoneData st2) ZoneNum = Inr zd'"
    then have r: "1 \<le> ZoneNum" "ZoneNum \<le> NumOfZones h"
      and e: "zd' = ZoneData sti ! nat (ZoneNum - 1)"
      using S(1) by (auto simp: at1_Inr inrange_def zd split: if_splits)
    with S(4) show "ZoneNum \<in> set (MundtZones h) \<or> NumOfSurfs zd' = 0"
      by blast
  qed
qed

lemma ManageInbound_zone:
  assumes "ManageInbound ZoneNum (h, st) = Inr (h1, st2)"
  shows "\<exists>zd. at1 (ZoneData st2) ZoneNum = Inr zd \<and> MundtZoneNum st2 = MundtZoneIndex zd"
proof -
  from assms obtain st1 and zd :: DefineZoneData where
    zd: "at1 (ZoneData st1) ZoneNum = Inr zd"
    and get: "GetSurfHBDataForMundtModel h1 ZoneNum (st1\<lparr>MundtZoneNum := MundtZoneIndex zd\<rparr>) = Inr st2"
    by (auto simp: ManageInbound_def bindE_eq_Inr split: if_splits)
  note g = GetSurfHBDataForMundtModel_fields [OF get]
  from zd g(2,3) show ?thesis
    by simp
qed

text \<open>Claim C8, as amended. For the surfaces of a zone in one call. The areas are set
  by the first call, for every surface of every Mundt zone, to the areas of the host;
  every later call leaves every area as it was. The surface temperature and the
  convective coefficient of every surface of the zone are those of the host, written
  by the transfer of that call. The mean effective air temperature is written by the
  solve only: with the system off the state is left as the transfer left it, and in
  every call the entry of a surface outside the floor surfaces and the masks of the
  Ceiling and Room nodes is left as it was; such an entry, and every entry when the
  system is off, holds the mean effective air temperature from before the call, or
  the initial 25 C in the first call.\<close>

theorem ManageMundtModel_surface_entries:
  assumes "ManageInbound ZoneNum (h, st) = Inr (h1, st2)"
    and "ManageMundtModel ZoneNum (h, st) = Inr (h', st')"
  shows "(\<not> FirstTimeFlag st \<longrightarrow>
            map (map Area) (MundtAirSurf st') = map (map Area) (MundtAirSurf st)) \<and>
         (FirstTimeFlag st \<longrightarrow>
            (\<forall>z \<in> set (MundtZones h). \<exists>zd. at1 (ZoneData st') z = Inr zd \<and>
               (\<forall>SurfNum \<in> {1..NumOfSurfs zd}. \<exists>x.
                  at2 (MundtAirSurf st') (MundtZoneIndex zd) SurfNum = Inr x \<and>
                  Area x = SurfaceArea h (SurfFirst zd + SurfNum - 1))) \<and>
            (\<forall>zd. at1 (ZoneData st') ZoneNum = Inr zd \<longrightarrow>
               ZoneNum \<in> set (MundtZones h) \<or> NumOfSurfs zd = 0)) \<and>
         (\<exists>zd. at1 (ZoneData st') ZoneNum = Inr zd \<and> MundtZoneNum st' = MundtZoneIndex zd \<and>
            (\<forall>SurfNum \<in> {1..NumOfSurfs zd}. \<exists>x.
               at2 (MundtAirSurf st') (MundtZoneNum st') SurfNum = Inr x \<and>
               SurfTemp x = TempSurfIn h1 (SurfFirst zd + SurfNum - 1) \<and>
               Hc x = HConvIn h1 (SurfFirst zd + SurfNum - 1))) \<and>
         (\<not> SystemOn st2 \<longrightarrow> st' = st2) \<and>
         (\<forall>z SurfID. SurfID \<notin> TMeanAirTargets st' \<longrightarrow>
            at2 (MundtAirSurf st') z SurfID = at2 (MundtAirSurf st2) z SurfID) \<and>
         (\<not> FirstTimeFlag st \<longrightarrow>
            (\<forall>z SurfID x. at2 (MundtAirSurf st) z SurfID = Inr x \<longrightarrow>
               SurfID \<notin> TMeanAirTargets st' \<or> \<not> SystemOn st2 \<longrightarrow>
               (\<exists>y. at2 (MundtAirSurf st') z SurfID = Inr y \<and> TMeanAir y = TMeanAir x))) \<and>
         (FirstTimeFlag st \<longrightarrow>
            (\<forall>z SurfID x. at2 (MundtAirSurf st') z SurfID = Inr x \<longrightarrow>
               SurfID \<notin> TMeanAirTargets st' \<or> \<not> SystemOn st2 \<longrightarrow>
               TMeanAir x = TMeanAir DefaultSurf))"
proof -
  have rel: "map (map Area) (MundtAirSurf st') = map (map Area) (MundtAirSurf st2) \<and>
      map (map SurfTemp) (MundtAirSurf st') = map (map SurfTemp) (MundtAirSurf st2) \<and>
      map (map Hc) (MundtAirSurf st') = map (map Hc) (MundtAirSurf st2) \<and>
      ZoneData st' = ZoneData st2 \<and> MundtZoneNum st' = MundtZoneNum st2 \<and>
      (\<not> SystemOn st2 \<longrightarrow> st' = st2) \<and>
      (\<forall>z SurfID. SurfID \<notin> TMeanAirTargets st' \<longrightarrow>
            at2 (MundtAirSurf st') z SurfID = at2 (MundtAirSurf st2) z SurfID)"
  proof (cases "SystemOn st2")
    case False
    with assms have "st' = st2"
      by (auto simp: ManageMundtModel_def bindE_eq_Inr)
    then show ?thesis by simp
  next
    case True
    with assms obtain h3 where run: "RunMundtModel ZoneNum (h1, st2) = Inr (h3, st')"
      by (auto simp: ManageMundtModel_def bindE_eq_Inr)
    then obtain st3 where
      su: "SetupMundtModel ZoneNum (h1, st2, False) = Inr (h3, st3, False)"
      and calc: "CalcMundtModel h3 ZoneNum st3 = Inr st'"
      by (auto simp: RunMundtModel_def bindE_eq_Inr split: if_splits)
    note k = SetupMundtModel_fields(1) [OF su, unfolded SetupKeeps_def]
    note c = CalcMundtModel_surf [OF calc]
    note t = CalcMundtModel_targets [OF calc]
    note r = RunMundtModel_fields(3,4) [OF run]
    from k c t r True show ?thesis by simp
  qed
  from rel have A: "map (map Area) (MundtAirSurf st2) = map (map Area) (MundtAirSurf st')"
    and T: "map (map SurfTemp) (MundtAirSurf st2) = map (map SurfTemp) (MundtAirSurf st')"
    and H: "map (map Hc) (MundtAirSurf st2) = map (map Hc) (MundtAirSurf st')"
    and Z: "ZoneData st' = ZoneData st2" and N: "MundtZoneNum st' = MundtZoneNum st2"
    and off: "\<not> SystemOn st2 \<longrightarrow> st' = st2"
    and frame: "\<forall>z SurfID. SurfID \<notin> TMeanAirTargets st' \<longrightarrow>
            at2 (MundtAirSurf st') z SurfID = at2 (MundtAirSurf st2) z SurfID"
    by simp_all
  have same: "at2 (MundtAirSurf st') z SurfID = at2 (MundtAirSurf st2) z SurfID"
    if "SurfID \<notin> TMeanAirTargets st' \<or> \<not> SystemOn st2" for z SurfID
    using that off frame by auto
  have area: "map (map Area) (MundtAirSurf st') = map (map Area) (MundtAirSurf st)"
    if "\<not> FirstTimeFlag st"
    using ManageInbound_fields(2) [OF assms(1) that] rel by simp
  have first_area: "\<forall>z \<in> set (MundtZones h). \<exists>zd. at1 (ZoneData st') z = Inr zd \<and>
               (\<forall>SurfNum \<in> {1..NumOfSurfs zd}. \<exists>x.
                  at2 (MundtAirSurf st') (MundtZoneIndex zd) SurfNum = Inr x \<and>
                  Area x = SurfaceArea h (SurfFirst zd + SurfNum - 1))"
    if F: "FirstTimeFlag st"
  proof
    fix z assume "z \<in> set (MundtZones h)"
    with ManageInbound_first(1) [OF F assms(1)] obtain zd where
      zd: "at1 (ZoneData st2) z = Inr zd"
      and ar: "\<forall>j \<in> {1..NumOfSurfs zd}. \<exists>x.
              at2 (MundtAirSurf st2) (MundtZoneIndex zd) j = Inr x \<and>
              Area x = SurfaceArea h (SurfFirst zd + j - 1)"
      by blast
    have "\<exists>y. at2 (MundtAirSurf st') (MundtZoneIndex zd) j = Inr y \<and>
              Area y = SurfaceArea h (SurfFirst zd + j - 1)"
      if "j \<in> {1..NumOfSurfs zd}" for j
    proof -
      from ar that obtain x where x: "at2 (MundtAirSurf st2) (MundtZoneIndex zd) j = Inr x"
        and a: "Area x = SurfaceArea h (SurfFirst zd + j - 1)"
        by blast
      from at2_map_eq [OF A x] a show ?thesis
        by auto
    qed
    with zd show "\<exists>zd. at1 (ZoneData st') z = Inr zd \<and>
               (\<forall>SurfNum \<in> {1..NumOfSurfs zd}. \<exists>x.
                  at2 (MundtAirSurf st') (MundtZoneIndex zd) SurfNum = Inr x \<and>
                  Area x = SurfaceArea h (SurfFirst zd + SurfNum - 1))"
      by (auto simp: Z)
  qed
  have first_zone: "\<forall>zd. at1 (ZoneData st') ZoneNum = Inr zd \<longrightarrow>
               ZoneNum \<in> set (MundtZones h) \<or> NumOfSurfs zd = 0"
    if F: "FirstTimeFlag st"
    using ManageInbound_first(3) [OF F assms(1)] by (simp add: Z)
  have first_mean: "\<forall>z SurfID x. at2 (MundtAirSurf st') z SurfID = Inr x \<longrightarrow>
               SurfID \<notin> TMeanAirTargets st' \<or> \<not> SystemOn st2 \<longrightarrow>
               TMeanAir x = TMeanAir DefaultSurf"
    if F: "FirstTimeFlag st"
  proof (intro allI impI)
    fix z SurfID x
    assume x: "at2 (MundtAirSurf st') z SurfID = Inr x"
      and c: "SurfID \<notin> TMeanAirTargets st' \<or> \<not> SystemOn st2"
    from same [OF c] x have "at2 (MundtAirSurf st2) z SurfID = Inr x"
      by simp
    with ManageInbound_first(2) [OF F assms(1)] show "TMeanAir x = TMeanAir DefaultSurf"
      by blast
  qed
  have later_mean: "\<forall>z SurfID x. at2 (MundtAirSurf st) z SurfID = Inr x \<longrightarrow>
               SurfID \<notin> TMeanAirTargets st' \<or> \<not> SystemOn st2 \<longrightarrow>
               (\<exists>y. at2 (MundtAirSurf st') z SurfID = Inr y \<and> TMeanAir y = TMeanAir x)"
    if L: "\<not> FirstTimeFlag st"
  proof (intro allI impI)
    fix z SurfID x
    assume x: "at2 (MundtAirSurf st) z SurfID = Inr x"
      and c: "SurfID \<notin> TMeanAirTargets st' \<or> \<not> SystemOn st2"
    from ManageInbound_fields(2) [OF assms(1) L]
    have m: "map (map TMeanAir) (MundtAirSurf st) = map (map TMeanAir) (MundtAirSurf st2)"
      by simp
    from at2_map_eq [OF m x] same [OF c]
    show "\<exists>y. at2 (MundtAirSurf st') z SurfID = Inr y \<and> TMeanAir y = TMeanAir x"
      by simp
  qed
  from ManageInbound_values [OF assms(1)] obtain zd where zd: "at1 (ZoneData st2) ZoneNum = Inr zd"
    and vals: "\<forall>SurfNum \<in> {1..NumOfSurfs zd}. \<exists>x.
              at2 (MundtAirSurf st2) (MundtZoneNum st2) SurfNum = Inr x \<and>
              SurfTemp x = TempSurfIn h1 (SurfFirst zd + SurfNum - 1) \<and>
              Hc x = HConvIn h1 (SurfFirst zd + SurfNum - 1)"
    by blast
  from ManageInbound_zone [OF assms(1)] zd have ix: "MundtZoneNum st' = MundtZoneIndex zd"
    by (auto simp: N)
  have vals': "\<exists>y. at2 (MundtAirSurf st') (MundtZoneNum st') SurfNum = Inr y \<and>
              SurfTemp y = TempSurfIn h1 (SurfFirst zd + SurfNum - 1) \<and>
              Hc y = HConvIn h1 (SurfFirst zd + SurfNum - 1)"
    if "SurfNum \<in> {1..NumOfSurfs zd}" for SurfNum
  proof -
    from vals that obtain x where x: "at2 (MundtAirSurf st2) (MundtZoneNum st2) SurfNum = Inr x"
      and v: "SurfTemp x = TempSurfIn h1 (SurfFirst zd + SurfNum - 1)"
        "Hc x = HConvIn h1 (SurfFirst zd + SurfNum - 1)"
      by blast
    from at2_map_eq [OF T x] obtain y where
      y: "at2 (MundtAirSurf st') (MundtZoneNum st2) SurfNum = Inr y" and "SurfTemp y = SurfTemp x"
      by blast
    moreover from at2_map_eq [OF H x] y have "Hc y = Hc x"
      by auto
    ultimately show ?thesis using v by (simp add: N)
  qed
  have entries: "\<exists>zd. at1 (ZoneData st') ZoneNum = Inr zd \<and> MundtZoneNum st' = MundtZoneIndex zd \<and>
            (\<forall>SurfNum \<in> {1..NumOfSurfs zd}. \<exists>x.
               at2 (MundtAirSurf st') (MundtZoneNum st') SurfNum = Inr x \<and>
               SurfTemp x = TempSurfIn h1 (SurfFirst zd + SurfNum - 1) \<and>
               Hc x = HConvIn h1 (SurfFirst zd + SurfNum - 1))"
    using zd ix vals' by (auto simp: Z)
  from area first_area first_zone entries off frame later_mean first_mean show ?thesis
    by blast
qed

text \<open>The first call for the example building, and a later call with the system
  off.\<close>

theorem ManageMundtModel_surface_entries_witness:
  "ManageInbound 1 (ex_host, mundt0) = Inr (ex_host, ex_st_in) \<and>
   ManageMundtModel 1 (ex_host, mundt0) = Inr (ex_host_solved, ex_st_solved) \<and>
   FirstTimeFlag mundt0 \<and> MundtZones ex_host = [1] \<and>
   at1 (ZoneData ex_st_solved) 1 = Inr \<lparr>SurfFirst = 1, NumOfSurfs = 4, MundtZoneIndex = 1\<rparr> \<and>
   map Area (MundtAirSurf ex_st_solved ! 0) = map (SurfaceArea ex_host) [1, 2, 3, 4] \<and>
   SurfaceArea ex_host 1 = 10 \<and>
   TMeanAirTargets ex_st_solved = {1, 2, 3} \<and>
   at2 (MundtAirSurf ex_st_solved) 1 4 = at2 (MundtAirSurf ex_st_in) 1 4 \<and>
   at2 (MundtAirSurf ex_st_solved) 1 4 = Inr ex_surf \<and>
   TMeanAir ex_surf = TMeanAir DefaultSurf \<and>
   at2 (MundtAirSurf ex_st_solved) 1 1 = Inr (ex_surf\<lparr>TMeanAir := 213 / 14\<rparr>) \<and>
   SurfTemp ex_surf = TempSurfIn ex_host 1 \<and> Hc ex_surf = HConvIn ex_host 1 \<and>
   \<not> FirstTimeFlag ex_st_solved \<and>
   ManageInbound 1 (ex_host_off, ex_st_solved) = Inr (ex_host_off, ex_st_idle) \<and>
   \<not> SystemOn ex_st_idle \<and>
   (\<exists>h'. ManageMundtModel 1 (ex_host_off, ex_st_solved) = Inr (h', ex_st_idle)) \<and>
   (\<exists>y. at2 (MundtAirSurf ex_st_idle) 1 1 = Inr y \<and> TMeanAir y = 213 / 14)"
proof -
  have "(4 :: int) \<notin> TMeanAirTargets ex_st_solved"
    by (simp add: ex_targets)
  with ManageMundtModel_surface_entries [OF ex_inbound ex_manage]
  have frame: "at2 (MundtAirSurf ex_st_solved) 1 4 = at2 (MundtAirSurf ex_st_in) 1 4"
    by blast
  from ex_manage_idle obtain hh where
    idle: "ManageMundtModel 1 (ex_host_off, ex_st_solved) = Inr (hh, ex_st_idle)"
    by (cases "ManageMundtModel 1 (ex_host_off, ex_st_solved)") auto
  have later: "\<not> FirstTimeFlag ex_st_solved"
    by (simp add: ex_st_solved_def ex_st_def)
  have off: "\<not> SystemOn ex_st_idle"
    by (simp add: SystemOn_def ex_st_idle_def)
  have one: "at2 (MundtAirSurf ex_st_solved) 1 1 = Inr (ex_surf\<lparr>TMeanAir := 213 / 14\<rparr>)"
    by (simp add: at2_def at1_def inrange_def ex_st_solved_def ex_st_def)
  from ManageMundtModel_surface_entries [OF ex_inbound_idle idle] later off one
  have kept: "\<exists>y. at2 (MundtAirSurf ex_st_idle) 1 1 = Inr y \<and> TMeanAir y = 213 / 14"
    by fastforce
  have zones: "MundtZones ex_host = [1]"
    by (simp add: MundtZones_def ex_host_def upto.simps)
  have vals: "at2 (MundtAirSurf ex_st_solved) 1 4 = Inr ex_surf"
    "SurfTemp ex_surf = TempSurfIn ex_host 1" "Hc ex_surf = HConvIn ex_host 1"
    "TMeanAir ex_surf = TMeanAir DefaultSurf" "SurfaceArea ex_host 1 = 10"
    "at1 (ZoneData ex_st_solved) 1 = Inr \<lparr>SurfFirst = 1, NumOfSurfs = 4, MundtZoneIndex = 1\<rparr>"
    "map Area (MundtAirSurf ex_st_solved ! 0) = map (SurfaceArea ex_host) [1, 2, 3, 4]"
    "FirstTimeFlag mundt0"
    by (simp_all add: at2_def at1_def inrange_def ex_st_solved_def ex_st_def ex_surf_def
        ex_host_def DefaultSurf_def mundt0_def)
  from frame idle later off one kept zones vals ex_inbound ex_manage ex_targets ex_inbound_idle
  show ?thesis
    by simp
qed

text \<open>The claim as stated fails for the mean effective air temperature: in a call with
  the system off none is written (the entries keep the values of the earlier solve,
  whatever the mean air temperature), and in the first call for the example building the
  solve runs but the fourth surface, in the mask of no Floor, Ceiling or Room node, keeps
  the initial 25 C, which is then read as its bulk effective air temperature.\<close>

theorem ManageMundtModel_surface_entries_counterexample:
  "map_sum id snd (ManageMundtModel 1 (ex_host_off, ex_st_solved)) = Inr ex_st_idle \<and>
   MundtAirSurf ex_st_idle = MundtAirSurf ex_st_solved \<and>
   map TMeanAir (MundtAirSurf ex_st_idle ! 0) = [213 / 14, 5757 / 322, 2664 / 161, 25] \<and>
   MAT ex_host_off 1 = 18 \<and>
   ManageMundtModel 1 (ex_host, mundt0) = Inr (ex_host_solved, ex_st_solved) \<and>
   4 \<notin> TMeanAirTargets ex_st_solved \<and>
   map TMeanAir (MundtAirSurf ex_st_solved ! 0) = [213 / 14, 5757 / 322, 2664 / 161, 25] \<and>
   TMeanAir DefaultSurf = 25 \<and>
   TempEffBulkAir ex_host_solved 4 = 25"
  using ex_manage_idle ex_manage ex_targets
  by (simp add: ex_st_idle_def ex_st_solved_def ex_surf_def DefaultSurf_def ex_host_solved_def
      ex_host_off_def ex_host_def)

end
